(* ===== verification/Go_Prelude.thy ===== *)
theory Go_Prelude
  imports Main "HOL-Library.Word" "HOL-Library.AList" "HOL-Library.Monad_Syntax"
begin

section \<open>Go values shared by all components\<close>

text \<open>
  This theory holds what every component of the router needs from the Go language and its
  standard library: byte slices, maps, the functions of the packages \<open>strings\<close> and
  \<open>strconv\<close> that the sources call, and the lemmas about them.

  Conventions used throughout the development:
  \<^item> A Go \<open>string\<close> is a HOL \<open>string\<close>: both are sequences of bytes, and \<open>len\<close> counts bytes.
    \<open>ToLower\<close> and \<open>TrimSpace\<close> act on the ASCII letters and the ASCII white space; this is what
    Go does on ASCII input, and the keys and names the router passes through them are ASCII.
  \<^item> A Go \<open>[]byte\<close> is a list of 8-bit words, so \<open>b++\<close> wraps around. The nil slice is \<open>[]\<close>.
  \<^item> A Go map is an association list with distinct keys. Its order is the order in which one
    \<open>range\<close> loop visits the map: Go leaves that order open, and the theorems hold for every
    list, hence for every order.
  \<^item> A run-time panic (index out of range, write to a nil map) is \<open>None\<close> of an \<open>option\<close> result.
  \<^item> Instants (\<open>time.Time\<close>) and durations are integers counting nanoseconds.
\<close>

named_theorems go_map_simps \<open>rewrite rules for lookups in Go maps after an operation\<close>
named_theorems go_wf \<open>introduction rules for well-formedness of Go maps and states\<close>

type_synonym byte = "8 word"
type_synonym bytes = "byte list"
type_synonym instant = int
type_synonym duration = int

abbreviation Second :: duration where "Second \<equiv> 1000000000"

abbreviation Hour :: duration where "Hour \<equiv> 3600 * Second"

subsection \<open>Strings and bytes\<close>

abbreviation code_of :: "char \<Rightarrow> nat" where "code_of c \<equiv> of_char c"

text \<open>The conversions \<open>[]byte(s)\<close> and \<open>string(b)\<close>.\<close>

definition byte_of_char :: "char \<Rightarrow> byte" where
  "byte_of_char c = word_of_nat (code_of c)"

definition char_of_byte :: "byte \<Rightarrow> char" where
  "char_of_byte b = char_of (unat b)"

definition bytes_of_string :: "string \<Rightarrow> bytes" where
  "bytes_of_string s = map byte_of_char s"

definition string_of_bytes :: "bytes \<Rightarrow> string" where
  "string_of_bytes b = map char_of_byte b"

lemma code_of_lt [simp]: "code_of c < 256"
  using of_char_mod_256 [of c] by (metis mod_less_divisor zero_less_numeral)

lemma unat_byte_of_char [simp]: "unat (byte_of_char c) = code_of c"
  by (simp add: byte_of_char_def unat_of_nat take_bit_eq_mod)

lemma char_of_byte_of_char [simp]: "char_of_byte (byte_of_char c) = c"
  by (simp add: char_of_byte_def)

lemma unat_byte_lt: "unat (b :: byte) < 256"
  using unsigned_less [of b, where 'a = nat] by simp

lemma byte_of_char_of_byte [simp]: "byte_of_char (char_of_byte b) = b"
  by (simp add: byte_of_char_def char_of_byte_def unat_byte_lt)

lemma byte_of_char_inj [simp]: "byte_of_char c = byte_of_char d \<longleftrightarrow> c = d"
  by (metis char_of_byte_of_char)

lemma string_of_bytes_of_string [simp]: "string_of_bytes (bytes_of_string s) = s"
  by (induction s) (simp_all add: string_of_bytes_def bytes_of_string_def)

lemma bytes_of_string_of_bytes [simp]: "bytes_of_string (string_of_bytes b) = b"
  by (induction b) (simp_all add: string_of_bytes_def bytes_of_string_def)

lemma length_bytes_of_string [simp]: "length (bytes_of_string s) = length s"
  by (simp add: bytes_of_string_def)

lemma length_string_of_bytes [simp]: "length (string_of_bytes b) = length b"
  by (simp add: string_of_bytes_def)

lemma bytes_of_string_append [simp]:
  "bytes_of_string (s @ t) = bytes_of_string s @ bytes_of_string t"
  by (simp add: bytes_of_string_def)

lemma string_of_bytes_append [simp]:
  "string_of_bytes (s @ t) = string_of_bytes s @ string_of_bytes t"
  by (simp add: string_of_bytes_def)

subsection \<open>Package strings\<close>

definition lower_char :: "char \<Rightarrow> char" where
  "lower_char c = (if 65 \<le> code_of c \<and> code_of c \<le> 90 then char_of (code_of c + 32) else c)"

definition ToLower :: "string \<Rightarrow> string" where
  "ToLower s = map lower_char s"

definition is_space :: "char \<Rightarrow> bool" where
  "is_space c = (code_of c \<in> {9, 10, 11, 12, 13, 32})"

definition TrimSpace :: "string \<Rightarrow> string" where
  "TrimSpace s = rev (dropWhile is_space (rev (dropWhile is_space s)))"

text \<open>\<open>strings.ReplaceAll(s, old, new)\<close> for one-byte \<open>old\<close> and \<open>new\<close>.\<close>

definition ReplaceAll :: "char \<Rightarrow> char \<Rightarrow> string \<Rightarrow> string" where
  "ReplaceAll a b s = map (\<lambda>c. if c = a then b else c) s"

definition HasPrefix :: "string \<Rightarrow> string \<Rightarrow> bool" where
  "HasPrefix s p = (take (length p) s = p)"

definition HasSuffix :: "string \<Rightarrow> string \<Rightarrow> bool" where
  "HasSuffix s p = (length p \<le> length s \<and> drop (length s - length p) s = p)"

definition TrimPrefix :: "string \<Rightarrow> string \<Rightarrow> string" where
  "TrimPrefix s p = (if HasPrefix s p then drop (length p) s else s)"

definition TrimSuffix :: "string \<Rightarrow> string \<Rightarrow> string" where
  "TrimSuffix s p = (if HasSuffix s p then take (length s - length p) s else s)"

text \<open>\<open>strings.Contains\<close> and \<open>bytes.Contains\<close>.\<close>

fun Contains :: "'a list \<Rightarrow> 'a list \<Rightarrow> bool" where
  "Contains [] p = (p = [])"
| "Contains (x # xs) p = (take (length p) (x # xs) = p \<or> Contains xs p)"

text \<open>\<open>strings.Split(s, sep)\<close> for a one-byte \<open>sep\<close>: always at least one part.\<close>

fun Split :: "char \<Rightarrow> string \<Rightarrow> string list" where
  "Split c [] = [[]]"
| "Split c (x # xs) = (if x = c then [] # Split c xs
     else (case Split c xs of [] \<Rightarrow> [[x]] | p # ps \<Rightarrow> (x # p) # ps))"

fun Join :: "string list \<Rightarrow> string \<Rightarrow> string" where
  "Join [] sep = []"
| "Join [x] sep = x"
| "Join (x # y # ys) sep = x @ sep @ Join (y # ys) sep"

text \<open>\<open>strings.Fields\<close>, for ASCII white space.\<close>

function Fields :: "string \<Rightarrow> string list" where
  "Fields s =
     (case dropWhile is_space s of
        [] \<Rightarrow> []
      | c # cs \<Rightarrow> (c # takeWhile (\<lambda>x. \<not> is_space x) cs) # Fields (dropWhile (\<lambda>x. \<not> is_space x) cs))"
  by pat_completeness auto
termination
proof (relation "measure length")
  fix s c cs
  assume "dropWhile is_space s = c # cs"
  then have "length (c # cs) \<le> length s"
    by (metis length_dropWhile_le)
  then show "(dropWhile (\<lambda>x. \<not> is_space x) cs, s) \<in> measure length"
    using length_dropWhile_le [of "\<lambda>x. \<not> is_space x" cs] by simp
qed simp

declare Fields.simps [simp del]

text \<open>\<open>strings.Cut(s, sep)\<close> for a one-byte \<open>sep\<close>: the part before, the part after, found.\<close>

definition Cut :: "char \<Rightarrow> string \<Rightarrow> string \<times> string \<times> bool" where
  "Cut c s = (if c \<in> set s
     then (takeWhile (\<lambda>x. x \<noteq> c) s, tl (dropWhile (\<lambda>x. x \<noteq> c) s), True)
     else (s, [], False))"

lemma lower_char_idem [simp]: "lower_char (lower_char c) = lower_char c"
  by (simp add: lower_char_def)

lemma ToLower_idem [simp]: "ToLower (ToLower s) = ToLower s"
  by (simp add: ToLower_def)

lemma length_ToLower [simp]: "length (ToLower s) = length s"
  by (simp add: ToLower_def)

lemma is_space_lower_char [simp]: "is_space (lower_char c) = is_space c"
  by (auto simp: is_space_def lower_char_def)

lemma is_space_comp_lower_char [simp]: "is_space \<circ> lower_char = is_space"
  by (rule ext) simp

lemma dropWhile_space_idem [simp]: "dropWhile is_space (dropWhile is_space s) = dropWhile is_space s"
  by (rule dropWhile_idem)

lemma TrimSpace_ToLower: "TrimSpace (ToLower s) = ToLower (TrimSpace s)"
  by (simp add: TrimSpace_def ToLower_def dropWhile_map rev_map)

lemma dropWhile_rev_trim:
  "dropWhile P (rev (dropWhile P (rev (dropWhile P s)))) = rev (dropWhile P (rev (dropWhile P s)))"
proof (cases "dropWhile P s")
  case Nil
  then show ?thesis by (simp only: rev.simps dropWhile.simps)
next
  case (Cons x xs)
  then have "\<not> P x"
    by (metis dropWhile_eq_Cons_conv)
  then have "dropWhile P (rev xs @ [x]) = dropWhile P (rev xs) @ [x]"
    by (simp add: dropWhile_append3)
  with Cons \<open>\<not> P x\<close> show ?thesis by simp
qed

lemma TrimSpace_idem [simp]: "TrimSpace (TrimSpace s) = TrimSpace s"
  by (simp add: TrimSpace_def dropWhile_rev_trim)

lemma length_ReplaceAll [simp]: "length (ReplaceAll a b s) = length s"
  by (simp add: ReplaceAll_def)

lemma ReplaceAll_absent: "a \<notin> set s \<Longrightarrow> ReplaceAll a b s = s"
  by (auto simp: ReplaceAll_def intro: map_idI)

lemma ReplaceAll_not_in: "a \<noteq> b \<Longrightarrow> a \<notin> set (ReplaceAll a b s)"
  by (auto simp: ReplaceAll_def)

lemma set_TrimSpace: "set (TrimSpace s) \<subseteq> set s"
  unfolding TrimSpace_def by (auto dest!: set_dropWhileD)

lemma Split_nonempty [simp]: "Split c s \<noteq> []"
  by (induction s) (auto split: list.splits)

lemma Split_absent: "c \<notin> set s \<Longrightarrow> Split c s = [s]"
  by (induction s) auto

lemma Split_append_sep: "Split c (s @ c # t) = Split c s @ Split c t"
  by (induction s) (auto split: list.splits)

lemma Split_parts_absent: "p \<in> set (Split c s) \<Longrightarrow> c \<notin> set p"
  by (induction s arbitrary: p) (auto split: list.splits if_splits)

lemma Join_Split [simp]: "Join (Split c s) [c] = s"
proof (induction s)
  case Nil
  then show ?case by simp
next
  case (Cons x xs)
  obtain p ps where "Split c xs = p # ps"
    using Split_nonempty [of c xs] by (cases "Split c xs") auto
  with Cons show ?case
    by (cases ps) auto
qed

lemma Split_Join: "\<forall>p \<in> set ps. c \<notin> set p \<Longrightarrow> ps \<noteq> [] \<Longrightarrow> Split c (Join ps [c]) = ps"
proof (induction ps "[c]" rule: Join.induct)
  case (3 x y ys)
  have "Split c (x @ c # Join (y # ys) [c]) = [x] @ Split c (Join (y # ys) [c])"
    using "3.prems" by (simp only: Split_append_sep) (simp add: Split_absent)
  with 3 show ?case by simp
qed (auto simp: Split_absent)

lemma Fields_parts:
  "p \<in> set (Fields s) \<Longrightarrow> p \<noteq> [] \<and> (\<forall>c \<in> set p. \<not> is_space c)"
proof (induction s rule: Fields.induct)
  case (1 s)
  show ?case
  proof (cases "dropWhile is_space s")
    case Nil
    then have "Fields s = []" by (subst Fields.simps) (simp only: list.case)
    with "1.prems" show ?thesis by simp
  next
    case (Cons c cs)
    let ?w = "takeWhile (\<lambda>x. \<not> is_space x) cs" and ?r = "dropWhile (\<lambda>x. \<not> is_space x) cs"
    have "\<not> is_space c"
      using Cons by (metis dropWhile_eq_Cons_conv)
    then have first: "\<forall>x \<in> set (c # ?w). \<not> is_space x"
      by (auto dest: set_takeWhileD)
    have "Fields s = (c # ?w) # Fields ?r"
      using Cons by (subst Fields.simps) (simp only: list.case)
    then consider "p = c # ?w" | "p \<in> set (Fields ?r)"
      using "1.prems" by (simp only: list.set insert_iff) blast
    then show ?thesis
    proof cases
      case 1
      with first show ?thesis by (simp only: list.distinct simp_thms)
    next
      case 2
      then show ?thesis by (rule "1.IH" [OF Cons])
    qed
  qed
qed

text \<open>A file of lines, each with its newline, is split into them and an empty last part.\<close>

lemma Split_lines:
  "\<forall>l \<in> set ls. c \<notin> set l \<Longrightarrow> Split c (concat (map (\<lambda>l. l @ [c]) ls)) = ls @ [[]]"
proof (induction ls)
  case (Cons l ls)
  then show ?case
    using Split_append_sep [of c l] by (simp add: Split_absent)
qed simp

lemma Cut_append: "c \<notin> set a \<Longrightarrow> Cut c (a @ c # b) = (a, b, True)"
  by (induction a) (auto simp: Cut_def)

lemma append_sep_inj:
  assumes "c \<notin> set a" and "c \<notin> set b" and "a @ c # x = b @ c # y"
  shows "a = b \<and> x = y"
  using assms by (induction a arbitrary: b) (auto simp: Cons_eq_append_conv append_eq_Cons_conv)

subsection \<open>Package strconv\<close>

definition digit_char :: "nat \<Rightarrow> char" where
  "digit_char d = char_of (48 + d)"

definition is_digit :: "char \<Rightarrow> bool" where
  "is_digit c = (48 \<le> code_of c \<and> code_of c \<le> 57)"

fun nat_str :: "nat \<Rightarrow> string" where
  "nat_str n = (if n < 10 then [digit_char n] else nat_str (n div 10) @ [digit_char (n mod 10)])"

declare nat_str.simps [simp del]

text \<open>\<open>strconv.Itoa\<close>, \<open>strconv.FormatInt(_, 10)\<close> and the verb \<open>%d\<close>.\<close>

definition Itoa :: "int \<Rightarrow> string" where
  "Itoa i = (if i < 0 then CHR ''-'' # nat_str (nat (- i)) else nat_str (nat i))"

definition digits_val :: "string \<Rightarrow> nat" where
  "digits_val s = foldl (\<lambda>a c. 10 * a + (code_of c - 48)) 0 s"

text \<open>
  \<open>strconv.Atoi\<close> on a platform whose \<open>int\<close> has \<open>w\<close> bits (the router is built for 32-bit ARM
  and for amd64): an optional sign and at least one decimal digit; \<open>None\<close> is the error.
\<close>

definition Atoi :: "nat \<Rightarrow> string \<Rightarrow> int option" where
  "Atoi w s =
     (let neg = (s \<noteq> [] \<and> hd s = CHR ''-'');
          ds = (if s \<noteq> [] \<and> (hd s = CHR ''-'' \<or> hd s = CHR ''+'') then tl s else s);
          v = (if neg then - int (digits_val ds) else int (digits_val ds))
      in if ds \<noteq> [] \<and> (\<forall>c \<in> set ds. is_digit c) \<and> - (2 ^ (w - 1)) \<le> v \<and> v < 2 ^ (w - 1)
         then Some v else None)"

lemma code_of_digit_char: "d < 10 \<Longrightarrow> code_of (digit_char d) = 48 + d"
  by (simp add: digit_char_def)

lemma is_digit_digit_char [simp]: "d < 10 \<Longrightarrow> is_digit (digit_char d)"
  by (simp add: is_digit_def code_of_digit_char)

lemma nat_str_nonempty [simp]: "nat_str n \<noteq> []"
  by (subst nat_str.simps) simp

lemma nat_str_digits: "c \<in> set (nat_str n) \<Longrightarrow> is_digit c"
proof (induction n rule: nat_str.induct)
  case (1 n)
  then show ?case
    by (cases "n < 10") (auto simp: nat_str.simps [of n])
qed

lemma digits_val_snoc: "digits_val (s @ [c]) = 10 * digits_val s + (code_of c - 48)"
  by (simp add: digits_val_def)

lemma digits_val_nat_str [simp]: "digits_val (nat_str n) = n"
proof (induction n rule: nat_str.induct)
  case (1 n)
  show ?case
  proof (cases "n < 10")
    case True
    then show ?thesis
      by (simp add: nat_str.simps [of n] digits_val_def code_of_digit_char)
  next
    case False
    with 1 show ?thesis
      by (simp add: nat_str.simps [of n] digits_val_snoc code_of_digit_char)
  qed
qed

lemma nat_str_inj [simp]: "nat_str m = nat_str n \<longleftrightarrow> m = n"
  by (metis digits_val_nat_str)

lemma not_digit_hd: "\<not> is_digit c \<Longrightarrow> hd (nat_str n) \<noteq> c"
  using nat_str_digits [of "hd (nat_str n)" n] by auto

lemma not_digit_nat_str: "\<not> is_digit c \<Longrightarrow> c \<notin> set (nat_str n)"
  using nat_str_digits by blast

lemma is_digit_punct [simp]:
  "\<not> is_digit CHR ''-''" "\<not> is_digit CHR ''+''" "\<not> is_digit CHR ''.''" "\<not> is_digit CHR '':''"
  "\<not> is_digit CHR ''/''" "\<not> is_digit CHR '' ''" "\<not> is_digit CHR 0x0A"
  by (simp_all add: is_digit_def)

lemma Atoi_Itoa:
  assumes "- (2 ^ (w - 1)) \<le> i" and "i < 2 ^ (w - 1)"
  shows "Atoi w (Itoa i) = Some i"
proof (cases "i < 0")
  case True
  with assms show ?thesis
    by (auto simp: Atoi_def Itoa_def Let_def nat_str_digits)
next
  case False
  have "hd (nat_str (nat i)) \<noteq> CHR ''-''" "hd (nat_str (nat i)) \<noteq> CHR ''+''"
    by (simp_all add: not_digit_hd)
  with False assms show ?thesis
    by (auto simp: Atoi_def Itoa_def Let_def nat_str_digits)
qed

lemma Itoa_chars: "c \<in> set (Itoa i) \<Longrightarrow> is_digit c \<or> c = CHR ''-''"
  by (auto simp: Itoa_def dest: nat_str_digits split: if_splits)

lemma not_in_Itoa: "\<not> is_digit c \<Longrightarrow> c \<noteq> CHR ''-'' \<Longrightarrow> c \<notin> set (Itoa i)"
  using Itoa_chars by blast

lemma Itoa_inj [simp]: "Itoa i = Itoa j \<longleftrightarrow> i = j"
proof -
  have "\<And>n. CHR ''-'' # nat_str m \<noteq> nat_str n" for m
    by (metis is_digit_punct(1) list.sel(1) not_digit_hd)
  then show ?thesis
    by (auto simp: Itoa_def)
       (metis int_nat_eq linorder_not_less nat_str_inj)+
qed

subsection \<open>Integers\<close>

text \<open>Go's integer division truncates towards zero.\<close>

definition go_div :: "int \<Rightarrow> int \<Rightarrow> int" where
  "go_div a b = sgn a * sgn b * (\<bar>a\<bar> div \<bar>b\<bar>)"

text \<open>\<open>binary.BigEndian.Uint16\<close> and \<open>PutUint16\<close>; \<open>None\<close> is the panic on a short slice.\<close>

definition BigEndian_Uint16 :: "bytes \<Rightarrow> 16 word option" where
  "BigEndian_Uint16 b = (if length b < 2 then None
     else Some (word_of_nat (256 * unat (b ! 0) + unat (b ! 1))))"

definition BigEndian_bytes16 :: "16 word \<Rightarrow> bytes" where
  "BigEndian_bytes16 x = [word_of_nat (unat x div 256), word_of_nat (unat x mod 256)]"

lemma unat_word16_lt: "unat (x :: 16 word) < 65536"
  using unsigned_less [of x, where 'a = nat] by simp

lemma Uint16_bytes16 [simp]: "BigEndian_Uint16 (BigEndian_bytes16 x @ r) = Some x"
proof -
  have "unat x div 256 < 256"
    using unat_word16_lt [of x] by (simp add: less_mult_imp_div_less)
  then have "unat (word_of_nat (unat x div 256) :: byte) = unat x div 256"
    and "unat (word_of_nat (unat x mod 256) :: byte) = unat x mod 256"
    by (simp_all add: unat_of_nat take_bit_eq_mod)
  then show ?thesis
    by (simp add: BigEndian_Uint16_def BigEndian_bytes16_def)
qed

subsection \<open>Maps\<close>

type_synonym ('k, 'v) gomap = "('k \<times> 'v) list"

abbreviation glookup :: "('k, 'v) gomap \<Rightarrow> 'k \<Rightarrow> 'v option" where
  "glookup \<equiv> map_of"

abbreviation gput :: "'k \<Rightarrow> 'v \<Rightarrow> ('k, 'v) gomap \<Rightarrow> ('k, 'v) gomap" where
  "gput \<equiv> AList.update"

abbreviation gdelete :: "'k \<Rightarrow> ('k, 'v) gomap \<Rightarrow> ('k, 'v) gomap" where
  "gdelete \<equiv> AList.delete"

abbreviation gwf :: "('k, 'v) gomap \<Rightarrow> bool" where
  "gwf m \<equiv> distinct (map fst m)"

text \<open>
  The loop \<open>for k, v := range es { m[f(k)] = v }\<close>, which the router uses to copy a map under
  normalised keys. Where two keys of \<open>es\<close> have the same image the later one in the iteration
  order wins.
\<close>

definition range_put :: "('k \<Rightarrow> 'v \<Rightarrow> 'm \<Rightarrow> 'm) \<Rightarrow> ('a \<Rightarrow> 'k) \<Rightarrow> ('a \<times> 'v) list \<Rightarrow> 'm \<Rightarrow> 'm" where
  "range_put put f es m = fold (\<lambda>(k, v). put (f k) v) es m"

text \<open>
  The contract of a Go map as its clients use it: lookup after an insertion and a deletion, and
  the entries a \<open>range\<close> loop sees.
\<close>

locale go_map =
  fixes empty :: 'm
    and lookup :: "'m \<Rightarrow> 'k \<Rightarrow> 'v option"
    and put :: "'k \<Rightarrow> 'v \<Rightarrow> 'm \<Rightarrow> 'm"
    and del :: "'k \<Rightarrow> 'm \<Rightarrow> 'm"
    and entries :: "'m \<Rightarrow> ('k \<times> 'v) list"
    and wf :: "'m \<Rightarrow> bool"
  assumes lookup_empty: "lookup empty k = None"
    and lookup_put: "wf m \<Longrightarrow> lookup (put k v m) k' = (if k' = k then Some v else lookup m k')"
    and lookup_del: "wf m \<Longrightarrow> lookup (del k m) k' = (if k' = k then None else lookup m k')"
    and entries_lookup: "wf m \<Longrightarrow> (k, v) \<in> set (entries m) \<longleftrightarrow> lookup m k = Some v"
    and wf_empty: "wf empty"
    and wf_put: "wf m \<Longrightarrow> wf (put k v m)"
    and wf_del: "wf m \<Longrightarrow> wf (del k m)"
begin

lemma wf_range_put: "wf m \<Longrightarrow> wf (range_put put f es m)"
  unfolding range_put_def by (induction es arbitrary: m) (auto simp: wf_put)

lemma lookup_range_put:
  "wf m \<Longrightarrow> lookup (range_put put f es m) k =
     (case map_of (rev (map (\<lambda>(a, v). (f a, v)) es)) k of Some v \<Rightarrow> Some v | None \<Rightarrow> lookup m k)"
proof (induction es arbitrary: m)
  case Nil
  then show ?case by (simp add: range_put_def)
next
  case (Cons e es)
  obtain a v where e: "e = (a, v)" by (cases e)
  have step: "range_put put f (e # es) m = range_put put f es (put (f a) v m)"
    by (simp add: range_put_def e)
  show ?case
    unfolding step using Cons.IH [of "put (f a) v m"] Cons.prems
    by (auto simp: wf_put lookup_put e map_add_def split: option.splits)
qed

text \<open>A key whose image no other key shares is found under its image.\<close>

lemma lookup_range_put_unique:
  assumes "wf m" and "(a, v) \<in> set es"
    and "\<And>a' v'. (a', v') \<in> set es \<Longrightarrow> f a' = f a \<Longrightarrow> v' = v"
  shows "lookup (range_put put f es m) (f a) = Some v"
proof -
  let ?r = "rev (map (\<lambda>(a, v). (f a, v)) es)"
  have "(f a, v) \<in> set ?r"
    using assms(2) by force
  then obtain v' where v': "map_of ?r (f a) = Some v'"
    by (meson weak_map_of_SomeI)
  then have "(f a, v') \<in> set ?r"
    by (rule map_of_SomeD)
  then have "v' = v"
    using assms(3) by auto
  with v' assms(1) show ?thesis
    by (simp add: lookup_range_put)
qed

text \<open>Every value found came from the source map, under a key with the same image.\<close>

lemma lookup_range_put_Some:
  assumes "wf m" and "lookup (range_put put f es m) k = Some v"
  shows "(\<exists>a. (a, v) \<in> set es \<and> f a = k) \<or> lookup m k = Some v"
  using assms by (auto simp: lookup_range_put split: option.splits dest!: map_of_SomeD)

lemma entries_range_put:
  assumes "wf m" and "(k, v) \<in> set (entries (range_put put f es m))"
  shows "(\<exists>a. (a, v) \<in> set es \<and> f a = k) \<or> (k, v) \<in> set (entries m)"
  using assms lookup_range_put_Some [OF assms(1)] by (simp add: entries_lookup wf_range_put)

end

interpretation gm: go_map "[]" glookup gput gdelete id gwf
  by unfold_locales
    (auto simp: update_conv' delete_conv' distinct_update distinct_delete map_of_eq_Some_iff)

lemmas gm_lookup [go_map_simps] = gm.lookup_put gm.lookup_del

lemma gwf_range_put [go_wf]: "gwf m \<Longrightarrow> gwf (range_put gput f es m)"
  by (rule gm.wf_range_put)

lemma gwf_gput [go_wf]: "gwf m \<Longrightarrow> gwf (gput k v m)"
  by (rule gm.wf_put)

lemma gwf_gdelete [go_wf]: "gwf m \<Longrightarrow> gwf (gdelete k m)"
  by (rule gm.wf_del)

lemma gwf_filter [go_wf]: "gwf m \<Longrightarrow> gwf (filter P m)"
  by (induction m) auto

lemma in_gput_iff:
  "gwf m \<Longrightarrow> (k', v') \<in> set (gput k v m) \<longleftrightarrow> (if k' = k then v' = v else (k', v') \<in> set m)"
  using gm.entries_lookup [of "gput k v m" k' v'] gm.entries_lookup [of m k' v']
  by (auto simp: gm.wf_put gm.lookup_put)

text \<open>Copying a map under keys that the key function leaves alone keeps every entry.\<close>

lemma range_put_ident:
  assumes wf: "gwf es" and fix_keys: "\<And>k v. (k, v) \<in> set es \<Longrightarrow> f k = k"
  shows "glookup (range_put gput f es []) k = glookup es k"
proof -
  have ids: "map (\<lambda>(a, v). (f a, v)) es = es"
    by (rule map_idI) (auto dest: fix_keys)
  have "map_of (rev es) k = map_of es k"
    using wf map_of_inject_set [of "rev es" es] by (simp add: rev_map [symmetric])
  then show ?thesis
    using gm.lookup_range_put [of "[]" f es k] by (simp add: ids split: option.splits)
qed

subsection \<open>Normalised keys\<close>

text \<open>
  Three packages of the router keep maps keyed by MAC address, each with its own function
  \<open>normalizeMAC\<close>. What their clients rely on is that normalising twice changes nothing, so that
  copying a map that is already normalised (\<open>config.cloneStringMap\<close>, then \<open>SetMacPXEBootFiles\<close>)
  keeps every entry.
\<close>

locale key_normalizer =
  fixes norm :: "'k \<Rightarrow> 'k"
  assumes norm_idem: "norm (norm k) = norm k"
begin

lemma normalized_keys:
  "(k, v) \<in> set (range_put gput norm es []) \<Longrightarrow> norm k = k"
  using gm.entries_range_put [of "[]" k v norm es] by (auto simp: norm_idem)

lemma range_put_normalized:
  "glookup (range_put gput norm (range_put gput norm es []) []) k =
   glookup (range_put gput norm es []) k"
  by (rule range_put_ident) (auto simp: gwf_range_put dest: normalized_keys)

lemma lookup_normalized:
  assumes "(k, v) \<in> set es" and "\<And>k' v'. (k', v') \<in> set es \<Longrightarrow> norm k' = norm k \<Longrightarrow> v' = v"
  shows "glookup (range_put gput norm es []) (norm k) = Some v"
  by (rule gm.lookup_range_put_unique) (simp, rule assms(1), rule assms(2))

end

text \<open>The body the three functions share.\<close>

lemma mac_normal_form_idem:
  "ToLower (TrimSpace (ReplaceAll CHR ''-'' CHR '':''
     (ToLower (TrimSpace (ReplaceAll CHR ''-'' CHR '':'' s))))) =
   ToLower (TrimSpace (ReplaceAll CHR ''-'' CHR '':'' s))"
proof -
  have dash: "lower_char c = CHR ''-'' \<longleftrightarrow> c = CHR ''-''" for c
  proof -
    have "code_of (lower_char c) = code_of CHR ''-'' \<longleftrightarrow> code_of c = code_of CHR ''-''"
      by (simp add: lower_char_def)
    then show ?thesis by (simp only: of_char_eq_iff)
  qed
  have "CHR ''-'' \<notin> set (TrimSpace (ReplaceAll CHR ''-'' CHR '':'' s))"
    using set_TrimSpace ReplaceAll_not_in [of "CHR ''-''" "CHR '':''" s] by auto
  then have "CHR ''-'' \<notin> set (ToLower (TrimSpace (ReplaceAll CHR ''-'' CHR '':'' s)))"
    by (auto simp: ToLower_def dash dest!: sym [of "CHR ''-''"])
  then show ?thesis
    by (simp add: ReplaceAll_absent TrimSpace_ToLower)
qed

end
