(* ===== verification/Go_Net.thy ===== *)
theory Go_Net
  imports Go_Prelude
begin

unbundle bit_operations_syntax

section \<open>The parts of package net that the router uses\<close>

text \<open>
  Addresses, address parsing and subnets as in Go's standard library: \<open>net.IP\<close>, \<open>net.IPMask\<close>,
  \<open>net.IPNet\<close>, \<open>net.ParseIP\<close>, \<open>net.ParseCIDR\<close>, \<open>net.ParseMAC\<close> and the printing functions. An
  address is the byte slice Go has: 4 or 16 bytes, and \<open>[]\<close> for nil. The lemmas relate IPv4
  addresses to numbers (\<open>ip_val\<close>), so that byte-wise code can be compared with arithmetic.
\<close>

type_synonym ip = bytes
type_synonym ipmask = bytes

record ipnet =
  IPNet_IP :: ip
  IPNet_Mask :: ipmask

definition v4InV6Prefix :: bytes where
  "v4InV6Prefix = [0, 0, 0, 0, 0, 0, 0, 0, 0, 0, 255, 255]"

definition To4 :: "ip \<Rightarrow> ip" where
  "To4 a = (if length a = 4 then a
     else if length a = 16 \<and> take 12 a = v4InV6Prefix then drop 12 a else [])"

definition IP_Equal :: "ip \<Rightarrow> ip \<Rightarrow> bool" where
  "IP_Equal a b =
     (if length a = length b then a = b
      else if length a = 4 \<and> length b = 16 then take 12 b = v4InV6Prefix \<and> a = drop 12 b
      else if length a = 16 \<and> length b = 4 then take 12 a = v4InV6Prefix \<and> drop 12 a = b
      else False)"

definition IP_Mask :: "ip \<Rightarrow> ipmask \<Rightarrow> ip" where
  "IP_Mask a m0 =
     (let m = (if length m0 = 16 \<and> length a = 4 \<and> take 12 m0 = replicate 12 255
               then drop 12 m0 else m0);
          b = (if length m = 4 \<and> length a = 16 \<and> take 12 a = v4InV6Prefix then drop 12 a else a)
      in if length b \<noteq> length m then [] else map2 (AND) b m)"

definition networkNumberAndMask :: "ipnet \<Rightarrow> ip \<times> ipmask" where
  "networkNumberAndMask n =
     (let a4 = To4 (IPNet_IP n); a = (if a4 = [] then IPNet_IP n else a4); m = IPNet_Mask n
      in if a4 = [] \<and> length a \<noteq> 16 then ([], [])
         else if length m = 4 then (if length a \<noteq> 4 then ([], []) else (a, m))
         else if length m = 16 then (a, if length a = 4 then drop 12 m else m)
         else ([], []))"

definition IPNet_Contains :: "ipnet \<Rightarrow> ip \<Rightarrow> bool" where
  "IPNet_Contains n i =
     (let (nn, m) = networkNumberAndMask n; x = (if To4 i \<noteq> [] then To4 i else i)
      in length x = length nn \<and> map2 (AND) nn m = map2 (AND) x m)"

text \<open>\<open>net.CIDRMask(ones, bits)\<close> for \<open>bits = 8 * n\<close>.\<close>

fun cidr_bytes :: "nat \<Rightarrow> nat \<Rightarrow> ipmask" where
  "cidr_bytes ones 0 = []"
| "cidr_bytes ones (Suc n) =
     (if 8 \<le> ones then 255 # cidr_bytes (ones - 8) n
      else NOT (mask (8 - ones)) # cidr_bytes 0 n)"

subsection \<open>ParseIP and ParseCIDR\<close>

text \<open>
  \<open>netip.parseIPv4Fields\<close>: the value and the number of digits of the current octet, the octets
  already read and whether the previous byte was a dot.
\<close>

fun ipv4_fields :: "string \<Rightarrow> nat \<Rightarrow> nat \<Rightarrow> bytes \<Rightarrow> bytes option" where
  "ipv4_fields [] val digLen acc =
     (if length acc < 3 then None else Some (acc @ [word_of_nat val]))"
| "ipv4_fields (c # cs) val digLen acc =
     (if is_digit c then
        (if digLen = 1 \<and> val = 0 then None
         else let v = 10 * val + (code_of c - 48)
              in if 255 < v then None else ipv4_fields cs v (Suc digLen) acc)
      else if c = CHR ''.'' then
        (if digLen = 0 \<or> cs = [] then None
         else if length acc = 3 then None
         else ipv4_fields cs 0 0 (acc @ [word_of_nat val]))
      else None)"

definition parseIPv4Fields :: "string \<Rightarrow> bytes option" where
  "parseIPv4Fields s = ipv4_fields s 0 0 []"

definition hex_val :: "char \<Rightarrow> nat option" where
  "hex_val c = (let n = code_of c in
     if 48 \<le> n \<and> n \<le> 57 then Some (n - 48)
     else if 97 \<le> n \<and> n \<le> 102 then Some (n - 87)
     else if 65 \<le> n \<and> n \<le> 70 then Some (n - 55) else None)"

text \<open>
  One group of hexadecimal digits: at most four digits, the accumulated value, the digits read
  and what is left. More than four digits are an error.
\<close>

fun hex_group :: "string \<Rightarrow> nat \<Rightarrow> nat \<Rightarrow> (nat \<times> nat \<times> string) option" where
  "hex_group [] acc off = Some (acc, off, [])"
| "hex_group (c # cs) acc off =
     (case hex_val c of None \<Rightarrow> Some (acc, off, c # cs)
      | Some d \<Rightarrow> if off > 3 then None else hex_group cs (16 * acc + d) (Suc off))"

text \<open>
  The loop of \<open>netip.parseIPv6\<close> over what is left of the string, the bytes already stored and
  the position of the ellipsis. Each round stores at least two bytes, so eight rounds are
  enough; the first argument counts the rounds that are left (the loop condition \<open>i < 16\<close>).
\<close>

fun ipv6_loop :: "nat \<Rightarrow> string \<Rightarrow> bytes \<Rightarrow> nat option \<Rightarrow> (string \<times> bytes \<times> nat option) option" where
  "ipv6_loop 0 s acc ell = Some (s, acc, ell)"
| "ipv6_loop (Suc r) s acc ell =
     (case hex_group s 0 0 of None \<Rightarrow> None
      | Some (v, off, rest) \<Rightarrow>
        if off = 0 then None
        else if rest \<noteq> [] \<and> hd rest = CHR ''.'' then
          (if ell = None \<and> length acc \<noteq> 12 then None
           else if length acc + 4 > 16 then None
           else (case parseIPv4Fields s of None \<Rightarrow> None
                 | Some f \<Rightarrow> Some ([], acc @ f, ell)))
        else
          (let acc' = acc @ [word_of_nat (v div 256), word_of_nat v] in
           if rest = [] then Some ([], acc', ell)
           else if hd rest \<noteq> CHR '':'' then None
           else if tl rest = [] then None
           else let s1 = tl rest in
             if hd s1 = CHR '':'' then
               (if ell \<noteq> None then None
                else if tl s1 = [] then Some ([], acc', Some (length acc'))
                else ipv6_loop r (tl s1) acc' (Some (length acc')))
             else ipv6_loop r s1 acc' ell))"

definition expand_ellipsis :: "string \<times> bytes \<times> nat option \<Rightarrow> bytes option" where
  "expand_ellipsis x = (case x of (s, acc, ell) \<Rightarrow>
     if s \<noteq> [] then None
     else if length acc < 16 then
       (case ell of None \<Rightarrow> None
        | Some e \<Rightarrow> Some (take e acc @ replicate (16 - length acc) 0 @ drop e acc))
     else if ell \<noteq> None then None else Some acc)"

definition parseIPv6 :: "string \<Rightarrow> bytes option" where
  "parseIPv6 s =
     (if take 2 s = ''::'' then
        (if drop 2 s = [] then Some (replicate 16 0)
         else Option.bind (ipv6_loop 8 (drop 2 s) [] (Some 0)) expand_ellipsis)
      else Option.bind (ipv6_loop 8 s [] None) expand_ellipsis)"

text \<open>
  \<open>netip.ParseAddr\<close>, for callers that reject a zone: the address bytes (4 for IPv4, 16 for
  IPv6), or \<open>None\<close> for an error or an address with a zone.
\<close>

definition ParseAddr :: "string \<Rightarrow> bytes option" where
  "ParseAddr s =
     (case dropWhile (\<lambda>c. c \<notin> {CHR ''.'', CHR '':'', CHR ''%''}) s of
        [] \<Rightarrow> None
      | c # _ \<Rightarrow>
        if c = CHR ''.'' then parseIPv4Fields s
        else if c = CHR '':'' then (if CHR ''%'' \<in> set s then None else parseIPv6 s)
        else None)"

definition As16 :: "bytes \<Rightarrow> bytes" where
  "As16 a = (if length a = 4 then v4InV6Prefix @ a else a)"

text \<open>\<open>net.ParseIP\<close>: 16 bytes, or nil.\<close>

definition ParseIP :: "string \<Rightarrow> ip" where
  "ParseIP s = (case ParseAddr s of None \<Rightarrow> [] | Some a \<Rightarrow> As16 a)"

text \<open>\<open>net.ParseCIDR\<close>: the address and its network, \<open>None\<close> for the error.\<close>

definition ParseCIDR :: "string \<Rightarrow> (ip \<times> ipnet) option" where
  "ParseCIDR s =
     (case Cut CHR ''/'' s of (addr, m, found) \<Rightarrow>
        if \<not> found then None
        else (case ParseAddr addr of None \<Rightarrow> None
          | Some a \<Rightarrow>
            if m = [] \<or> \<not> (\<forall>c \<in> set m. is_digit c) \<or> 8 * length a < digits_val m then None
            else let k = cidr_bytes (digits_val m) (length a)
                 in Some (As16 a, \<lparr>IPNet_IP = IP_Mask (As16 a) k, IPNet_Mask = k\<rparr>)))"

subsection \<open>Printing\<close>

text \<open>\<open>IP.String()\<close> for IPv4 addresses, the only ones the router prints into data.\<close>

definition IPv4_String :: "ip \<Rightarrow> string" where
  "IPv4_String a = (if length a = 0 then ''<nil>''
     else Join (map (\<lambda>b. nat_str (unat b)) a) ''.'')"

definition hex_digit :: "nat \<Rightarrow> char" where
  "hex_digit n = (if n < 10 then char_of (48 + n) else char_of (87 + n))"

definition hex_byte :: "byte \<Rightarrow> string" where
  "hex_byte b = [hex_digit (unat b div 16), hex_digit (unat b mod 16)]"

text \<open>\<open>HardwareAddr.String()\<close>.\<close>

definition HardwareAddr_String :: "bytes \<Rightarrow> string" where
  "HardwareAddr_String a = Join (map hex_byte a) '':''"

subsection \<open>Addresses as numbers\<close>

definition ip_val :: "ip \<Rightarrow> nat" where
  "ip_val a = foldl (\<lambda>v b. 256 * v + unat b) 0 a"

lemma ip_val_Nil [simp]: "ip_val [] = 0"
  by (simp add: ip_val_def)

lemma ip_val_snoc [simp]: "ip_val (a @ [b]) = 256 * ip_val a + unat b"
  by (simp add: ip_val_def)

lemma ip_val_lt: "ip_val a < 256 ^ length a"
proof (induction a rule: rev_induct)
  case Nil
  then show ?case by simp
next
  case (snoc b a)
  have "unat b < 256" by (rule unat_byte_lt)
  with snoc have "256 * ip_val a + unat b < 256 * 256 ^ length a" by linarith
  then show ?case by simp
qed

lemma ip_val_lt4: "length a = 4 \<Longrightarrow> ip_val a < 2 ^ 32"
  using ip_val_lt [of a] by simp

lemma unat_byte_inj: "unat (a :: byte) = unat b \<longleftrightarrow> a = b"
  by (simp add: word_unat_eq_iff)

lemma base_256_inj:
  fixes m n x y :: nat
  assumes "x < 256" and "y < 256"
  shows "256 * m + x = 256 * n + y \<longleftrightarrow> m = n \<and> x = y"
proof
  assume "256 * m + x = 256 * n + y"
  then have "(256 * m + x) div 256 = (256 * n + y) div 256"
    and "(256 * m + x) mod 256 = (256 * n + y) mod 256"
    by simp_all
  with assms show "m = n \<and> x = y"
    by (simp add: div_add1_eq mod_add_eq)
qed simp

lemma base_256_less:
  fixes m n x y :: nat
  assumes "x < 256" and "y < 256"
  shows "256 * m + x < 256 * n + y \<longleftrightarrow> m < n \<or> m = n \<and> x < y"
proof (cases m n rule: linorder_cases)
  case less
  then have "256 * m + 256 \<le> 256 * n" by simp
  with less assms show ?thesis by simp
next
  case greater
  then have "256 * n + 256 \<le> 256 * m" by simp
  with greater assms show ?thesis by simp
qed simp

lemma ip_val_inj: "length a = length b \<Longrightarrow> ip_val a = ip_val b \<longleftrightarrow> a = b"
proof (induction a arbitrary: b rule: rev_induct)
  case Nil
  then show ?case by simp
next
  case (snoc x a)
  from snoc.prems obtain b' y where b: "b = b' @ [y]"
    by (cases b rule: rev_cases) auto
  have "256 * ip_val a + unat x = 256 * ip_val b' + unat y \<longleftrightarrow>
      ip_val a = ip_val b' \<and> unat x = unat y"
    by (rule base_256_inj) (rule unat_byte_lt)+
  with snoc b show ?case by (simp add: unat_byte_inj)
qed

lemma length_4_cases:
  assumes "length a = 4"
  obtains w x y z where "a = [w, x, y, z]"
  using assms by (auto simp: length_Suc_conv numeral_eq_Suc)

lemma ip_val_4:
  "ip_val [w, x, y, z] = 256 * (256 * (256 * unat w + unat x) + unat y) + unat z"
  by (simp add: ip_val_def)

lemma To4_id [simp]: "length a = 4 \<Longrightarrow> To4 a = a"
  by (simp add: To4_def)

lemma length_To4: "To4 a \<noteq> [] \<Longrightarrow> length (To4 a) = 4"
  by (auto simp: To4_def split: if_splits)

lemma To4_Nil [simp]: "To4 [] = []"
  by (simp add: To4_def)

lemma To4_As16 [simp]: "length a = 4 \<Longrightarrow> To4 (As16 a) = a"
  by (simp add: To4_def As16_def v4InV6Prefix_def)

lemma IP_Equal_same_length [simp]: "length a = length b \<Longrightarrow> IP_Equal a b = (a = b)"
  by (simp add: IP_Equal_def)

lemma IPNet_Contains_v4:
  assumes "length n = 4" and "length m = 4" and "length a = 4"
  shows "IPNet_Contains \<lparr>IPNet_IP = n, IPNet_Mask = m\<rparr> a \<longleftrightarrow> map2 (AND) n m = map2 (AND) a m"
  using assms by (auto simp: IPNet_Contains_def networkNumberAndMask_def Let_def)

subsection \<open>Printing and parsing IPv4 addresses\<close>

lemma ipv4_fields_nat_str:
  "n \<le> 255 \<Longrightarrow> ipv4_fields (nat_str n @ cs) 0 0 acc = ipv4_fields cs n (length (nat_str n)) acc"
proof (induction n arbitrary: cs rule: nat_str.induct)
  case (1 n)
  show ?case
  proof (cases "n < 10")
    case True
    then show ?thesis
      by (simp add: nat_str.simps [of n] code_of_digit_char)
  next
    case False
    have d: "n mod 10 < 10" by simp
    have "ipv4_fields (nat_str (n div 10) @ (digit_char (n mod 10) # cs)) 0 0 acc =
        ipv4_fields (digit_char (n mod 10) # cs) (n div 10) (length (nat_str (n div 10))) acc"
      using 1 False by simp
    also have "\<dots> = ipv4_fields cs n (Suc (length (nat_str (n div 10)))) acc"
      using False "1.prems" d by (auto simp: code_of_digit_char Let_def)
    finally show ?thesis
      using False by (simp add: nat_str.simps [of n])
  qed
qed

lemma ipv4_fields_nat_str_dot:
  assumes "n \<le> 255" and "length acc < 3" and "cs \<noteq> []"
  shows "ipv4_fields (nat_str n @ CHR ''.'' # cs) 0 0 acc =
    ipv4_fields cs 0 0 (acc @ [word_of_nat n])"
  using assms by (simp add: ipv4_fields_nat_str)

lemma unat_le_255: "unat (b :: byte) \<le> 255"
  using unat_byte_lt [of b] by linarith

lemma parseIPv4Fields_String:
  assumes "length a = 4"
  shows "parseIPv4Fields (IPv4_String a) = Some a"
proof -
  obtain w x y z where a: "a = [w, x, y, z]"
    using assms by (rule length_4_cases)
  show ?thesis
    using ipv4_fields_nat_str [of "unat z" "[]"]
    by (simp add: a parseIPv4Fields_def IPv4_String_def ipv4_fields_nat_str_dot unat_le_255)
qed

lemma dropWhile_nat_str_dot:
  "\<not> P CHR ''.'' \<Longrightarrow> (\<And>c. is_digit c \<Longrightarrow> P c) \<Longrightarrow>
    dropWhile P (nat_str n @ CHR ''.'' # cs) = CHR ''.'' # cs"
  by (subst dropWhile_append2) (auto dest: nat_str_digits)

lemma ParseAddr_IPv4_String:
  assumes "length a = 4"
  shows "ParseAddr (IPv4_String a) = Some a"
proof -
  obtain w x y z where a: "a = [w, x, y, z]"
    using assms by (rule length_4_cases)
  have "\<And>c. is_digit c \<Longrightarrow> c \<notin> {CHR ''.'', CHR '':'', CHR ''%''}"
    by (auto simp: is_digit_def)
  then have "dropWhile (\<lambda>c. c \<notin> {CHR ''.'', CHR '':'', CHR ''%''}) (IPv4_String a) =
      CHR ''.'' # nat_str (unat x) @ CHR ''.'' # nat_str (unat y) @ CHR ''.'' # nat_str (unat z)"
    by (simp add: a IPv4_String_def dropWhile_nat_str_dot)
  then show ?thesis
    using assms by (simp add: ParseAddr_def parseIPv4Fields_String)
qed

text \<open>Printing an IPv4 address and parsing it again gives the address back.\<close>

lemma To4_ParseIP_String [simp]: "length a = 4 \<Longrightarrow> To4 (ParseIP (IPv4_String a)) = a"
  by (simp add: ParseIP_def ParseAddr_IPv4_String)

end
