(* ===== verification/DHCP.thy ===== *)
theory DHCP
  imports Go_Net
begin

section \<open>The DHCP server (pkg/dhcp)\<close>

text \<open>
  The server of \<open>pkg/dhcp/dhcp.go\<close>: its state, construction, reservations, PXE settings, the
  address allocation with its scan over the pool, the request handler, the boot-file selection
  and the lease reaper.

  A critical section under \<open>s.mu\<close> is one step on the state; \<open>time.Now()\<close> is the argument \<open>now\<close>
  of the step. Callbacks started with \<open>go\<close> are returned as a list of events. The library
  \<open>github.com/insomniacslk/dhcp\<close> builds and serialises replies: it is a parameter of the handler,
  and requests and reply modifiers are the data the handler passes to it.
\<close>

subsection \<open>State\<close>

record lease =
  lease_IP :: ip
  lease_Expires :: instant

record server =
  srv_iface :: string
  srv_serverIP :: ip
  srv_mask :: ipmask
  srv_rangeStart :: ip
  srv_rangeEnd :: ip
  srv_dns :: "ip list"
  srv_lease :: duration
  srv_router :: ip
  srv_leases :: "(string, lease) gomap"
  srv_nextIP :: ip
  srv_reservations :: "(string, ip) gomap"
  srv_pxeBootServer :: ip
  srv_pxeBootFile :: string
  srv_macPXEBootFiles :: "(string, string) gomap"
  srv_ipxeBootFile :: string
  srv_uefiBootFile :: string
  srv_legacyBootFile :: string
  srv_onLease :: bool
  srv_onLeaseExpired :: bool

datatype dhcp_error = ParseServerAddr | InvalidDNS string | InvalidRange

datatype lease_event = LeaseCallback ip string | LeaseExpiredCallback ip string

subsection \<open>Addresses\<close>

definition dupIP :: "ip \<Rightarrow> ip" where
  "dupIP a = a"

text \<open>The loop of \<open>incIP\<close> from index \<open>i\<close> down to 0.\<close>

fun incIP_from :: "ip \<Rightarrow> nat \<Rightarrow> ip" where
  "incIP_from a 0 = a[0 := a ! 0 + 1]"
| "incIP_from a (Suc i) =
     (let a' = a[Suc i := a ! Suc i + 1] in if a' ! Suc i \<noteq> 0 then a' else incIP_from a' i)"

definition incIP :: "ip \<Rightarrow> ip" where
  "incIP a = (let n = dupIP a in if n = [] then n else incIP_from n (length n - 1))"

text \<open>The loop of \<open>ipGreater\<close> from index \<open>i\<close> with \<open>r\<close> rounds left.\<close>

fun ipGreater_from :: "ip \<Rightarrow> ip \<Rightarrow> nat \<Rightarrow> nat \<Rightarrow> bool option" where
  "ipGreater_from a b i 0 = Some False"
| "ipGreater_from a b i (Suc r) =
     (if i < length a \<and> i < length b then
        (if a ! i > b ! i then Some True
         else if a ! i < b ! i then Some False
         else ipGreater_from a b (Suc i) r)
      else None)"

definition ipGreater :: "ip \<Rightarrow> ip \<Rightarrow> bool option" where
  "ipGreater a b = ipGreater_from (To4 a) (To4 b) 0 4"

definition dhcp_normalizeMAC :: "string \<Rightarrow> string" where
  "dhcp_normalizeMAC mac = ToLower (TrimSpace (ReplaceAll CHR ''-'' CHR '':'' mac))"

subsection \<open>Construction and settings\<close>

fun parse_dns :: "string list \<Rightarrow> dhcp_error + ip list" where
  "parse_dns [] = Inr []"
| "parse_dns (d # ds) =
     (if ParseIP d = [] then Inl (InvalidDNS d)
      else case parse_dns ds of Inl e \<Rightarrow> Inl e | Inr r \<Rightarrow> Inr (To4 (ParseIP d) # r))"

definition dhcp_New ::
  "string \<Rightarrow> string \<Rightarrow> string \<Rightarrow> string \<Rightarrow> string list \<Rightarrow> duration \<Rightarrow> dhcp_error + server" where
  "dhcp_New ifc serverAddr start end0 dnsNames leaseDur =
     (case ParseCIDR serverAddr of
        None \<Rightarrow> Inl ParseServerAddr
      | Some (sIP, sNet) \<Rightarrow>
        (case parse_dns dnsNames of
           Inl e \<Rightarrow> Inl e
         | Inr parsedDNS \<Rightarrow>
           (let rs = To4 (ParseIP start); re = To4 (ParseIP end0) in
            if rs = [] \<or> re = [] then Inl InvalidRange
            else Inr \<lparr>srv_iface = ifc, srv_serverIP = To4 sIP, srv_mask = IPNet_Mask sNet,
              srv_rangeStart = rs, srv_rangeEnd = re, srv_dns = parsedDNS, srv_lease = leaseDur,
              srv_router = To4 sIP, srv_leases = [], srv_nextIP = dupIP rs,
              srv_reservations = [], srv_pxeBootServer = [], srv_pxeBootFile = [],
              srv_macPXEBootFiles = [], srv_ipxeBootFile = [], srv_uefiBootFile = [],
              srv_legacyBootFile = [], srv_onLease = False, srv_onLeaseExpired = False\<rparr>)))"

definition OnLease :: "server \<Rightarrow> server" where
  "OnLease s = s\<lparr>srv_onLease := True\<rparr>"

definition OnLeaseExpired :: "server \<Rightarrow> server" where
  "OnLeaseExpired s = s\<lparr>srv_onLeaseExpired := True\<rparr>"

text \<open>
  \<open>SetReservations\<close>: the loop body skips an entry whose address does not parse as IPv4 or lies
  outside the server's subnet.
\<close>

definition server_subnet :: "server \<Rightarrow> ipnet" where
  "server_subnet s =
     \<lparr>IPNet_IP = IP_Mask (srv_serverIP s) (srv_mask s), IPNet_Mask = srv_mask s\<rparr>"

fun set_reservations_loop ::
  "ipnet \<Rightarrow> (string \<times> string) list \<Rightarrow> (string, ip) gomap \<Rightarrow> (string, ip) gomap" where
  "set_reservations_loop subnet [] m = m"
| "set_reservations_loop subnet ((mac, a) # rest) m =
     (let parsed = To4 (ParseIP a) in
      if parsed = [] then set_reservations_loop subnet rest m
      else if \<not> IPNet_Contains subnet parsed then set_reservations_loop subnet rest m
      else set_reservations_loop subnet rest (gput (dhcp_normalizeMAC mac) parsed m))"

definition SetReservations :: "(string, string) gomap \<Rightarrow> server \<Rightarrow> server" where
  "SetReservations res s =
     s\<lparr>srv_reservations := set_reservations_loop (server_subnet s) res []\<rparr>"

definition SetPXEOptions :: "string \<Rightarrow> string \<Rightarrow> server \<Rightarrow> server" where
  "SetPXEOptions bootServer bootFile s =
     s\<lparr>srv_pxeBootServer := (if bootServer \<noteq> [] then To4 (ParseIP bootServer) else []),
       srv_pxeBootFile := bootFile\<rparr>"

definition SetMacPXEBootFiles :: "(string, string) gomap \<Rightarrow> server \<Rightarrow> server" where
  "SetMacPXEBootFiles m s = s\<lparr>srv_macPXEBootFiles := range_put gput dhcp_normalizeMAC m []\<rparr>"

definition SetIPXEBootFile :: "string \<Rightarrow> server \<Rightarrow> server" where
  "SetIPXEBootFile file s = s\<lparr>srv_ipxeBootFile := file\<rparr>"

definition SetUEFIBootFile :: "string \<Rightarrow> server \<Rightarrow> server" where
  "SetUEFIBootFile file s = s\<lparr>srv_uefiBootFile := file\<rparr>"

definition SetLegacyBootFile :: "string \<Rightarrow> server \<Rightarrow> server" where
  "SetLegacyBootFile file s = s\<lparr>srv_legacyBootFile := file\<rparr>"

subsection \<open>Allocation\<close>

definition isLeasedOrReserved :: "server \<Rightarrow> instant \<Rightarrow> ip \<Rightarrow> bool" where
  "isLeasedOrReserved s now a =
     ((\<exists>(mac, r) \<in> set (srv_reservations s). IP_Equal r a) \<or>
      (\<exists>(mac, l) \<in> set (srv_leases s). IP_Equal (lease_IP l) a \<and> now < lease_Expires l))"

definition clearLeasesForIP :: "ip \<Rightarrow> server \<Rightarrow> server" where
  "clearLeasesForIP a s =
     s\<lparr>srv_leases := filter (\<lambda>(mac, l). \<not> IP_Equal (lease_IP l) a) (srv_leases s)\<rparr>"

text \<open>
  The \<open>for\<close> loop of \<open>allocate\<close>. The result \<open>Some a\<close> is the address at which the loop breaks,
  and \<open>Some []\<close> the return of nil after a full cycle; \<open>None\<close> is a loop that does not end or a
  panic in \<open>ipGreater\<close>.
\<close>

partial_function (option) allocate_scan :: "server \<Rightarrow> instant \<Rightarrow> ip \<Rightarrow> ip \<Rightarrow> ip option" where
  "allocate_scan s now start a =
     (if \<not> isLeasedOrReserved s now a then Some a
      else Option.bind (ipGreater (incIP a) (srv_rangeEnd s)) (\<lambda>g.
        (if IP_Equal (if g then dupIP (srv_rangeStart s) else incIP a) start then Some []
         else allocate_scan s now start (if g then dupIP (srv_rangeStart s) else incIP a))))"

definition put_lease :: "string \<Rightarrow> ip \<Rightarrow> instant \<Rightarrow> server \<Rightarrow> server" where
  "put_lease mac a now s =
     s\<lparr>srv_leases :=
       gput mac \<lparr>lease_IP = dupIP a, lease_Expires = now + srv_lease s\<rparr> (srv_leases s)\<rparr>"

definition lease_callback :: "server \<Rightarrow> ip \<Rightarrow> string \<Rightarrow> lease_event list" where
  "lease_callback s a mac = (if srv_onLease s then [LeaseCallback (dupIP a) mac] else [])"

definition allocate_dynamic ::
  "server \<Rightarrow> instant \<Rightarrow> string \<Rightarrow> (server \<times> ip \<times> lease_event list) option" where
  "allocate_dynamic s now mac =
     Option.bind (allocate_scan s now (dupIP (srv_nextIP s)) (dupIP (srv_nextIP s))) (\<lambda>a.
       if a = [] then Some (s, [], [])
       else Option.bind (ipGreater (incIP a) (srv_rangeEnd s)) (\<lambda>g.
         Some ((put_lease mac a now s)
                 \<lparr>srv_nextIP := (if g then dupIP (srv_rangeStart s) else incIP a)\<rparr>,
               a, lease_callback s a mac)))"

definition allocate ::
  "server \<Rightarrow> instant \<Rightarrow> string \<Rightarrow> (server \<times> ip \<times> lease_event list) option" where
  "allocate s now mac =
     (case glookup (srv_reservations s) (dhcp_normalizeMAC mac) of
        Some reserved \<Rightarrow>
          Some (put_lease mac reserved now (clearLeasesForIP reserved s), reserved,
                lease_callback s reserved mac)
      | None \<Rightarrow>
        (case glookup (srv_leases s) mac of
           Some l \<Rightarrow>
             if now < lease_Expires l then Some (s, lease_IP l, [])
             else allocate_dynamic s now mac
         | None \<Rightarrow> allocate_dynamic s now mac))"

subsection \<open>The lease reaper\<close>

definition reap_interval :: "server \<Rightarrow> duration" where
  "reap_interval s =
     (let interval = go_div (srv_lease s) 4
      in if interval < 30 * Second then 30 * Second else interval)"

text \<open>One round of \<open>reapExpiredLeases\<close>: the new state and the callbacks fired.\<close>

definition reapExpiredLeases :: "instant \<Rightarrow> server \<Rightarrow> server \<times> lease_event list" where
  "reapExpiredLeases now s =
     (let expired = filter (\<lambda>(mac, l). lease_Expires l < now) (srv_leases s)
      in (s\<lparr>srv_leases := fold (\<lambda>mac. gdelete mac) (map fst expired) (srv_leases s)\<rparr>,
          if srv_onLeaseExpired s
          then map (\<lambda>(mac, l). LeaseExpiredCallback (dupIP (lease_IP l)) mac) expired else []))"

subsection \<open>The request handler\<close>

datatype message_type =
    MessageTypeDiscover | MessageTypeOffer | MessageTypeRequest | MessageTypeAck
  | MessageTypeOther byte

datatype opcode = OpcodeBootRequest | OpcodeOther byte

datatype option_code = OptionUserClassInformation | OptionClientSystemArchitectureType

text \<open>What the handler reads of a \<open>*dhcpv4.DHCPv4\<close>.\<close>

record dhcp_request =
  req_OpCode :: opcode
  req_ClientHWAddr :: bytes
  req_MessageType :: message_type
  req_Options_Get :: "option_code \<Rightarrow> bytes"

datatype dhcp_option =
    OptSubnetMask ipmask | OptRouter ip | OptDNS "ip list" | OptIPAddressLeaseTime duration
  | OptServerIdentifier ip | OptTFTPServerName string | OptBootFileName string

text \<open>
  The modifiers passed to \<open>dhcpv4.NewReplyFromRequest\<close>; \<open>ModifierFunc\<close> is the closure made by
  \<open>replyOptions\<close>, represented by the options it updates in order.
\<close>

datatype modifier =
    WithMessageType message_type | WithServerIP ip | WithYourIP ip | WithOption dhcp_option
  | ModifierFunc "dhcp_option list"

datatype net_addr = UDPAddr ip nat | OtherAddr string

definition IPv4zero :: ip where
  "IPv4zero = v4InV6Prefix @ [0, 0, 0, 0]"

definition IPv4bcast :: ip where
  "IPv4bcast = v4InV6Prefix @ [255, 255, 255, 255]"

definition isIPXEClient :: "dhcp_request \<Rightarrow> bool" where
  "isIPXEClient req =
     (let uc = string_of_bytes (req_Options_Get req OptionUserClassInformation)
      in 0 < length uc \<and> Contains (ToLower uc) ''ipxe'')"

definition isUEFIClient :: "dhcp_request \<Rightarrow> bool" where
  "isUEFIClient req =
     (let archBytes = req_Options_Get req OptionClientSystemArchitectureType in
      if length archBytes < 2 then False
      else (case BigEndian_Uint16 archBytes of None \<Rightarrow> False | Some v \<Rightarrow> v = 7 \<or> v = 9))"

text \<open>The boot file that the \<open>switch\<close> of \<open>replyOptions\<close> selects.\<close>

definition select_boot_file :: "server \<Rightarrow> string \<Rightarrow> dhcp_request \<Rightarrow> string" where
  "select_boot_file s mac req =
     (if srv_ipxeBootFile s \<noteq> [] \<and> isIPXEClient req then srv_ipxeBootFile s
      else (case glookup (srv_macPXEBootFiles s) (dhcp_normalizeMAC mac) of
              Some macFile \<Rightarrow> macFile
            | None \<Rightarrow>
              if srv_uefiBootFile s \<noteq> [] \<and> isUEFIClient req then srv_uefiBootFile s
              else if srv_legacyBootFile s \<noteq> [] then srv_legacyBootFile s
              else srv_pxeBootFile s))"

definition replyOptions :: "server \<Rightarrow> string \<Rightarrow> dhcp_request \<Rightarrow> dhcp_option list" where
  "replyOptions s mac req =
     (let bootFile = select_boot_file s mac req in
      (if srv_pxeBootServer s \<noteq> []
       then [OptTFTPServerName (IPv4_String (srv_pxeBootServer s))] else []) @
      (if bootFile \<noteq> [] then [OptBootFileName bootFile] else []))"

definition reply_modifiers ::
  "server \<Rightarrow> message_type \<Rightarrow> ip \<Rightarrow> dhcp_option list \<Rightarrow> modifier list" where
  "reply_modifiers s t a opts =
     [WithMessageType t, WithServerIP (srv_serverIP s), WithYourIP a,
      WithOption (OptSubnetMask (srv_mask s)), WithOption (OptRouter (srv_router s)),
      WithOption (OptDNS (srv_dns s)), WithOption (OptIPAddressLeaseTime (srv_lease s)),
      WithOption (OptServerIdentifier (srv_serverIP s)), ModifierFunc opts]"

definition reply_dst :: "net_addr \<Rightarrow> net_addr" where
  "reply_dst peer =
     (case peer of
        UDPAddr a port \<Rightarrow>
          if a = [] \<or> IP_Equal (To4 a) IPv4zero then UDPAddr IPv4bcast 68 else peer
      | OtherAddr x \<Rightarrow> peer)"

text \<open>
  The handler, over the library functions \<open>newReply\<close> (\<open>NewReplyFromRequest\<close>) and \<open>toBytes\<close>. The
  result holds the new state, the datagram written (if any) and the lease callbacks.
\<close>

definition handler ::
  "(dhcp_request \<Rightarrow> modifier list \<Rightarrow> 'e + 'r) \<Rightarrow> ('r \<Rightarrow> bytes) \<Rightarrow>
   server \<Rightarrow> instant \<Rightarrow> net_addr \<Rightarrow> dhcp_request \<Rightarrow>
   (server \<times> (bytes \<times> net_addr) option \<times> lease_event list) option" where
  "handler newReply toBytes s now peer req =
     (if req_OpCode req \<noteq> OpcodeBootRequest then Some (s, None, [])
      else
        (let mac = HardwareAddr_String (req_ClientHWAddr req);
             reply = (\<lambda>t. Option.bind (allocate s now mac) (\<lambda>(s', a, evs).
               if a = [] then Some (s', None, evs)
               else (case newReply req (reply_modifiers s' t a (replyOptions s' mac req)) of
                       Inl e \<Rightarrow> Some (s', None, evs)
                     | Inr resp \<Rightarrow> Some (s', Some (toBytes resp, reply_dst peer), evs))))
         in case req_MessageType req of
              MessageTypeDiscover \<Rightarrow> reply MessageTypeOffer
            | MessageTypeRequest \<Rightarrow> reply MessageTypeAck
            | _ \<Rightarrow> Some (s, None, [])))"

subsection \<open>Reservations as a filtered copy\<close>

interpretation dhcp_mac: key_normalizer dhcp_normalizeMAC
  by unfold_locales (simp only: dhcp_normalizeMAC_def mac_normal_form_idem)

text \<open>The entries that \<open>SetReservations\<close> accepts for a subnet.\<close>

definition usable_reservations :: "ipnet \<Rightarrow> (string \<times> string) list \<Rightarrow> (string \<times> ip) list" where
  "usable_reservations subnet res =
     [(mac, To4 (ParseIP a)). (mac, a) \<leftarrow> res,
        To4 (ParseIP a) \<noteq> [] \<and> IPNet_Contains subnet (To4 (ParseIP a))]"

lemma set_reservations_loop_range_put:
  "set_reservations_loop subnet res m =
     range_put gput dhcp_normalizeMAC (usable_reservations subnet res) m"
proof (induction subnet res m rule: set_reservations_loop.induct)
  case (2 subnet mac a rest m)
  then show ?case
    by (cases "To4 (ParseIP a) = []"; cases "IPNet_Contains subnet (To4 (ParseIP a))")
       (simp_all add: usable_reservations_def range_put_def Let_def)
qed (simp add: usable_reservations_def range_put_def)

lemma in_usable_reservations:
  "(mac, r) \<in> set (usable_reservations subnet res) \<longleftrightarrow>
     (\<exists>a. (mac, a) \<in> set res \<and> r = To4 (ParseIP a) \<and> length r = 4 \<and> IPNet_Contains subnet r)"
  by (auto simp: usable_reservations_def length_To4) force

lemma in_SetReservations:
  assumes "(k, r) \<in> set (srv_reservations (SetReservations res s))"
  shows "\<exists>mac a. (mac, a) \<in> set res \<and> k = dhcp_normalizeMAC mac \<and> r = To4 (ParseIP a) \<and>
    length r = 4 \<and> IPNet_Contains (server_subnet s) r"
  using assms gm.entries_range_put [of "[]" k r dhcp_normalizeMAC]
  by (fastforce simp: SetReservations_def set_reservations_loop_range_put in_usable_reservations)

subsection \<open>Arithmetic of the address functions\<close>

lemma dupIP_id [simp]: "dupIP a = a"
  by (simp add: dupIP_def)


lemma byte_max: "(b :: byte) + 1 = 0 \<longleftrightarrow> b = 255"
proof -
  have "b + 1 = 0 \<longleftrightarrow> (unat b + 1) mod 256 = 0"
    by (simp add: unat_eq_zero [symmetric] unat_word_ariths)
  also have "\<dots> \<longleftrightarrow> unat b = unat (255 :: byte)"
    using unat_byte_lt [of b] by (auto simp: mod_Suc)
  finally show ?thesis by (simp only: unat_byte_inj)
qed

lemma unat_byte_inc: "(b :: byte) \<noteq> 255 \<Longrightarrow> unat (b + 1) = unat b + 1"
  using unat_byte_lt [of b] byte_max [of b]
  by (auto simp: unat_word_ariths mod_Suc simp flip: unat_eq_zero)

lemma length_incIP_from [simp]: "length (incIP_from a i) = length a"
  by (induction i arbitrary: a) (simp_all add: Let_def)

lemma length_incIP [simp]: "length (incIP a) = length a"
  by (simp add: incIP_def)

lemma incIP_4:
  "incIP [w, x, y, z] =
     (if z + 1 \<noteq> 0 then [w, x, y, z + 1] else if y + 1 \<noteq> 0 then [w, x, y + 1, 0]
      else if x + 1 \<noteq> 0 then [w, x + 1, 0, 0] else [w + 1, 0, 0, 0])"
  by (simp add: incIP_def numeral_eq_Suc Let_def)

lemma ip_val_incIP:
  assumes "length a = 4"
  shows "ip_val (incIP a) = (ip_val a + 1) mod 2 ^ 32"
proof -
  obtain w x y z where a: "a = [w, x, y, z]"
    using assms by (rule length_4_cases)
  have inc: "ip_val (incIP a) = (if a = [255, 255, 255, 255] then 0 else ip_val a + 1)"
    unfolding a incIP_4
    by (auto simp: byte_max unat_byte_inc ip_val_4)
  have "ip_val a = ip_val [255, 255, 255, 255] \<longleftrightarrow> a = [255, 255, 255, 255]"
    using assms by (intro ip_val_inj) simp
  then have "ip_val a + 1 = 2 ^ 32 \<longleftrightarrow> a = [255, 255, 255, 255]"
    by (simp add: ip_val_4)
  with inc show ?thesis
    using ip_val_lt4 [OF assms] by auto
qed

lemma ipGreater_ip_val:
  assumes "length a = 4" and "length b = 4"
  shows "ipGreater a b = Some (ip_val b < ip_val a)"
proof -
  obtain w x y z where a: "a = [w, x, y, z]"
    using assms(1) by (rule length_4_cases)
  obtain w' x' y' z' where b: "b = [w', x', y', z']"
    using assms(2) by (rule length_4_cases)
  have lex: "ip_val b < ip_val a \<longleftrightarrow>
      w' < w \<or> w' = w \<and> (x' < x \<or> x' = x \<and> (y' < y \<or> y' = y \<and> z' < z))"
    by (simp only: a b ip_val_4 base_256_less base_256_inj unat_byte_lt unat_byte_inj
        word_less_nat_alt) blast
  show ?thesis
    unfolding lex by (auto simp: a b ipGreater_def numeral_eq_Suc)
qed


subsection \<open>Well-formed servers and the address pool\<close>

definition srv_wf :: "server \<Rightarrow> bool" where
  "srv_wf s \<longleftrightarrow>
     length (srv_rangeStart s) = 4 \<and> length (srv_rangeEnd s) = 4 \<and> length (srv_nextIP s) = 4 \<and>
     gwf (srv_leases s) \<and> gwf (srv_reservations s) \<and>
     (\<forall>(mac, l) \<in> set (srv_leases s). length (lease_IP l) = 4) \<and>
     (\<forall>(mac, r) \<in> set (srv_reservations s). length r = 4)"

text \<open>
  The pool is \<open>[rangeStart, rangeEnd]\<close>, as numbers. \<open>pool_ok\<close> is the condition on the
  configuration under which the scan stays inside it: a non-empty range that does not end at
  255.255.255.255, and a scan position inside the range.
\<close>

definition in_pool :: "server \<Rightarrow> ip \<Rightarrow> bool" where
  "in_pool s a \<longleftrightarrow> length a = 4 \<and>
     ip_val (srv_rangeStart s) \<le> ip_val a \<and> ip_val a \<le> ip_val (srv_rangeEnd s)"

definition pool_ok :: "server \<Rightarrow> bool" where
  "pool_ok s \<longleftrightarrow> in_pool s (srv_nextIP s) \<and> ip_val (srv_rangeEnd s) + 1 < 2 ^ 32"

definition pool_next :: "server \<Rightarrow> ip \<Rightarrow> ip" where
  "pool_next s a = (if ip_val (srv_rangeEnd s) < ip_val a + 1 then srv_rangeStart s else incIP a)"

lemma srv_wf_lengths:
  assumes "srv_wf s"
  shows "length (srv_rangeStart s) = 4" "length (srv_rangeEnd s) = 4" "length (srv_nextIP s) = 4"
    "gwf (srv_leases s)" "gwf (srv_reservations s)"
  using assms by (simp_all add: srv_wf_def)

lemma pool_next_step:
  assumes "srv_wf s" and "pool_ok s" and "in_pool s a"
  shows "ipGreater (incIP a) (srv_rangeEnd s) = Some (ip_val (srv_rangeEnd s) < ip_val a + 1)"
    and "ip_val (pool_next s a) =
      (if ip_val (srv_rangeEnd s) < ip_val a + 1 then ip_val (srv_rangeStart s) else ip_val a + 1)"
    and "in_pool s (pool_next s a)"
proof -
  have v: "ip_val (incIP a) = ip_val a + 1"
    using assms by (simp add: ip_val_incIP in_pool_def pool_ok_def)
  show "ipGreater (incIP a) (srv_rangeEnd s) = Some (ip_val (srv_rangeEnd s) < ip_val a + 1)"
    using assms v by (simp add: ipGreater_ip_val in_pool_def srv_wf_lengths)
  show n: "ip_val (pool_next s a) =
      (if ip_val (srv_rangeEnd s) < ip_val a + 1 then ip_val (srv_rangeStart s) else ip_val a + 1)"
    by (simp add: pool_next_def v)
  have "length (pool_next s a) = 4"
    using assms by (simp add: pool_next_def in_pool_def srv_wf_lengths)
  with n assms show "in_pool s (pool_next s a)"
    by (auto simp: in_pool_def pool_ok_def split: if_splits)
qed

text \<open>One round of the scan, in terms of \<open>pool_next\<close>.\<close>

lemma allocate_scan_unfold:
  assumes "srv_wf s" and "pool_ok s" and "in_pool s a" and "in_pool s start"
  shows "allocate_scan s now start a =
     (if \<not> isLeasedOrReserved s now a then Some a
      else if pool_next s a = start then Some []
      else allocate_scan s now start (pool_next s a))"
proof -
  have "length (pool_next s a) = length start"
    using pool_next_step(3) [OF assms(1-3)] assms(4) by (simp add: in_pool_def)
  then have eq: "IP_Equal (pool_next s a) start \<longleftrightarrow> pool_next s a = start"
    by (rule IP_Equal_same_length)
  have nx: "(if ip_val (srv_rangeEnd s) < ip_val a + 1 then dupIP (srv_rangeStart s) else incIP a) =
      pool_next s a"
    by (simp add: pool_next_def)
  show ?thesis
    by (subst allocate_scan.simps)
       (simp only: pool_next_step(1) [OF assms(1-3)] Option.bind.simps nx eq)
qed

text \<open>The values the scan still has to visit from \<open>v\<close> before it is back at \<open>st\<close>.\<close>

definition scan_rest :: "server \<Rightarrow> nat \<Rightarrow> nat \<Rightarrow> nat set" where
  "scan_rest s st v =
     (if v < st then {v..<st} else {v..ip_val (srv_rangeEnd s)} \<union> {ip_val (srv_rangeStart s)..<st})"

definition scan_dist :: "server \<Rightarrow> nat \<Rightarrow> nat \<Rightarrow> nat" where
  "scan_dist s st v =
     (if v < st then st - v
      else ip_val (srv_rangeEnd s) + 1 - v + (st - ip_val (srv_rangeStart s)))"

lemma allocate_scan_correct:
  assumes "srv_wf s" and "pool_ok s" and "in_pool s start" and "in_pool s a"
  shows "\<exists>r. allocate_scan s now start a = Some r \<and>
    (if r = [] then \<forall>x. length x = 4 \<and> ip_val x \<in> scan_rest s (ip_val start) (ip_val a) \<longrightarrow>
                         isLeasedOrReserved s now x
     else in_pool s r \<and> \<not> isLeasedOrReserved s now r)"
  using assms(4)
proof (induction "scan_dist s (ip_val start) (ip_val a)" arbitrary: a rule: less_induct)
  case less
  note unf = allocate_scan_unfold [OF assms(1,2) less.prems assms(3), of now]
  note nv = pool_next_step(2) [OF assms(1,2) less.prems]
  have ranges: "ip_val (srv_rangeStart s) \<le> ip_val a" "ip_val a \<le> ip_val (srv_rangeEnd s)"
    "ip_val (srv_rangeStart s) \<le> ip_val start" "ip_val start \<le> ip_val (srv_rangeEnd s)"
    using less.prems assms(3) by (simp_all add: in_pool_def)
  have same: "\<And>x. length x = 4 \<Longrightarrow> ip_val x = ip_val a \<Longrightarrow> x = a"
    using less.prems by (auto simp: in_pool_def ip_val_inj)
  show ?case
  proof (cases "isLeasedOrReserved s now a")
    case False
    have "a \<noteq> []" using less.prems by (auto simp: in_pool_def)
    with False less.prems show ?thesis by (simp add: unf)
  next
    case taken: True
    show ?thesis
    proof (cases "pool_next s a = start")
      case True
      with nv ranges have "scan_rest s (ip_val start) (ip_val a) = {ip_val a}"
        by (auto simp: scan_rest_def split: if_splits)
      with True taken same show ?thesis by (auto simp: unf)
    next
      case False
      have in_n: "in_pool s (pool_next s a)"
        by (rule pool_next_step(3) [OF assms(1,2) less.prems])
      have ne: "ip_val (pool_next s a) \<noteq> ip_val start"
        using False in_n assms(3) by (simp add: in_pool_def ip_val_inj)
      have dist: "scan_dist s (ip_val start) (ip_val (pool_next s a)) <
          scan_dist s (ip_val start) (ip_val a)"
        using nv ne ranges by (auto simp: scan_dist_def split: if_splits)
      have rest: "scan_rest s (ip_val start) (ip_val a) =
          insert (ip_val a) (scan_rest s (ip_val start) (ip_val (pool_next s a)))"
        using nv ne ranges by (auto simp: scan_rest_def split: if_splits)
      from less.hyps [OF dist in_n] show ?thesis
        using taken False same by (auto simp: unf rest split: if_splits)
    qed
  qed
qed

end
