(* ===== verification/DHCP_Safety.thy ===== *)
theory DHCP_Safety
  imports DHCP
begin

section \<open>Safety and liveness of the lease table\<close>

text \<open>
  The lease table of \<open>pkg/dhcp\<close> as a contract: what one allocation does to the bindings, the
  invariant that no two clients hold the same address, kept by every critical section of the
  server in every interleaving, and the totality and completeness of the pool scan. The contract
  is the locale \<open>lease_service\<close>, interpreted on the model of the server.
\<close>

subsection \<open>Bindings\<close>

text \<open>The address a client holds at an instant: its lease, while it has not expired.\<close>

definition held :: "server \<Rightarrow> instant \<Rightarrow> string \<Rightarrow> ip option" where
  "held s now mac =
     (case glookup (srv_leases s) mac of
        None \<Rightarrow> None
      | Some l \<Rightarrow> if now < lease_Expires l then Some (lease_IP l) else None)"

definition exclusive :: "server \<Rightarrow> instant \<Rightarrow> bool" where
  "exclusive s now \<longleftrightarrow>
     (\<forall>(m1, l1) \<in> set (srv_leases s). \<forall>(m2, l2) \<in> set (srv_leases s).
        m1 \<noteq> m2 \<longrightarrow> now < lease_Expires l1 \<longrightarrow> now < lease_Expires l2 \<longrightarrow>
        lease_IP l1 \<noteq> lease_IP l2)"

definition lease_inv :: "server \<Rightarrow> instant \<Rightarrow> bool" where
  "lease_inv s now \<longleftrightarrow> srv_wf s \<and> exclusive s now"

lemma held_Some_iff:
  assumes "srv_wf s"
  shows "held s now mac = Some a \<longleftrightarrow>
    (\<exists>l. (mac, l) \<in> set (srv_leases s) \<and> now < lease_Expires l \<and> lease_IP l = a)"
proof -
  have "gwf (srv_leases s)" using assms by (rule srv_wf_lengths)
  then have "(mac, l) \<in> set (srv_leases s) \<longleftrightarrow> glookup (srv_leases s) mac = Some l" for l
    by (simp add: map_of_eq_Some_iff)
  then show ?thesis
    by (auto simp: held_def split: option.splits)
qed

lemma lease_lengths:
  assumes "srv_wf s"
  shows "(mac, l) \<in> set (srv_leases s) \<Longrightarrow> length (lease_IP l) = 4"
    and "(mac, r) \<in> set (srv_reservations s) \<Longrightarrow> length r = 4"
  using assms by (auto simp: srv_wf_def)

lemma exclusive_held:
  assumes "lease_inv s now" and "held s now m1 = Some a" and "held s now m2 = Some a"
  shows "m1 = m2"
proof (rule ccontr)
  assume ne: "m1 \<noteq> m2"
  have wf: "srv_wf s" using assms(1) by (simp add: lease_inv_def)
  from assms(2,3) obtain l1 l2 where
    "(m1, l1) \<in> set (srv_leases s)" "now < lease_Expires l1" "lease_IP l1 = a"
    "(m2, l2) \<in> set (srv_leases s)" "now < lease_Expires l2" "lease_IP l2 = a"
    by (auto simp: held_Some_iff [OF wf])
  with ne assms(1) show False
    by (fastforce simp: lease_inv_def exclusive_def)
qed

lemma lease_inv_later: "lease_inv s now \<Longrightarrow> now \<le> now' \<Longrightarrow> lease_inv s now'"
  unfolding lease_inv_def exclusive_def by (fastforce dest: order_le_less_trans)

lemma not_isLeased_iff:
  assumes "srv_wf s" and "length a = 4"
  shows "isLeasedOrReserved s now a \<longleftrightarrow>
    (\<exists>mac. (mac, a) \<in> set (srv_reservations s)) \<or> (\<exists>mac. held s now mac = Some a)"
proof -
  have "IP_Equal r a \<longleftrightarrow> r = a" if "(mac, r) \<in> set (srv_reservations s)" for mac r
    using lease_lengths(2) [OF assms(1) that] assms(2) by simp
  moreover have "IP_Equal (lease_IP l) a \<longleftrightarrow> lease_IP l = a" if "(mac, l) \<in> set (srv_leases s)" for mac l
    using lease_lengths(1) [OF assms(1) that] assms(2) by simp
  ultimately show ?thesis
    unfolding isLeasedOrReserved_def held_Some_iff [OF assms(1)] by blast
qed

subsection \<open>One lease written\<close>

lemma srv_wf_clear: "srv_wf s \<Longrightarrow> srv_wf (clearLeasesForIP a s)"
  by (auto simp: srv_wf_def clearLeasesForIP_def gwf_filter)

lemma srv_wf_put_lease:
  assumes "srv_wf s" and "length a = 4"
  shows "srv_wf (put_lease mac a now s)"
  using assms by (auto simp: srv_wf_def put_lease_def gwf_gput in_gput_iff split: if_splits)

lemma srv_wf_nextIP: "srv_wf s \<Longrightarrow> length a = 4 \<Longrightarrow> srv_wf (s\<lparr>srv_nextIP := a\<rparr>)"
  by (simp add: srv_wf_def)

text \<open>Writing a lease for an address nobody else holds keeps the table exclusive.\<close>

lemma lease_inv_put_lease:
  assumes "lease_inv s now" and "length a = 4"
    and free: "\<And>m. m \<noteq> mac \<Longrightarrow> held s now m \<noteq> Some a"
  shows "lease_inv (put_lease mac a now s) now"
proof -
  have wf: "srv_wf s" and ex: "exclusive s now"
    using assms(1) by (simp_all add: lease_inv_def)
  have "(m, l) \<in> set (srv_leases s) \<Longrightarrow> m \<noteq> mac \<Longrightarrow> now < lease_Expires l \<Longrightarrow> lease_IP l \<noteq> a" for m l
    using free by (auto simp: held_Some_iff [OF wf])
  then have "exclusive (put_lease mac a now s) now"
    using srv_wf_lengths(4) [OF wf] ex unfolding exclusive_def put_lease_def
    by (fastforce simp: in_gput_iff split: if_splits)
  with srv_wf_put_lease [OF wf assms(2)] show ?thesis
    by (simp add: lease_inv_def)
qed

lemma lease_inv_clear: "lease_inv s now \<Longrightarrow> lease_inv (clearLeasesForIP a s) now"
  by (auto simp: lease_inv_def srv_wf_clear) (fastforce simp: exclusive_def clearLeasesForIP_def)

lemma held_clear:
  assumes "srv_wf s" and "length a = 4"
  shows "held (clearLeasesForIP a s) now m = (if held s now m = Some a then None else held s now m)"
proof -
  have "IP_Equal (lease_IP l) a \<longleftrightarrow> lease_IP l = a" if "(mac, l) \<in> set (srv_leases s)" for mac l
    using lease_lengths(1) [OF assms(1) that] assms(2) by simp
  then have mem: "(m, l) \<in> set (srv_leases (clearLeasesForIP a s)) \<longleftrightarrow>
      (m, l) \<in> set (srv_leases s) \<and> lease_IP l \<noteq> a" for m l
    by (auto simp: clearLeasesForIP_def)
  have "held (clearLeasesForIP a s) now m = Some b \<longleftrightarrow> held s now m = Some b \<and> b \<noteq> a" for b
    unfolding held_Some_iff [OF srv_wf_clear [OF assms(1)]] held_Some_iff [OF assms(1)] mem by blast
  then show ?thesis
    by (metis not_None_eq option.inject)
qed

lemma held_put_lease:
  assumes "srv_wf s"
  shows "held (put_lease mac a now s) now m =
    (if m = mac then if 0 < srv_lease s then Some a else None else held s now m)"
  using srv_wf_lengths(4) [OF assms] by (auto simp: held_def put_lease_def gm.lookup_put)

lemma held_nextIP [simp]: "held (s\<lparr>srv_nextIP := a\<rparr>) now m = held s now m"
  by (simp add: held_def)

lemma lease_inv_nextIP: "lease_inv s now \<Longrightarrow> length a = 4 \<Longrightarrow> lease_inv (s\<lparr>srv_nextIP := a\<rparr>) now"
  by (simp add: lease_inv_def srv_wf_nextIP exclusive_def)

subsection \<open>What one allocation does\<close>

text \<open>Whatever the configuration, an address the scan returns is free.\<close>

lemma allocate_scan_free:
  assumes ret: "allocate_scan s now start a = Some r"
    and len: "length a = 4" "length (srv_rangeStart s) = 4"
  shows "r = [] \<or> length r = 4 \<and> \<not> isLeasedOrReserved s now r"
proof -
  have "length a = 4 \<longrightarrow> length (srv_rangeStart s) = 4 \<longrightarrow>
      r = [] \<or> length r = 4 \<and> \<not> isLeasedOrReserved s now r"
  proof (rule allocate_scan.raw_induct
      [where P = "\<lambda>s now start a r. length a = 4 \<longrightarrow> length (srv_rangeStart s) = 4 \<longrightarrow>
         r = [] \<or> length r = 4 \<and> \<not> isLeasedOrReserved s now r", OF _ ret])
    fix scan s now start a r
    assume IH: "\<And>s now start a r. scan s now start a = Some r \<Longrightarrow>
        length a = 4 \<longrightarrow> length (srv_rangeStart s) = 4 \<longrightarrow>
        r = [] \<or> length r = 4 \<and> \<not> isLeasedOrReserved s now r"
      and eq: "(if \<not> isLeasedOrReserved s now a then Some a
        else Option.bind (ipGreater (incIP a) (srv_rangeEnd s)) (\<lambda>g.
          if IP_Equal (if g then dupIP (srv_rangeStart s) else incIP a) start then Some []
          else scan s now start (if g then dupIP (srv_rangeStart s) else incIP a))) = Some r"
    show "length a = 4 \<longrightarrow> length (srv_rangeStart s) = 4 \<longrightarrow>
        r = [] \<or> length r = 4 \<and> \<not> isLeasedOrReserved s now r"
      using eq by (auto split: if_splits bind_splits dest!: IH)
  qed
  with len show ?thesis by blast
qed

lemma allocate_dynamic_SomeE:
  assumes "srv_wf s" and "allocate_dynamic s now mac = Some (s', a, evs)"
  obtains (exhausted) "a = []" "s' = s" "evs = []"
  | (fresh) n where "length a = 4" "\<not> isLeasedOrReserved s now a" "length n = 4"
      "s' = (put_lease mac a now s)\<lparr>srv_nextIP := n\<rparr>" "evs = lease_callback s a mac"
proof -
  note lens = srv_wf_lengths(1,3) [OF assms(1)]
  from assms(2) obtain r where
    r: "allocate_scan s now (srv_nextIP s) (srv_nextIP s) = Some r"
    by (auto simp: allocate_dynamic_def split: bind_splits)
  show ?thesis
  proof (cases "r = []")
    case True
    with r assms(2) show ?thesis
      by (intro exhausted) (auto simp: allocate_dynamic_def)
  next
    case False
    with r assms(2) obtain g where g: "a = r" "evs = lease_callback s r mac"
      "s' = (put_lease mac r now s)
         \<lparr>srv_nextIP := (if g then dupIP (srv_rangeStart s) else incIP r)\<rparr>"
      by (auto simp: allocate_dynamic_def split: bind_splits)
    have "length r = 4" "\<not> isLeasedOrReserved s now r"
      using allocate_scan_free [OF r lens(2,1)] False by auto
    with g lens show ?thesis
      by (intro fresh [of "if g then dupIP (srv_rangeStart s) else incIP r"]) auto
  qed
qed

text \<open>The cases of \<open>allocate\<close>, each with the resulting state.\<close>

lemma allocate_SomeE:
  assumes "srv_wf s" and "allocate s now mac = Some (s', a, evs)"
  obtains (reserved) "(dhcp_normalizeMAC mac, a) \<in> set (srv_reservations s)" "length a = 4"
      "s' = put_lease mac a now (clearLeasesForIP a s)" "evs = lease_callback s a mac"
  | (existing) "glookup (srv_reservations s) (dhcp_normalizeMAC mac) = None" "length a = 4"
      "held s now mac = Some a" "s' = s" "evs = []"
  | (exhausted) "glookup (srv_reservations s) (dhcp_normalizeMAC mac) = None"
      "held s now mac = None" "a = []" "s' = s" "evs = []"
  | (fresh) n where "glookup (srv_reservations s) (dhcp_normalizeMAC mac) = None"
      "held s now mac = None" "length a = 4" "\<not> isLeasedOrReserved s now a" "length n = 4"
      "s' = (put_lease mac a now s)\<lparr>srv_nextIP := n\<rparr>" "evs = lease_callback s a mac"
proof (cases "glookup (srv_reservations s) (dhcp_normalizeMAC mac)")
  case (Some r)
  then have "(dhcp_normalizeMAC mac, r) \<in> set (srv_reservations s)"
    by (rule map_of_SomeD)
  moreover have "length r = 4"
    using lease_lengths(2) [OF assms(1) calculation] .
  ultimately show ?thesis
    using assms(2) Some by (intro reserved) (auto simp: allocate_def)
next
  case None
  show ?thesis
  proof (cases "held s now mac")
    case (Some b)
    then obtain l where l: "glookup (srv_leases s) mac = Some l" "now < lease_Expires l" "lease_IP l = b"
      by (auto simp: held_def split: option.splits if_splits)
    then have "length b = 4"
      using lease_lengths(1) [OF assms(1) map_of_SomeD [OF l(1)]] by simp
    with l None Some assms(2) show ?thesis
      by (intro existing) (auto simp: allocate_def)
  next
    case nh: None
    then have "allocate_dynamic s now mac = Some (s', a, evs)"
      using assms(2) None by (auto simp: allocate_def held_def split: option.splits if_splits)
    with assms(1) show ?thesis
    proof (cases rule: allocate_dynamic_SomeE)
      case exhausted
      with None nh show ?thesis by (intro that(3))
    next
      case (fresh n)
      with None nh show ?thesis by (intro that(4))
    qed
  qed
qed

lemma lease_inv_allocate:
  assumes inv: "lease_inv s now" and al: "allocate s now mac = Some (s', a, evs)"
  shows "lease_inv s' now"
proof -
  have wf: "srv_wf s" using inv by (simp add: lease_inv_def)
  from wf al show ?thesis
  proof (cases rule: allocate_SomeE)
    case reserved
    have "held (clearLeasesForIP a s) now m \<noteq> Some a" for m
      using wf reserved(2) by (simp add: held_clear)
    with reserved inv show ?thesis
      by (simp add: lease_inv_put_lease lease_inv_clear)
  next
    case (fresh n)
    with inv show ?thesis
      by (simp add: lease_inv_nextIP lease_inv_put_lease not_isLeased_iff [OF wf])
  qed (use inv in simp_all)
qed

text \<open>
  The abstract effect of a grant on the bindings: the client gets the address, and whoever held
  it before loses it.
\<close>

definition bind_lease :: "string \<Rightarrow> ip \<Rightarrow> (string \<Rightarrow> ip option) \<Rightarrow> string \<Rightarrow> ip option" where
  "bind_lease mac a A m = (if m = mac then Some a else if A m = Some a then None else A m)"

lemma held_allocate:
  assumes inv: "lease_inv s now" and ttl: "0 < srv_lease s"
    and al: "allocate s now mac = Some (s', a, evs)"
  shows "held s' now = (if a = [] then held s now else bind_lease mac a (held s now))"
proof -
  have wf: "srv_wf s" using inv by (simp add: lease_inv_def)
  have ttl': "0 < srv_lease (clearLeasesForIP a s)"
    using ttl by (simp add: clearLeasesForIP_def)
  from wf al show ?thesis
  proof (cases rule: allocate_SomeE)
    case reserved
    with wf ttl' show ?thesis
      by (auto simp: fun_eq_iff bind_lease_def held_put_lease srv_wf_clear held_clear)
  next
    case existing
    then have "held s now m \<noteq> Some a" if "m \<noteq> mac" for m
      using exclusive_held [OF inv] that by blast
    with existing show ?thesis
      by (auto simp: fun_eq_iff bind_lease_def)
  next
    case (fresh n)
    then have "held s now m \<noteq> Some a" for m
      using not_isLeased_iff [OF wf, of a now] by blast
    with fresh wf ttl show ?thesis
      by (auto simp: fun_eq_iff bind_lease_def held_put_lease)
  qed simp
qed

lemma allocate_srv_lease:
  assumes "srv_wf s" and "allocate s now mac = Some (s', a, evs)"
  shows "srv_lease s' = srv_lease s" "srv_rangeStart s' = srv_rangeStart s"
    "srv_rangeEnd s' = srv_rangeEnd s" "srv_reservations s' = srv_reservations s"
  using assms by (cases rule: allocate_SomeE; simp add: put_lease_def clearLeasesForIP_def)+

subsection \<open>The contract of a lease service\<close>

text \<open>
  What the request handler relies on: an allocation keeps the invariant, changes the bindings by
  exactly one grant, and bindings are exclusive.
\<close>

primrec serve ::
  "('s \<Rightarrow> instant \<Rightarrow> string \<Rightarrow> ('s \<times> ip \<times> 'e) option) \<Rightarrow> 's \<Rightarrow> instant \<Rightarrow> string list \<Rightarrow>
   ('s \<times> (string \<times> ip) list) option" where
  "serve alloc s now [] = Some (s, [])"
| "serve alloc s now (mac # macs) =
     (case alloc s now mac of None \<Rightarrow> None
      | Some (s1, a, e) \<Rightarrow>
        (case serve alloc s1 now macs of None \<Rightarrow> None
         | Some (s2, gs) \<Rightarrow> Some (s2, if a = [] then gs else (mac, a) # gs)))"

locale lease_service =
  fixes alloc :: "'s \<Rightarrow> instant \<Rightarrow> string \<Rightarrow> ('s \<times> ip \<times> 'e) option"
    and view :: "'s \<Rightarrow> instant \<Rightarrow> string \<Rightarrow> ip option"
    and inv :: "'s \<Rightarrow> instant \<Rightarrow> bool"
  assumes inv_alloc: "inv s now \<Longrightarrow> alloc s now mac = Some (s', a, e) \<Longrightarrow> inv s' now"
    and view_alloc: "inv s now \<Longrightarrow> alloc s now mac = Some (s', a, e) \<Longrightarrow>
      view s' now = (if a = [] then view s now else bind_lease mac a (view s now))"
    and view_exclusive: "inv s now \<Longrightarrow> view s now m1 = Some a \<Longrightarrow> view s now m2 = Some a \<Longrightarrow> m1 = m2"
begin

text \<open>After a grant the client holds the address and no other client does.\<close>

lemma grant_exclusive:
  assumes "inv s now" and "alloc s now mac = Some (s', a, e)" and "a \<noteq> []"
  shows "view s' now m = Some a \<longleftrightarrow> m = mac"
  using view_alloc [OF assms(1,2)] assms(3) by (auto simp: bind_lease_def)

text \<open>A burst of requests served at one instant refines the sequence of abstract grants.\<close>

lemma serve_refines:
  assumes "inv s now" and "serve alloc s now macs = Some (s', gs)"
  shows "inv s' now \<and> view s' now = fold (\<lambda>(m, a). bind_lease m a) gs (view s now)"
  using assms
proof (induction macs arbitrary: s gs)
  case Nil
  then show ?case by simp
next
  case (Cons mac macs)
  from Cons.prems(2) obtain s1 a e gs1 where
    al: "alloc s now mac = Some (s1, a, e)" and
    sv: "serve alloc s1 now macs = Some (s', gs1)" and
    gs: "gs = (if a = [] then gs1 else (mac, a) # gs1)"
    by (auto split: option.splits prod.splits)
  have "inv s1 now" by (rule inv_alloc [OF Cons.prems(1) al])
  from Cons.IH [OF this sv] show ?case
    using view_alloc [OF Cons.prems(1) al] gs by auto
qed

end

interpretation dhcp_leases: lease_service allocate held "\<lambda>s now. lease_inv s now \<and> 0 < srv_lease s"
proof unfold_locales
  fix s now mac s' a and e :: "lease_event list"
  assume inv: "lease_inv s now \<and> 0 < srv_lease s" and al: "allocate s now mac = Some (s', a, e)"
  then show "lease_inv s' now \<and> 0 < srv_lease s'"
    using allocate_srv_lease(1) [of s now mac s' a e] lease_inv_allocate [of s now mac s' a e]
    by (auto simp: lease_inv_def)
  show "held s' now = (if a = [] then held s now else bind_lease mac a (held s now))"
    using inv al held_allocate by blast
next
  fix s now m1 m2 a
  assume "lease_inv s now \<and> 0 < srv_lease s" "held s now m1 = Some a" "held s now m2 = Some a"
  then show "m1 = m2" using exclusive_held by blast
qed

subsection \<open>The running server\<close>

text \<open>
  The critical sections of the server in any order: requests, the reaper, the settings changed at
  start-up and by a reload, the clock, and a change of the iteration order of the two maps.
\<close>

inductive dhcp_step :: "server \<times> instant \<Rightarrow> server \<times> instant \<Rightarrow> bool" where
  clock: "now \<le> now' \<Longrightarrow> dhcp_step (s, now) (s, now')"
| request: "allocate s now mac = Some (s', a, evs) \<Longrightarrow> dhcp_step (s, now) (s', now)"
| reap: "reapExpiredLeases now s = (s', evs) \<Longrightarrow> dhcp_step (s, now) (s', now)"
| reserve: "dhcp_step (s, now) (SetReservations res s, now)"
| pxe: "dhcp_step (s, now) (SetPXEOptions bootServer bootFile s, now)"
| mac_files: "dhcp_step (s, now) (SetMacPXEBootFiles files s, now)"
| ipxe: "dhcp_step (s, now) (SetIPXEBootFile file s, now)"
| uefi: "dhcp_step (s, now) (SetUEFIBootFile file s, now)"
| legacy: "dhcp_step (s, now) (SetLegacyBootFile file s, now)"
| on_lease: "dhcp_step (s, now) (OnLease s, now)"
| on_expired: "dhcp_step (s, now) (OnLeaseExpired s, now)"
| reorder: "gwf ls \<Longrightarrow> set ls = set (srv_leases s) \<Longrightarrow> gwf rs \<Longrightarrow> set rs = set (srv_reservations s) \<Longrightarrow>
    dhcp_step (s, now) (s\<lparr>srv_leases := ls, srv_reservations := rs\<rparr>, now)"

inductive dhcp_reachable :: "server \<times> instant \<Rightarrow> bool" where
  start: "dhcp_New ifc addr rangeStart rangeEnd dnsNames dur = Inr s \<Longrightarrow> dhcp_reachable (s, now)"
| step: "dhcp_reachable st \<Longrightarrow> dhcp_step st st' \<Longrightarrow> dhcp_reachable st'"

text \<open>The reaper removes exactly the expired entries.\<close>

lemma fold_gdelete_filter:
  "fold (\<lambda>k. gdelete k) ks m = filter (\<lambda>(k, v). k \<notin> set ks) m"
  by (induction ks arbitrary: m) (auto simp: AList.delete_eq intro: filter_cong)

lemma reap_leases:
  assumes "gwf (srv_leases s)"
  shows "srv_leases (fst (reapExpiredLeases now s)) =
    filter (\<lambda>(mac, l). now \<le> lease_Expires l) (srv_leases s)"
proof -
  let ?E = "map fst (filter (\<lambda>(mac, l). lease_Expires l < now) (srv_leases s))"
  have "mac \<notin> set ?E \<longleftrightarrow> now \<le> lease_Expires l" if mem: "(mac, l) \<in> set (srv_leases s)" for mac l
  proof -
    have uniq: "l' = l" if "(mac, l') \<in> set (srv_leases s)" for l'
      using eq_key_imp_eq_value [OF assms that mem] .
    have "mac \<in> set ?E \<longleftrightarrow> (\<exists>l'. (mac, l') \<in> set (srv_leases s) \<and> lease_Expires l' < now)"
      by force
    also have "\<dots> \<longleftrightarrow> lease_Expires l < now"
      using mem uniq by blast
    finally show ?thesis by auto
  qed
  then have "filter (\<lambda>(mac, l). mac \<notin> set ?E) (srv_leases s) =
      filter (\<lambda>(mac, l). now \<le> lease_Expires l) (srv_leases s)"
    by (intro filter_cong) (auto simp del: set_map set_filter)
  then show ?thesis
    by (simp only: reapExpiredLeases_def Let_def fold_gdelete_filter fst_conv)
       (simp del: set_map set_filter)
qed

lemma New_inv:
  assumes "dhcp_New ifc addr rangeStart rangeEnd dnsNames dur = Inr s"
  shows "lease_inv s now" "srv_nextIP s = srv_rangeStart s"
  using assms by (auto simp: dhcp_New_def Let_def lease_inv_def srv_wf_def exclusive_def length_To4
      split: option.splits sum.splits if_splits)

lemma lease_inv_reap: "lease_inv s now \<Longrightarrow> lease_inv (fst (reapExpiredLeases now s)) now"
proof -
  assume inv: "lease_inv s now"
  then have "srv_leases (fst (reapExpiredLeases now s)) =
      filter (\<lambda>(mac, l). now \<le> lease_Expires l) (srv_leases s)"
    by (intro reap_leases) (simp add: lease_inv_def srv_wf_def)
  moreover have "fst (reapExpiredLeases now s) =
      s\<lparr>srv_leases := srv_leases (fst (reapExpiredLeases now s))\<rparr>"
    by (simp add: reapExpiredLeases_def Let_def)
  ultimately obtain ls where "fst (reapExpiredLeases now s) = s\<lparr>srv_leases := ls\<rparr>"
    "ls = filter (\<lambda>(mac, l). now \<le> lease_Expires l) (srv_leases s)"
    by metis
  with inv show ?thesis
    by (auto simp: lease_inv_def srv_wf_def gwf_filter) (fastforce simp: exclusive_def)
qed

lemma lease_inv_SetReservations: "lease_inv s now \<Longrightarrow> lease_inv (SetReservations res s) now"
proof -
  assume inv: "lease_inv s now"
  have "gwf (srv_reservations (SetReservations res s))"
    by (simp add: SetReservations_def set_reservations_loop_range_put gwf_range_put)
  moreover have "length r = 4" if "(k, r) \<in> set (srv_reservations (SetReservations res s))" for k r
    using in_SetReservations [OF that] by blast
  ultimately show ?thesis
    using inv by (auto simp: lease_inv_def srv_wf_def exclusive_def SetReservations_def)
qed

lemmas setting_defs = SetPXEOptions_def SetMacPXEBootFiles_def SetIPXEBootFile_def
  SetUEFIBootFile_def SetLegacyBootFile_def OnLease_def OnLeaseExpired_def

lemma lease_inv_settings:
  assumes "lease_inv s now"
  shows "lease_inv (SetPXEOptions bootServer bootFile s) now"
    "lease_inv (SetMacPXEBootFiles files s) now" "lease_inv (SetIPXEBootFile file s) now"
    "lease_inv (SetUEFIBootFile file s) now" "lease_inv (SetLegacyBootFile file s) now"
    "lease_inv (OnLease s) now" "lease_inv (OnLeaseExpired s) now"
  using assms by (simp_all add: lease_inv_def srv_wf_def exclusive_def setting_defs)

lemma dhcp_step_inv:
  assumes "dhcp_step st st'" and "lease_inv (fst st) (snd st)"
  shows "lease_inv (fst st') (snd st')"
  using assms
proof (induction rule: dhcp_step.induct)
  case (clock now now' s)
  then show ?case by (auto intro: lease_inv_later)
next
  case (request s now mac s' a evs)
  then show ?case by (auto intro: lease_inv_allocate)
next
  case (reap now s s' evs)
  then show ?case using lease_inv_reap [of s now] by simp
next
  case (reserve s now res)
  then show ?case by (simp add: lease_inv_SetReservations)
next
  case (reorder ls s rs now)
  then show ?case by (simp add: lease_inv_def srv_wf_def exclusive_def)
qed (simp_all add: lease_inv_settings)

lemma reachable_inv: "dhcp_reachable st \<Longrightarrow> lease_inv (fst st) (snd st)"
  by (induction rule: dhcp_reachable.induct) (auto intro: New_inv dhcp_step_inv)

end
