(* ===== verification/DHCP_Props.thy ===== *)
theory DHCP_Props
  imports DHCP_Safety
begin

section \<open>Properties of the DHCP server\<close>

text \<open>
  The statements about \<open>pkg/dhcp\<close> that a user of the package relies on, over the server states
  reachable by any interleaving of its critical sections: exclusive bindings, totality and
  completeness of the allocation, static reservations, the reaper, and the reply the handler
  sends.
\<close>

subsection \<open>The pool in reachable states\<close>

text \<open>A range that is not inverted and does not end at 255.255.255.255.\<close>

definition range_ok :: "server \<Rightarrow> bool" where
  "range_ok s \<longleftrightarrow> ip_val (srv_rangeStart s) \<le> ip_val (srv_rangeEnd s) \<and>
     ip_val (srv_rangeEnd s) + 1 < 2 ^ 32"

lemma allocate_dynamic_total:
  assumes wf: "srv_wf s" and ok: "pool_ok s"
  obtains (exhausted) "allocate_dynamic s now mac = Some (s, [], [])"
      "\<And>x. in_pool s x \<Longrightarrow> isLeasedOrReserved s now x"
  | (fresh) a where "in_pool s a" "\<not> isLeasedOrReserved s now a"
      "allocate_dynamic s now mac =
         Some ((put_lease mac a now s)\<lparr>srv_nextIP := pool_next s a\<rparr>, a, lease_callback s a mac)"
proof -
  have inn: "in_pool s (srv_nextIP s)" using ok by (simp add: pool_ok_def)
  from allocate_scan_correct [OF wf ok inn inn, of now] obtain r where
    r: "allocate_scan s now (srv_nextIP s) (srv_nextIP s) = Some r" and
    r': "if r = [] then \<forall>x. length x = 4 \<and>
           ip_val x \<in> scan_rest s (ip_val (srv_nextIP s)) (ip_val (srv_nextIP s)) \<longrightarrow>
           isLeasedOrReserved s now x
         else in_pool s r \<and> \<not> isLeasedOrReserved s now r"
    by blast
  show ?thesis
  proof (cases "r = []")
    case True
    have "isLeasedOrReserved s now x" if "in_pool s x" for x
      using that r' True by (auto simp: scan_rest_def in_pool_def)
    with r True show ?thesis
      by (intro exhausted) (simp_all add: allocate_dynamic_def)
  next
    case False
    with r' have rp: "in_pool s r" "\<not> isLeasedOrReserved s now r" by simp_all
    from r False pool_next_step(1) [OF wf ok rp(1)] rp show ?thesis
      by (intro fresh [of r]) (simp_all add: allocate_dynamic_def pool_next_def)
  qed
qed

lemma allocate_cases:
  "allocate s now mac =
     (case glookup (srv_reservations s) (dhcp_normalizeMAC mac) of
        Some r \<Rightarrow> Some (put_lease mac r now (clearLeasesForIP r s), r, lease_callback s r mac)
      | None \<Rightarrow> (case held s now mac of Some a \<Rightarrow> Some (s, a, [])
                 | None \<Rightarrow> allocate_dynamic s now mac))"
  by (auto simp: allocate_def held_def split: option.splits)

lemma put_lease_fields [simp]:
  "srv_rangeStart (put_lease mac a now s) = srv_rangeStart s"
  "srv_rangeEnd (put_lease mac a now s) = srv_rangeEnd s"
  "srv_nextIP (put_lease mac a now s) = srv_nextIP s"
  "srv_reservations (put_lease mac a now s) = srv_reservations s"
  by (simp_all add: put_lease_def)

lemma clear_fields [simp]:
  "srv_rangeStart (clearLeasesForIP a s) = srv_rangeStart s"
  "srv_rangeEnd (clearLeasesForIP a s) = srv_rangeEnd s"
  "srv_nextIP (clearLeasesForIP a s) = srv_nextIP s"
  "srv_reservations (clearLeasesForIP a s) = srv_reservations s"
  by (simp_all add: clearLeasesForIP_def)

lemma reap_fields [simp]:
  "srv_rangeStart (fst (reapExpiredLeases now s)) = srv_rangeStart s"
  "srv_rangeEnd (fst (reapExpiredLeases now s)) = srv_rangeEnd s"
  "srv_nextIP (fst (reapExpiredLeases now s)) = srv_nextIP s"
  "srv_lease (fst (reapExpiredLeases now s)) = srv_lease s"
  "srv_reservations (fst (reapExpiredLeases now s)) = srv_reservations s"
  by (simp_all add: reapExpiredLeases_def Let_def)

lemma pool_ok_cong:
  assumes "srv_rangeStart s' = srv_rangeStart s" "srv_rangeEnd s' = srv_rangeEnd s"
    "srv_nextIP s' = srv_nextIP s"
  shows "pool_ok s' = pool_ok s" "range_ok s' = range_ok s"
  using assms by (simp_all add: pool_ok_def in_pool_def range_ok_def)

lemma allocate_pool_ok:
  assumes wf: "srv_wf s" and ok: "pool_ok s" and al: "allocate s now mac = Some (s', a, evs)"
  shows "pool_ok s'"
proof (cases "allocate_dynamic s now mac = Some (s', a, evs)")
  case True
  from wf ok show ?thesis
  proof (cases rule: allocate_dynamic_total [where now = now and mac = mac])
    case exhausted
    with True ok show ?thesis by simp
  next
    case (fresh b)
    with True have "s' = (put_lease mac b now s)\<lparr>srv_nextIP := pool_next s b\<rparr>" by auto
    with ok pool_next_step(3) [OF wf ok fresh(1)] show ?thesis
      by (simp add: pool_ok_def in_pool_def)
  qed
next
  case False
  with al have "srv_rangeStart s' = srv_rangeStart s" "srv_rangeEnd s' = srv_rangeEnd s"
    "srv_nextIP s' = srv_nextIP s"
    by (auto simp: allocate_cases split: option.splits)
  then show ?thesis using ok pool_ok_cong(1) by blast
qed

lemma step_pool_ok:
  assumes "dhcp_step st st'" and "lease_inv (fst st) (snd st)" and "range_ok (fst st) \<longrightarrow> pool_ok (fst st)"
  shows "range_ok (fst st') \<longrightarrow> pool_ok (fst st')"
  using assms
proof (induction rule: dhcp_step.induct)
  case (request s now mac s' a evs)
  then have wf: "srv_wf s" by (simp add: lease_inv_def)
  from allocate_srv_lease(2,3) [OF wf request(1)] have "range_ok s' = range_ok s"
    by (simp add: range_ok_def)
  with request allocate_pool_ok [OF wf _ request(1)] show ?case by simp
next
  case (reap now s s' evs)
  then have "s' = fst (reapExpiredLeases now s)" by simp
  with reap(3) show ?case by (simp add: pool_ok_def in_pool_def range_ok_def)
qed (simp_all add: pool_ok_def in_pool_def range_ok_def setting_defs SetReservations_def)

lemma reachable_pool_ok: "dhcp_reachable st \<Longrightarrow> range_ok (fst st) \<longrightarrow> pool_ok (fst st)"
proof (induction rule: dhcp_reachable.induct)
  case (start ifc addr rangeStart rangeEnd dnsNames dur s now)
  note inv = New_inv(1) [OF start, of now] New_inv(2) [OF start]
  have "length (srv_rangeStart s) = 4"
    using inv(1) by (simp add: lease_inv_def srv_wf_def)
  with inv(2) show ?case by (simp add: pool_ok_def in_pool_def range_ok_def)
next
  case (step st st')
  then show ?case using step_pool_ok reachable_inv by blast
qed

subsection \<open>Exclusive bindings\<close>

lemma reachable_wf: "dhcp_reachable (s, now) \<Longrightarrow> srv_wf s"
  using reachable_inv [of "(s, now)"] by (simp add: lease_inv_def)

text \<open>
  C2: In every state the server can reach, no two clients hold the same address at the same time.
\<close>

theorem dhcp_no_shared_lease:
  assumes "dhcp_reachable (s, now)" and "held s now m1 = Some a" and "m1 \<noteq> m2"
  shows "held s now m2 \<noteq> Some a"
  using exclusive_held [of s now m1 a m2] reachable_inv [OF assms(1)] assms(2,3) by auto

text \<open>A server with one lease, as the witnesses use it.\<close>

definition demo_server :: server where
  "demo_server = \<lparr>srv_iface = ''lan'', srv_serverIP = [10, 0, 0, 1], srv_mask = [255, 255, 255, 0],
     srv_rangeStart = [10, 0, 0, 50], srv_rangeEnd = [10, 0, 0, 51], srv_dns = [], srv_lease = 100,
     srv_router = [10, 0, 0, 1], srv_leases = [], srv_nextIP = [10, 0, 0, 50],
     srv_reservations = [], srv_pxeBootServer = [], srv_pxeBootFile = [],
     srv_macPXEBootFiles = [], srv_ipxeBootFile = [], srv_uefiBootFile = [],
     srv_legacyBootFile = [], srv_onLease = False, srv_onLeaseExpired = False\<rparr>"

lemma demo_New:
  "dhcp_New ''lan'' ''10.0.0.1/24'' ''10.0.0.50'' ''10.0.0.51'' [] 100 = Inr demo_server"
  by code_simp

lemma demo_reachable: "dhcp_reachable (demo_server, now)"
  by (rule dhcp_reachable.start [OF demo_New])

definition demo_leased :: server where
  "demo_leased = demo_server\<lparr>srv_leases := [(''aa'', \<lparr>lease_IP = [10, 0, 0, 50], lease_Expires = 100\<rparr>)],
     srv_nextIP := [10, 0, 0, 51]\<rparr>"

lemma demo_free: "\<not> isLeasedOrReserved demo_server now a"
  by (simp add: isLeasedOrReserved_def demo_server_def)

lemma demo_allocate: "allocate demo_server 0 ''aa'' = Some (demo_leased, [10, 0, 0, 50], [])"
proof -
  have "allocate_scan demo_server 0 [10, 0, 0, 50] [10, 0, 0, 50] = Some [10, 0, 0, 50]"
    by (subst allocate_scan.simps) (simp add: demo_free)
  moreover have "ipGreater (incIP [10, 0, 0, 50]) [10, 0, 0, 51] = Some False" by code_simp
  moreover have "incIP [10, 0, 0, 50] = [10, 0, 0, 51]" by code_simp
  ultimately show ?thesis
    by (simp add: allocate_def allocate_dynamic_def demo_server_def demo_leased_def put_lease_def
        lease_callback_def)
qed

lemma demo_leased_reachable: "dhcp_reachable (demo_leased, 0)"
  by (rule dhcp_reachable.step [OF demo_reachable dhcp_step.request [OF demo_allocate]])

theorem dhcp_no_shared_lease_witness:
  "held demo_leased 0 ''aa'' = Some [10, 0, 0, 50] \<and> held demo_leased 0 ''bb'' \<noteq> Some [10, 0, 0, 50]"
proof (intro conjI)
  show h: "held demo_leased 0 ''aa'' = Some [10, 0, 0, 50]"
    by (simp add: held_def demo_leased_def)
  show "held demo_leased 0 ''bb'' \<noteq> Some [10, 0, 0, 50]"
    by (rule dhcp_no_shared_lease [OF demo_leased_reachable h]) simp
qed

text \<open>
  C4: On a usable range an allocation always returns. It fails exactly when the client has neither
  a reservation nor a running lease and every address of the pool is leased or reserved; it then
  changes nothing. A new dynamic address comes from the pool, was free, and is recorded for the
  full lease time.
\<close>

theorem allocate_total_complete:
  assumes "dhcp_reachable (s, now)" and "range_ok s"
  shows "\<exists>s' a evs. allocate s now mac = Some (s', a, evs) \<and>
    (a = [] \<longleftrightarrow> glookup (srv_reservations s) (dhcp_normalizeMAC mac) = None \<and>
       held s now mac = None \<and> (\<forall>x. in_pool s x \<longrightarrow> isLeasedOrReserved s now x)) \<and>
    (a = [] \<longrightarrow> s' = s) \<and>
    (a \<noteq> [] \<and> glookup (srv_reservations s) (dhcp_normalizeMAC mac) = None \<and> held s now mac = None \<longrightarrow>
       in_pool s a \<and> \<not> isLeasedOrReserved s now a \<and>
       glookup (srv_leases s') mac = Some \<lparr>lease_IP = a, lease_Expires = now + srv_lease s\<rparr>)"
proof -
  have wf: "srv_wf s" by (rule reachable_wf [OF assms(1)])
  have ok: "pool_ok s" using reachable_pool_ok [OF assms(1)] assms(2) by simp
  have held4: "held s now mac = Some a \<Longrightarrow> a \<noteq> []" for a
    using lease_lengths(1) [OF wf] by (fastforce simp: held_Some_iff [OF wf])
  have res4: "glookup (srv_reservations s) k = Some r \<Longrightarrow> r \<noteq> []" for k r
    using lease_lengths(2) [OF wf] by (fastforce dest!: map_of_SomeD)
  from wf ok show ?thesis
  proof (cases rule: allocate_dynamic_total [where now = now and mac = mac])
    case exhausted
    with held4 res4 show ?thesis
      by (auto simp: allocate_cases split: option.splits)
  next
    case (fresh a)
    then have "a \<noteq> []" by (auto simp: in_pool_def)
    moreover have "gwf (srv_leases s)" by (rule srv_wf_lengths(4) [OF wf])
    ultimately show ?thesis
      using fresh held4 res4
      by (auto simp: allocate_cases put_lease_def gm.lookup_put split: option.splits)
  qed
qed

lemma demo_range_ok: "range_ok demo_server" "range_ok demo_leased"
  by (simp_all add: range_ok_def demo_server_def demo_leased_def ip_val_4)

theorem allocate_total_complete_witness:
  "\<exists>s' a evs. allocate demo_leased 0 ''bb'' = Some (s', a, evs)"
  using allocate_total_complete [OF demo_leased_reachable demo_range_ok(2), of "''bb''"] by blast


definition demo_reserved :: server where
  "demo_reserved = SetReservations [(''BB'', ''10.0.0.50'')] demo_leased"

lemma demo_reserved_reachable: "dhcp_reachable (demo_reserved, 0)"
  unfolding demo_reserved_def
  by (rule dhcp_reachable.step [OF demo_leased_reachable dhcp_step.reserve])


text \<open>
  C3: A reply that the handler sends offers (to a DISCOVER) or acknowledges (to a REQUEST) an
  address that the asking client then holds alone. The address is the client's reservation, its
  running lease, or one that was free.
\<close>

theorem handler_grants_exclusively:
  assumes "dhcp_reachable (s, now)" and "0 < srv_lease s"
    and "handler newReply toBytes s now peer req = Some (s', Some (d, dst), evs)"
  shows "\<exists>a t resp. newReply req (reply_modifiers s' t a
        (replyOptions s' (HardwareAddr_String (req_ClientHWAddr req)) req)) = Inr resp \<and>
      d = toBytes resp \<and> dst = reply_dst peer \<and> length a = 4 \<and>
      (req_MessageType req, t) \<in> {(MessageTypeDiscover, MessageTypeOffer), (MessageTypeRequest, MessageTypeAck)} \<and>
      (\<forall>m. held s' now m = Some a \<longleftrightarrow> m = HardwareAddr_String (req_ClientHWAddr req)) \<and>
      ((dhcp_normalizeMAC (HardwareAddr_String (req_ClientHWAddr req)), a) \<in> set (srv_reservations s) \<or>
       held s now (HardwareAddr_String (req_ClientHWAddr req)) = Some a \<or> \<not> isLeasedOrReserved s now a)"
proof -
  let ?mac = "HardwareAddr_String (req_ClientHWAddr req)"
  have inv: "lease_inv s now" using reachable_inv [OF assms(1)] by simp
  have wf: "srv_wf s" by (rule reachable_wf [OF assms(1)])
  from assms(3) obtain a t resp where
    al: "allocate s now ?mac = Some (s', a, evs)" and "a \<noteq> []" and
    rest: "newReply req (reply_modifiers s' t a (replyOptions s' ?mac req)) = Inr resp"
      "d = toBytes resp" "dst = reply_dst peer"
      "(req_MessageType req, t) \<in> {(MessageTypeDiscover, MessageTypeOffer), (MessageTypeRequest, MessageTypeAck)}"
    by (auto simp: handler_def Let_def split: if_splits message_type.splits sum.splits bind_splits)
  have "held s' now m = Some a \<longleftrightarrow> m = ?mac" for m
    using dhcp_leases.grant_exclusive [OF _ al \<open>a \<noteq> []\<close>] inv assms(2) by blast
  moreover have "length a = 4 \<and> ((dhcp_normalizeMAC ?mac, a) \<in> set (srv_reservations s) \<or>
      held s now ?mac = Some a \<or> \<not> isLeasedOrReserved s now a)"
    using wf al \<open>a \<noteq> []\<close> by (cases rule: allocate_SomeE) auto
  ultimately show ?thesis using rest by blast
qed

definition demo_request :: dhcp_request where
  "demo_request = \<lparr>req_OpCode = OpcodeBootRequest, req_ClientHWAddr = [2, 0, 0, 0, 0, 1],
     req_MessageType = MessageTypeDiscover, req_Options_Get = (\<lambda>_. [])\<rparr>"

text \<open>A reply library that serialises the offered address only.\<close>

definition demo_newReply :: "dhcp_request \<Rightarrow> modifier list \<Rightarrow> unit + ip" where
  "demo_newReply req mods = (case mods ! 2 of WithYourIP a \<Rightarrow> Inr a | _ \<Rightarrow> Inl ())"

lemma demo_scan: "allocate_scan demo_server 0 [10, 0, 0, 50] [10, 0, 0, 50] = Some [10, 0, 0, 50]"
  by (subst allocate_scan.simps) (simp add: demo_free)

lemma demo_handler:
  "\<exists>s' evs. handler demo_newReply id demo_server 0 (UDPAddr IPv4zero 68) demo_request =
     Some (s', Some ([10, 0, 0, 50], UDPAddr IPv4bcast 68), evs)"
proof -
  have "ipGreater (incIP [10, 0, 0, 50]) [10, 0, 0, 51] = Some False" by code_simp
  moreover have "incIP [10, 0, 0, 50] = [10, 0, 0, 51]" by code_simp
  moreover have "reply_dst (UDPAddr IPv4zero 68) = UDPAddr IPv4bcast 68" by code_simp
  moreover have "srv_nextIP demo_server = [10, 0, 0, 50]" "srv_rangeEnd demo_server = [10, 0, 0, 51]"
    "srv_reservations demo_server = []" "srv_leases demo_server = []"
    by (simp_all add: demo_server_def)
  ultimately show ?thesis
    using demo_scan
    by (simp add: handler_def allocate_def allocate_dynamic_def demo_request_def Let_def
        demo_newReply_def reply_modifiers_def)
qed

theorem handler_grants_exclusively_witness:
  "\<exists>s' a. a = [10, 0, 0, 50] \<and> held s' 0 (HardwareAddr_String [2, 0, 0, 0, 0, 1]) = Some a"
proof -
  obtain s' evs where h: "handler demo_newReply id demo_server 0 (UDPAddr IPv4zero 68) demo_request =
      Some (s', Some ([10, 0, 0, 50], UDPAddr IPv4bcast 68), evs)"
    using demo_handler by blast
  have l: "0 < srv_lease demo_server" by (simp add: demo_server_def)
  obtain a t where a: "demo_newReply demo_request (reply_modifiers s' t a
        (replyOptions s' (HardwareAddr_String (req_ClientHWAddr demo_request)) demo_request)) =
        Inr [10, 0, 0, 50]"
    "\<forall>m. held s' 0 m = Some a \<longleftrightarrow> m = HardwareAddr_String (req_ClientHWAddr demo_request)"
    using handler_grants_exclusively [OF demo_reachable l h] by (simp only: id_apply) metis
  from a(1) have "a = [10, 0, 0, 50]" by (simp add: demo_newReply_def reply_modifiers_def)
  with a(2) show ?thesis by (auto simp: demo_request_def)
qed

text \<open>
  C23: A burst of requests refines the abstract lease table: the bindings after it are those of the
  sequence of grants reported to the clients, each giving one client one address and taking it
  from whoever had it, and they stay exclusive.
\<close>

theorem burst_refines_bindings:
  assumes "dhcp_reachable (s, now)" and "0 < srv_lease s"
    and "serve allocate s now macs = Some (s', grants)"
  shows "held s' now = fold (\<lambda>(m, a). bind_lease m a) grants (held s now) \<and> exclusive s' now"
  using dhcp_leases.serve_refines [of s now macs s' grants] reachable_inv [OF assms(1)] assms(2,3)
  by (simp add: lease_inv_def)

theorem burst_refines_bindings_witness:
  "held demo_leased 0 = fold (\<lambda>(m, a). bind_lease m a) [(''aa'', [10, 0, 0, 50])] (held demo_server 0)"
proof -
  have "0 < srv_lease demo_server" by (simp add: demo_server_def)
  moreover have "serve allocate demo_server 0 [''aa''] = Some (demo_leased, [(''aa'', [10, 0, 0, 50])])"
    by (simp add: demo_allocate)
  ultimately show ?thesis
    using burst_refines_bindings [OF demo_reachable] by blast
qed

text \<open>
  C25: One round of the reaper removes exactly the leases that have expired and reports each of them
  once; no client's binding changes, now or later.
\<close>

theorem reaper_exact:
  assumes "dhcp_reachable (s, now)" and "now \<le> later"
  shows "set (srv_leases (fst (reapExpiredLeases now s))) =
      {(mac, l). (mac, l) \<in> set (srv_leases s) \<and> now \<le> lease_Expires l} \<and>
    (srv_onLeaseExpired s \<longrightarrow> snd (reapExpiredLeases now s) =
      [LeaseExpiredCallback (lease_IP l) mac. (mac, l) \<leftarrow> srv_leases s, lease_Expires l < now]) \<and>
    held (fst (reapExpiredLeases now s)) later = held s later"
proof -
  have wf: "srv_wf s" by (rule reachable_wf [OF assms(1)])
  have wf': "srv_wf (fst (reapExpiredLeases now s))"
    using lease_inv_reap [of s now] reachable_inv [OF assms(1)] by (simp add: lease_inv_def)
  note lv = reap_leases [OF srv_wf_lengths(4) [OF wf], of now]
  have "held (fst (reapExpiredLeases now s)) later m = Some a \<longleftrightarrow> held s later m = Some a" for m a
    unfolding held_Some_iff [OF wf'] held_Some_iff [OF wf] lv using assms(2) by fastforce
  then have "held (fst (reapExpiredLeases now s)) later = held s later"
    by (intro ext) (metis not_None_eq)
  moreover have "map (\<lambda>(mac, l). LeaseExpiredCallback (dupIP (lease_IP l)) mac)
      (filter (\<lambda>(mac, l). lease_Expires l < now) ls) =
      [LeaseExpiredCallback (lease_IP l) mac. (mac, l) \<leftarrow> ls, lease_Expires l < now]" for ls
    by (induction ls) auto
  ultimately show ?thesis
    unfolding lv by (auto simp: reapExpiredLeases_def Let_def)
qed

lemma demo_leased_later: "dhcp_reachable (demo_leased, 200)"
  by (rule dhcp_reachable.step [OF demo_leased_reachable dhcp_step.clock]) simp

theorem reaper_exact_witness:
  "set (srv_leases (fst (reapExpiredLeases 200 demo_leased))) = {}"
  using reaper_exact [OF demo_leased_later, of 200] by (auto simp: demo_leased_def)

lemma lookup_SetReservations:
  assumes "(mac, a) \<in> set res"
    and "\<forall>(mac', a') \<in> set res. dhcp_normalizeMAC mac' = dhcp_normalizeMAC mac \<longrightarrow> (mac', a') = (mac, a)"
  shows "glookup (srv_reservations (SetReservations res s)) (dhcp_normalizeMAC mac) =
    (if To4 (ParseIP a) \<noteq> [] \<and> IPNet_Contains (server_subnet s) (To4 (ParseIP a))
     then Some (To4 (ParseIP a)) else None)"
proof -
  let ?u = "usable_reservations (server_subnet s) res" and ?r = "To4 (ParseIP a)"
  have tbl: "srv_reservations (SetReservations res s) = range_put gput dhcp_normalizeMAC ?u []"
    by (simp add: SetReservations_def set_reservations_loop_range_put)
  have only: "r = ?r" if "(mac', r) \<in> set ?u" "dhcp_normalizeMAC mac' = dhcp_normalizeMAC mac" for mac' r
  proof -
    from that(1) obtain a' where "(mac', a') \<in> set res" "r = To4 (ParseIP a')"
      unfolding in_usable_reservations by blast
    with bspec [OF assms(2), of "(mac', a')"] that(2) show ?thesis by simp
  qed
  show ?thesis
  proof (cases "?r \<noteq> [] \<and> IPNet_Contains (server_subnet s) ?r")
    case True
    then have "(mac, ?r) \<in> set ?u"
      using assms(1) length_To4 unfolding in_usable_reservations by blast
    then have "glookup (range_put gput dhcp_normalizeMAC ?u []) (dhcp_normalizeMAC mac) = Some ?r"
      using only by (rule dhcp_mac.lookup_normalized)
    with True show ?thesis by (simp add: tbl)
  next
    case False
    have "glookup (range_put gput dhcp_normalizeMAC ?u []) (dhcp_normalizeMAC mac) \<noteq> Some r" for r
    proof
      assume "glookup (range_put gput dhcp_normalizeMAC ?u []) (dhcp_normalizeMAC mac) = Some r"
      then obtain m where "(m, r) \<in> set ?u" "dhcp_normalizeMAC m = dhcp_normalizeMAC mac"
        using gm.lookup_range_put_Some [of "[]" dhcp_normalizeMAC ?u] by auto
      with only have "(m, ?r) \<in> set ?u" by blast
      with False show False unfolding in_usable_reservations by auto
    qed
    then have "glookup (range_put gput dhcp_normalizeMAC ?u []) (dhcp_normalizeMAC mac) = None"
      using not_None_eq by blast
    with False show ?thesis by (simp add: tbl)
  qed
qed

text \<open>
  \<open>SetReservations\<close> keeps a reservation, under its normalised MAC address, exactly when its
  address is IPv4 and inside the server's subnet.
\<close>

lemma SetReservations_lookup:
  assumes "(mac, a) \<in> set res"
    and "\<forall>(mac', a') \<in> set res. dhcp_normalizeMAC mac' = dhcp_normalizeMAC mac \<longrightarrow> (mac', a') = (mac, a)"
  shows "glookup (srv_reservations (SetReservations res s)) (dhcp_normalizeMAC mac) =
    (if To4 (ParseIP a) \<noteq> [] \<and> IPNet_Contains (server_subnet s) (To4 (ParseIP a))
     then Some (To4 (ParseIP a)) else None)"
  using assms by (rule lookup_SetReservations)

lemma SetReservations_lookup_example:
  "glookup (srv_reservations (SetReservations
      [(''AA-BB'', ''10.0.0.9''), (''cc'', ''10.0.1.9'')] demo_server)) (dhcp_normalizeMAC ''cc'') = None"
proof -
  have "(if To4 (ParseIP ''10.0.1.9'') \<noteq> [] \<and> IPNet_Contains (server_subnet demo_server) (To4 (ParseIP ''10.0.1.9''))
     then Some (To4 (ParseIP ''10.0.1.9'')) else None) = None" by code_simp
  moreover have "dhcp_normalizeMAC ''AA-BB'' \<noteq> dhcp_normalizeMAC ''cc''" by code_simp
  ultimately show ?thesis
    using SetReservations_lookup [of "''cc''" "''10.0.1.9''"
        "[(''AA-BB'', ''10.0.0.9''), (''cc'', ''10.0.1.9'')]" demo_server] by simp
qed

text \<open>
  On IPv4 addresses \<open>incIP\<close> is the successor modulo 2^32 and \<open>ipGreater\<close> the order of the
  addresses read as 32-bit numbers; neither indexes out of range.
\<close>

lemma address_arithmetic:
  assumes "length a = 4" and "length b = 4"
  shows "length (incIP a) = 4 \<and> ip_val (incIP a) = (ip_val a + 1) mod 2 ^ 32 \<and>
    ipGreater a b = Some (ip_val b < ip_val a)"
  using assms by (simp add: ip_val_incIP ipGreater_ip_val)

lemma address_arithmetic_example:
  "ip_val (incIP [10, 0, 255, 255]) = 167837696 \<and> ipGreater [10, 0, 1, 0] [10, 0, 0, 255] = Some True"
  using address_arithmetic [of "[10, 0, 255, 255]" "[10, 0, 0, 0]"]
    address_arithmetic [of "[10, 0, 1, 0]" "[10, 0, 0, 255]"]
  by (simp add: ip_val_4)

subsection \<open>Renewal\<close>

text \<open>The steps of the renewal run below.\<close>

definition demo_two :: server where
  "demo_two = demo_leased\<lparr>srv_leases := srv_leases demo_leased @
     [(''bb'', \<lparr>lease_IP = [10, 0, 0, 51], lease_Expires = 200\<rparr>)], srv_nextIP := [10, 0, 0, 50]\<rparr>"

definition demo_three :: server where
  "demo_three = demo_two\<lparr>srv_leases := srv_leases demo_two @
     [(''cc'', \<lparr>lease_IP = [10, 0, 0, 50], lease_Expires = 200\<rparr>)], srv_nextIP := [10, 0, 0, 51]\<rparr>"

lemma demo_grants:
  "allocate demo_leased 99 ''aa'' = Some (demo_leased, [10, 0, 0, 50], [])"
  "allocate demo_leased 100 ''bb'' = Some (demo_two, [10, 0, 0, 51], [])"
  "allocate demo_two 100 ''cc'' = Some (demo_three, [10, 0, 0, 50], [])"
proof -
  have g: "ipGreater (incIP [10, 0, 0, 50]) [10, 0, 0, 51] = Some False"
    "ipGreater (incIP [10, 0, 0, 51]) [10, 0, 0, 51] = Some True" by code_simp+
  have i: "incIP [10, 0, 0, 50] = [10, 0, 0, 51]" "incIP [10, 0, 0, 51] = [10, 0, 0, 52]" by code_simp+
  have f: "\<not> isLeasedOrReserved demo_leased 100 [10, 0, 0, 51]"
    "\<not> isLeasedOrReserved demo_two 100 [10, 0, 0, 50]"
    by (simp_all add: isLeasedOrReserved_def demo_two_def demo_leased_def demo_server_def IP_Equal_def)
  have sc: "allocate_scan demo_leased 100 [10, 0, 0, 51] [10, 0, 0, 51] = Some [10, 0, 0, 51]"
    "allocate_scan demo_two 100 [10, 0, 0, 50] [10, 0, 0, 50] = Some [10, 0, 0, 50]"
    by (subst allocate_scan.simps, simp add: f)+
  show "allocate demo_leased 99 ''aa'' = Some (demo_leased, [10, 0, 0, 50], [])"
    by (simp add: allocate_def demo_leased_def demo_server_def)
  show "allocate demo_leased 100 ''bb'' = Some (demo_two, [10, 0, 0, 51], [])"
    using sc(1) g(2) i(2) by (simp add: allocate_def allocate_dynamic_def demo_leased_def demo_server_def demo_two_def
        put_lease_def lease_callback_def)
  show "allocate demo_two 100 ''cc'' = Some (demo_three, [10, 0, 0, 50], [])"
    using sc(2) g(1) i(1) by (simp add: allocate_def allocate_dynamic_def demo_leased_def demo_server_def demo_two_def
        demo_three_def put_lease_def lease_callback_def)
qed


end
