(* ===== verification/Config.thy ===== *)
theory Config
  imports Go_Net
begin

section \<open>Configuration (pkg/config)\<close>

text \<open>
  The configuration of \<open>pkg/config/config.go\<close>: the structs of router.json and of the extras file,
  the edits of the extras file that \<open>router-cli\<close> performs, environment expansion, the merge of the
  extras into the live configuration and the creation of an extras file from it.

  A map field that may be nil is an \<open>option\<close>. Field names carry the name of their struct, since
  HOL records share one name space. JSON and TOML decoding are done by libraries and are
  parameters of \<open>Load\<close> and \<open>LoadExtras\<close>.
\<close>

type_synonym string_map = "(string, string) gomap option"

text \<open>What \<open>range m\<close> visits and what \<open>m[k]\<close> reads: a nil map is empty, a missing key reads \<open>""\<close>.\<close>

definition entries :: "('k, 'v) gomap option \<Rightarrow> ('k \<times> 'v) list" where
  "entries m = (case m of None \<Rightarrow> [] | Some es \<Rightarrow> es)"

definition index_string :: "string_map \<Rightarrow> string \<Rightarrow> string" where
  "index_string m k = (case glookup (entries m) k of None \<Rightarrow> [] | Some v \<Rightarrow> v)"

subsection \<open>The structs\<close>

record wan_config =
  WAN_Interface :: string
  WAN_Mode :: string

record dhcp_config =
  DHCP_Enabled :: bool
  DHCP_RangeStart :: string
  DHCP_RangeEnd :: string
  DHCP_LeaseDuration :: string
  DHCP_DNS :: "string list"
  DHCP_Reservations :: string_map
  DHCP_PXEBootServer :: string
  DHCP_PXEBootFile :: string

record lan_config =
  LAN_Bridge :: string
  LAN_Interfaces :: "string list"
  LAN_Address :: string
  LAN_DHCP :: dhcp_config

record vlan_config =
  VLAN_ID :: int
  VLAN_Name :: string
  VLAN_Ports :: "string list"
  VLAN_Address :: string
  VLAN_DHCP :: dhcp_config
  VLAN_NAT :: bool
  VLAN_Isolated :: bool

record nat_config =
  NAT_Enabled :: bool
  NAT_OutInterface :: string

record wifi_config =
  WiFi_Enabled :: bool
  WiFi_Interface :: string
  WiFi_Bridge :: string
  WiFi_Address :: string
  WiFi_DHCP :: dhcp_config
  WiFi_MacMapFile :: string
  WiFi_DefaultVLAN :: int
  WiFi_SSID :: string
  WiFi_Passphrase :: string
  WiFi_Channel :: int
  WiFi_HWMode :: string
  WiFi_HTCapab :: string
  WiFi_CountryCode :: string
  WiFi_WPA :: int

record mount_config =
  Mount_Enabled :: bool
  Mount_Device :: string
  Mount_FsType :: string
  Mount_Target :: string
  Mount_Options :: string

record smb_config =
  SMB_Enabled :: bool
  SMB_BinPath :: string
  SMB_Listen :: string
  SMB_ShareName :: string
  SMB_SharePath :: string
  SMB_User :: string
  SMB_Password :: string
  SMB_UsePortableServer :: bool

record pxe_config =
  PXE_Enabled :: bool
  PXE_Listen :: string
  PXE_BindInterface :: string
  PXE_TFTPRoot :: string
  PXE_DefaultImage :: string
  PXE_MacImages :: string_map
  PXE_BootFile :: string
  PXE_LegacyBootFile :: string
  PXE_UEFIBootFile :: string
  PXE_IPXEScript :: string

record admin_api_config =
  AdminAPI_Listen :: string
  AdminAPI_Token :: string
  AdminAPI_AllowUnauthenticatedReload :: bool

record services_config =
  Services_Mount :: mount_config
  Services_SMB :: smb_config
  Services_PXE :: pxe_config
  Services_ExtrasFile :: string
  Services_AdminAPI :: admin_api_config

record config =
  Config_WAN :: wan_config
  Config_LAN :: lan_config
  Config_VLANs :: "vlan_config list"
  Config_NAT :: nat_config
  Config_WiFi :: wifi_config
  Config_Services :: services_config
  Config_DNS :: "string list"

record smb_user =
  SMBUser_Name :: string
  SMBUser_Password :: string

record extras_config =
  Extras_Reservations :: string_map
  Extras_MacImages :: string_map
  Extras_DefaultImage :: string
  Extras_PXEBootFile :: string
  Extras_LegacyBootFile :: string
  Extras_UEFIBootFile :: string
  Extras_IPXEScript :: string
  Extras_SMBUsers :: "smb_user list"
  Extras_VLANAddresses :: "(int, string) gomap option"
  Extras_DNS :: "string list"

text \<open>The zero values \<open>Config\{\}\<close> and \<open>ExtrasConfig\{\}\<close> with their nested structs.\<close>

definition zero_dhcp :: dhcp_config where
  "zero_dhcp = \<lparr>DHCP_Enabled = False, DHCP_RangeStart = [], DHCP_RangeEnd = [],
     DHCP_LeaseDuration = [], DHCP_DNS = [], DHCP_Reservations = None, DHCP_PXEBootServer = [],
     DHCP_PXEBootFile = []\<rparr>"

definition zero_wifi :: wifi_config where
  "zero_wifi = \<lparr>WiFi_Enabled = False, WiFi_Interface = [], WiFi_Bridge = [], WiFi_Address = [],
     WiFi_DHCP = zero_dhcp, WiFi_MacMapFile = [], WiFi_DefaultVLAN = 0, WiFi_SSID = [],
     WiFi_Passphrase = [], WiFi_Channel = 0, WiFi_HWMode = [], WiFi_HTCapab = [],
     WiFi_CountryCode = [], WiFi_WPA = 0\<rparr>"

definition zero_services :: services_config where
  "zero_services = \<lparr>
     Services_Mount = \<lparr>Mount_Enabled = False, Mount_Device = [], Mount_FsType = [],
       Mount_Target = [], Mount_Options = []\<rparr>,
     Services_SMB = \<lparr>SMB_Enabled = False, SMB_BinPath = [], SMB_Listen = [], SMB_ShareName = [],
       SMB_SharePath = [], SMB_User = [], SMB_Password = [], SMB_UsePortableServer = False\<rparr>,
     Services_PXE = \<lparr>PXE_Enabled = False, PXE_Listen = [], PXE_BindInterface = [],
       PXE_TFTPRoot = [], PXE_DefaultImage = [], PXE_MacImages = None, PXE_BootFile = [],
       PXE_LegacyBootFile = [], PXE_UEFIBootFile = [], PXE_IPXEScript = []\<rparr>,
     Services_ExtrasFile = [],
     Services_AdminAPI = \<lparr>AdminAPI_Listen = [], AdminAPI_Token = [],
       AdminAPI_AllowUnauthenticatedReload = False\<rparr>\<rparr>"

definition zero_extras :: extras_config where
  "zero_extras = \<lparr>Extras_Reservations = None, Extras_MacImages = None, Extras_DefaultImage = [],
     Extras_PXEBootFile = [], Extras_LegacyBootFile = [], Extras_UEFIBootFile = [],
     Extras_IPXEScript = [], Extras_SMBUsers = [], Extras_VLANAddresses = None, Extras_DNS = []\<rparr>"

definition Default :: config where
  "Default = \<lparr>
     Config_WAN = \<lparr>WAN_Interface = ''wan'', WAN_Mode = ''dhcp''\<rparr>,
     Config_LAN = \<lparr>LAN_Bridge = ''br-lan'', LAN_Interfaces = [''lan1'', ''lan2'', ''lan3'', ''lan4''],
       LAN_Address = ''10.0.0.1/24'',
       LAN_DHCP = zero_dhcp\<lparr>DHCP_Enabled := True, DHCP_RangeStart := ''10.0.0.100'',
         DHCP_RangeEnd := ''10.0.0.250'', DHCP_LeaseDuration := ''12h''\<rparr>\<rparr>,
     Config_VLANs = [],
     Config_NAT = \<lparr>NAT_Enabled = True, NAT_OutInterface = ''wan''\<rparr>,
     Config_WiFi = zero_wifi,
     Config_Services = zero_services,
     Config_DNS = [''1.1.1.1'', ''8.8.8.8'']\<rparr>"

subsection \<open>Editing the extras file\<close>

datatype config_error =
    ErrNotModified | ErrOpenNotExist | ErrOpen | ErrDecode string | ErrMarshal string | ErrWrite

definition config_normalizeMAC :: "string \<Rightarrow> string" where
  "config_normalizeMAC mac = ToLower (TrimSpace (ReplaceAll CHR ''-'' CHR '':'' mac))"

text \<open>
  The body shared by \<open>SetReservation\<close> and \<open>SetMacImage\<close>, and by \<open>RemoveReservation\<close> and
  \<open>RemoveMacImage\<close>: the error returned, if any, and the new map.
\<close>

definition set_entry :: "string \<Rightarrow> string \<Rightarrow> string_map \<Rightarrow> config_error option \<times> string_map" where
  "set_entry k v m =
     (let es = entries m in
      if index_string (Some es) k = v then (Some ErrNotModified, Some es)
      else (None, Some (gput k v es)))"

definition remove_entry :: "string \<Rightarrow> string_map \<Rightarrow> config_error option \<times> string_map" where
  "remove_entry k m =
     (case m of
        None \<Rightarrow> (Some ErrNotModified, None)
      | Some es \<Rightarrow>
        if glookup es k = None then (Some ErrNotModified, m) else (None, Some (gdelete k es)))"

definition SetReservation :: "string \<Rightarrow> string \<Rightarrow> extras_config \<Rightarrow> config_error option \<times> extras_config" where
  "SetReservation mac a e =
     (let (err, m) = set_entry (config_normalizeMAC mac) a (Extras_Reservations e)
      in (err, e\<lparr>Extras_Reservations := m\<rparr>))"

definition RemoveReservation :: "string \<Rightarrow> extras_config \<Rightarrow> config_error option \<times> extras_config" where
  "RemoveReservation mac e =
     (let (err, m) = remove_entry (config_normalizeMAC mac) (Extras_Reservations e)
      in (err, e\<lparr>Extras_Reservations := m\<rparr>))"

definition SetMacImage :: "string \<Rightarrow> string \<Rightarrow> extras_config \<Rightarrow> config_error option \<times> extras_config" where
  "SetMacImage mac img e =
     (let (err, m) = set_entry (config_normalizeMAC mac) img (Extras_MacImages e)
      in (err, e\<lparr>Extras_MacImages := m\<rparr>))"

definition RemoveMacImage :: "string \<Rightarrow> extras_config \<Rightarrow> config_error option \<times> extras_config" where
  "RemoveMacImage mac e =
     (let (err, m) = remove_entry (config_normalizeMAC mac) (Extras_MacImages e)
      in (err, e\<lparr>Extras_MacImages := m\<rparr>))"

subsection \<open>Files\<close>

text \<open>
  The files the program reads and writes: a path holds bytes, or does not exist, or cannot be
  opened; some paths cannot be written.
\<close>

datatype open_result = FileNotExist | FileError | FileData bytes

record fs =
  fs_open :: "string \<Rightarrow> open_result"
  fs_writable :: "string \<Rightarrow> bool"

definition WriteFile :: "string \<Rightarrow> bytes \<Rightarrow> fs \<Rightarrow> bool \<times> fs" where
  "WriteFile path b f =
     (if fs_writable f path then (True, f\<lparr>fs_open := (fs_open f)(path := FileData b)\<rparr>) else (False, f))"

definition Save ::
  "(extras_config \<Rightarrow> string + bytes) \<Rightarrow> string \<Rightarrow> extras_config \<Rightarrow> fs \<Rightarrow> config_error option \<times> fs" where
  "Save Encode path e f =
     (case Encode e of
        Inl err \<Rightarrow> (Some (ErrMarshal err), f)
      | Inr b \<Rightarrow> (let (ok, f') = WriteFile path b f in (if ok then None else Some ErrWrite, f')))"

definition Load :: "(bytes \<Rightarrow> string + config) \<Rightarrow> string \<Rightarrow> fs \<Rightarrow> config_error + config" where
  "Load decode path f =
     (case fs_open f path of
        FileNotExist \<Rightarrow> Inl ErrOpenNotExist
      | FileError \<Rightarrow> Inl ErrOpen
      | FileData b \<Rightarrow> (case decode b of Inl e \<Rightarrow> Inl (ErrDecode e) | Inr c \<Rightarrow> Inr c))"

definition LoadExtras :: "(bytes \<Rightarrow> string + extras_config) \<Rightarrow> string \<Rightarrow> fs \<Rightarrow> config_error + extras_config" where
  "LoadExtras decode path f =
     (case fs_open f path of
        FileNotExist \<Rightarrow> Inl ErrOpenNotExist
      | FileError \<Rightarrow> Inl ErrOpen
      | FileData b \<Rightarrow> (case decode b of Inl e \<Rightarrow> Inl (ErrDecode e) | Inr c \<Rightarrow> Inr c))"

subsection \<open>Merging the extras\<close>

definition config_cloneStringMap :: "string_map \<Rightarrow> string_map" where
  "config_cloneStringMap m =
     (case m of None \<Rightarrow> Some [] | Some es \<Rightarrow> Some (range_put gput config_normalizeMAC es []))"

text \<open>One reservation against one scope with address \<open>addr\<close>.\<close>

definition add_reservation :: "string \<Rightarrow> string \<Rightarrow> ip \<Rightarrow> string \<Rightarrow> dhcp_config \<Rightarrow> dhcp_config" where
  "add_reservation mac a parsedIP addr d =
     (case ParseCIDR addr of
        None \<Rightarrow> d
      | Some (_, subnet) \<Rightarrow>
        if IPNet_Contains subnet parsedIP
        then d\<lparr>DHCP_Reservations :=
               Some (gput (config_normalizeMAC mac) a (entries (DHCP_Reservations d)))\<rparr>
        else d)"

definition add_vlan_reservation :: "string \<Rightarrow> string \<Rightarrow> ip \<Rightarrow> vlan_config \<Rightarrow> vlan_config" where
  "add_vlan_reservation mac a parsedIP v =
     v\<lparr>VLAN_DHCP := add_reservation mac a parsedIP (VLAN_Address v) (VLAN_DHCP v)\<rparr>"

definition apply_reservation :: "string \<Rightarrow> string \<Rightarrow> config \<Rightarrow> config" where
  "apply_reservation mac a c =
     (if ParseIP a = [] then c
      else if To4 (ParseIP a) = [] then c
      else c\<lparr>Config_LAN :=
              (if LAN_Address (Config_LAN c) \<noteq> []
               then (Config_LAN c)\<lparr>LAN_DHCP := add_reservation mac a (To4 (ParseIP a))
                      (LAN_Address (Config_LAN c)) (LAN_DHCP (Config_LAN c))\<rparr>
               else Config_LAN c),
            Config_VLANs :=
              map (add_vlan_reservation mac a (To4 (ParseIP a))) (Config_VLANs c)\<rparr>)"

definition apply_pxe_overrides :: "extras_config \<Rightarrow> pxe_config \<Rightarrow> pxe_config" where
  "apply_pxe_overrides e p =
     p\<lparr>PXE_MacImages := config_cloneStringMap (Extras_MacImages e),
       PXE_DefaultImage := Extras_DefaultImage e,
       PXE_LegacyBootFile := Extras_LegacyBootFile e,
       PXE_UEFIBootFile := Extras_UEFIBootFile e,
       PXE_IPXEScript := Extras_IPXEScript e\<rparr>"

definition map_scopes :: "(dhcp_config \<Rightarrow> dhcp_config) \<Rightarrow> config \<Rightarrow> config" where
  "map_scopes f c =
     c\<lparr>Config_VLANs := map (\<lambda>v. v\<lparr>VLAN_DHCP := f (VLAN_DHCP v)\<rparr>) (Config_VLANs c),
       Config_WiFi := (Config_WiFi c)\<lparr>WiFi_DHCP := f (WiFi_DHCP (Config_WiFi c))\<rparr>,
       Config_LAN := (Config_LAN c)\<lparr>LAN_DHCP := f (LAN_DHCP (Config_LAN c))\<rparr>\<rparr>"

text \<open>The first VLAN with the given ID gets the address.\<close>

fun set_vlan_address :: "int \<Rightarrow> string \<Rightarrow> vlan_config list \<Rightarrow> vlan_config list" where
  "set_vlan_address i addr [] = []"
| "set_vlan_address i addr (v # vs) =
     (if VLAN_ID v = i then v\<lparr>VLAN_Address := addr\<rparr> # vs else v # set_vlan_address i addr vs)"

definition ApplyExtras :: "extras_config option \<Rightarrow> config \<Rightarrow> config" where
  "ApplyExtras extras c =
     (case extras of
        None \<Rightarrow> c
      | Some e \<Rightarrow>
        (let c1 = fold (\<lambda>(mac, a). apply_reservation mac a) (entries (Extras_Reservations e)) c;
             c2 = c1\<lparr>Config_Services := (Config_Services c1)\<lparr>Services_PXE :=
                    apply_pxe_overrides e (Services_PXE (Config_Services c1))\<rparr>\<rparr>;
             c3 = map_scopes (\<lambda>d. d\<lparr>DHCP_PXEBootFile := Extras_PXEBootFile e\<rparr>) c2;
             c4 = c3\<lparr>Config_VLANs := fold (\<lambda>(i, addr). set_vlan_address i addr)
                    (entries (Extras_VLANAddresses e)) (Config_VLANs c3)\<rparr>
         in if 0 < length (Extras_DNS e)
            then map_scopes (\<lambda>d. d\<lparr>DHCP_DNS := Extras_DNS e\<rparr>) c4 else c4))"

definition ExtrasFromConfig :: "config \<Rightarrow> extras_config" where
  "ExtrasFromConfig c =
     (let copy = (\<lambda>m. range_put gput (\<lambda>k. k) (entries m));
          r1 = fold (\<lambda>v. copy (DHCP_Reservations (VLAN_DHCP v))) (Config_VLANs c) [];
          r2 = copy (DHCP_Reservations (LAN_DHCP (Config_LAN c))) r1;
          r3 = copy (DHCP_Reservations (WiFi_DHCP (Config_WiFi c))) r2;
          p = Services_PXE (Config_Services c)
      in zero_extras\<lparr>Extras_Reservations := Some r3,
           Extras_MacImages := Some (copy (PXE_MacImages p) []),
           Extras_DefaultImage := PXE_DefaultImage p,
           Extras_PXEBootFile := PXE_BootFile p,
           Extras_LegacyBootFile := PXE_LegacyBootFile p,
           Extras_UEFIBootFile := PXE_UEFIBootFile p,
           Extras_IPXEScript := PXE_IPXEScript p,
           Extras_VLANAddresses :=
             Some (fold (\<lambda>v. gput (VLAN_ID v) (VLAN_Address v)) (Config_VLANs c) [])\<rparr>)"

subsection \<open>Environment expansion\<close>

text \<open>
  \<open>os.ExpandEnv\<close> over the environment \<open>env\<close> (\<open>os.Getenv\<close>). \<open>getShellName\<close> returns the name after
  a dollar sign and the number of bytes it uses; it is called on a non-empty rest only.
\<close>

definition isShellSpecialVar :: "char \<Rightarrow> bool" where
  "isShellSpecialVar c = (c \<in> set ''*#$@!?-'' \<or> is_digit c)"

definition isAlphaNum :: "char \<Rightarrow> bool" where
  "isAlphaNum c = (c = CHR ''_'' \<or> is_digit c \<or> (97 \<le> code_of c \<and> code_of c \<le> 122) \<or>
     (65 \<le> code_of c \<and> code_of c \<le> 90))"

definition getShellName :: "string \<Rightarrow> string \<times> nat" where
  "getShellName s =
     (if hd s = CHR ''{'' then
        (if 2 < length s \<and> isShellSpecialVar (s ! 1) \<and> s ! 2 = CHR ''}'' then ([s ! 1], 3)
         else if CHR ''}'' \<in> set (tl s) then
           (let name = takeWhile (\<lambda>c. c \<noteq> CHR ''}'') (tl s)
            in if name = [] then ([], 2) else (name, length name + 2))
         else ([], 1))
      else if isShellSpecialVar (hd s) then ([hd s], 1)
      else (let name = takeWhile isAlphaNum s in (name, length name)))"

text \<open>The loop of \<open>os.Expand\<close> on the rest of the string.\<close>

function os_Expand :: "(string \<Rightarrow> string) \<Rightarrow> string \<Rightarrow> string" where
  "os_Expand env [] = []"
| "os_Expand env (c # s) =
     (if c = CHR ''$'' \<and> s \<noteq> [] then
        (let (name, w) = getShellName s in
         (if name = [] \<and> 0 < w then [] else if name = [] then [c] else env name) @
         os_Expand env (drop w s))
      else c # os_Expand env s)"
  by pat_completeness auto
termination
  by (relation "measure (\<lambda>(env, s). length s)") auto

definition expand_mount :: "(string \<Rightarrow> string) \<Rightarrow> mount_config \<Rightarrow> mount_config" where
  "expand_mount e m = m\<lparr>Mount_Device := e (Mount_Device m), Mount_Target := e (Mount_Target m),
     Mount_FsType := e (Mount_FsType m), Mount_Options := e (Mount_Options m)\<rparr>"

definition expand_smb :: "(string \<Rightarrow> string) \<Rightarrow> smb_config \<Rightarrow> smb_config" where
  "expand_smb e m = m\<lparr>SMB_BinPath := e (SMB_BinPath m), SMB_Listen := e (SMB_Listen m),
     SMB_ShareName := e (SMB_ShareName m), SMB_SharePath := e (SMB_SharePath m),
     SMB_User := e (SMB_User m), SMB_Password := e (SMB_Password m)\<rparr>"

definition expand_pxe :: "(string \<Rightarrow> string) \<Rightarrow> pxe_config \<Rightarrow> pxe_config" where
  "expand_pxe e m = m\<lparr>PXE_Listen := e (PXE_Listen m), PXE_TFTPRoot := e (PXE_TFTPRoot m),
     PXE_DefaultImage := e (PXE_DefaultImage m), PXE_BootFile := e (PXE_BootFile m),
     PXE_LegacyBootFile := e (PXE_LegacyBootFile m), PXE_UEFIBootFile := e (PXE_UEFIBootFile m),
     PXE_IPXEScript := e (PXE_IPXEScript m),
     PXE_MacImages := map_option (map (\<lambda>(k, v). (k, e v))) (PXE_MacImages m)\<rparr>"

definition ExpandEnv :: "(string \<Rightarrow> string) \<Rightarrow> config \<Rightarrow> config" where
  "ExpandEnv env c =
     (let e = os_Expand env; sv = Config_Services c; api = Services_AdminAPI sv
      in c\<lparr>Config_Services := sv\<lparr>
           Services_Mount := expand_mount e (Services_Mount sv),
           Services_SMB := expand_smb e (Services_SMB sv),
           Services_PXE := expand_pxe e (Services_PXE sv),
           Services_ExtrasFile := e (Services_ExtrasFile sv),
           Services_AdminAPI := api\<lparr>AdminAPI_Listen := e (AdminAPI_Listen api),
             AdminAPI_Token := e (AdminAPI_Token api)\<rparr>\<rparr>\<rparr>)"

subsection \<open>Lease durations\<close>

text \<open>
  \<open>time.ParseDuration\<close>: a sign, then numbers with an optional fraction, each with a unit; \<open>None\<close>
  is an error. Go computes a fraction in floating point; here it is truncated exactly.
\<close>

definition duration_unit :: "string \<Rightarrow> int option" where
  "duration_unit u =
     (if u = ''ns'' then Some 1
      else if u = ''us'' then Some 1000
      else if u = ''ms'' then Some 1000000
      else if u = ''s'' then Some 1000000000
      else if u = ''m'' then Some 60000000000
      else if u = ''h'' then Some 3600000000000
      else if map code_of u = [194, 181, 115] then Some 1000
      else if map code_of u = [206, 188, 115] then Some 1000
      else None)"

definition is_unit_char :: "char \<Rightarrow> bool" where
  "is_unit_char c = (\<not> (c = CHR ''.'' \<or> is_digit c))"

text \<open>One round of the loop: the nanoseconds of the first component and the rest of the string.\<close>

definition duration_component :: "string \<Rightarrow> (int \<times> string) option" where
  "duration_component s =
     (let ds = takeWhile is_digit s; s1 = dropWhile is_digit s;
          dot = (s1 \<noteq> [] \<and> hd s1 = CHR ''.'');
          fs = (if dot then takeWhile is_digit (tl s1) else []);
          s2 = (if dot then dropWhile is_digit (tl s1) else s1);
          u = takeWhile is_unit_char s2
      in if s = [] \<or> is_unit_char (hd s) then None
         else if 2 ^ 63 < int (digits_val ds) then None
         else if ds = [] \<and> fs = [] then None
         else case duration_unit u of
             None \<Rightarrow> None
           | Some unit \<Rightarrow>
             (let v = int (digits_val ds) * unit + int (digits_val fs) * unit div 10 ^ length fs
              in if 2 ^ 63 div unit < int (digits_val ds) \<or> 2 ^ 63 < v then None
                 else Some (v, dropWhile is_unit_char s2)))"

lemma length_dropWhile_hd: "s \<noteq> [] \<Longrightarrow> P (hd s) \<Longrightarrow> length (dropWhile P s) < length s"
  by (cases s) (auto simp: length_dropWhile_le le_imp_less_Suc)

lemma duration_component_shorter:
  assumes "duration_component s = Some (v, r)"
  shows "length r < length s"
proof -
  define s1 where "s1 = dropWhile is_digit s"
  define s2 where "s2 = (if s1 \<noteq> [] \<and> hd s1 = CHR ''.'' then dropWhile is_digit (tl s1) else s1)"
  have le1: "length s1 \<le> length s" by (simp add: s1_def length_dropWhile_le)
  have le2: "length s2 \<le> length s1"
    using le_trans [OF length_dropWhile_le [of is_digit "tl s1"], of "length s1"]
    by (simp add: s2_def)
  have r: "r = dropWhile is_unit_char s2" and ne: "s \<noteq> []" "\<not> is_unit_char (hd s)"
    using assms by (auto simp: duration_component_def Let_def s1_def s2_def split: if_splits option.splits)
  have "length s2 < length s"
  proof (cases "is_digit (hd s)")
    case True
    then have "length s1 < length s" unfolding s1_def by (rule length_dropWhile_hd [OF ne(1)])
    with le2 show ?thesis by simp
  next
    case False
    with ne have "s1 = s" "hd s = CHR ''.''"
      by (cases s; simp add: s1_def is_unit_char_def)+
    with ne(1) have "s2 = dropWhile is_digit (tl s)" by (simp add: s2_def)
    with ne(1) length_dropWhile_le [of is_digit "tl s"] show ?thesis
      by (cases s) auto
  qed
  with length_dropWhile_le [of is_unit_char s2] show ?thesis by (simp add: r)
qed

function duration_sum :: "int \<Rightarrow> string \<Rightarrow> int option" where
  "duration_sum d s =
     (if s = [] then Some d
      else case duration_component s of
          None \<Rightarrow> None
        | Some (v, r) \<Rightarrow> if 2 ^ 63 < d + v then None else duration_sum (d + v) r)"
  by pat_completeness auto
termination
  by (relation "measure (\<lambda>(d, s). length s)") (auto dest: duration_component_shorter)

definition ParseDuration :: "string \<Rightarrow> duration option" where
  "ParseDuration s =
     (let neg = (s \<noteq> [] \<and> hd s = CHR ''-'');
          s1 = (if s \<noteq> [] \<and> (hd s = CHR ''-'' \<or> hd s = CHR ''+'') then tl s else s)
      in if s1 = ''0'' then Some 0
         else if s1 = [] then None
         else case duration_sum 0 s1 of
             None \<Rightarrow> None
           | Some d \<Rightarrow> if neg then Some (- d)
                       else if 2 ^ 63 - 1 < d then None else Some d)"

definition ParseLeaseDuration :: "dhcp_config \<Rightarrow> duration" where
  "ParseLeaseDuration d =
     (case ParseDuration (DHCP_LeaseDuration d) of None \<Rightarrow> 12 * Hour | Some dur \<Rightarrow> dur)"

end
