(* ===== verification/Config_Props.thy ===== *)
theory Config_Props
  imports Config
begin

section \<open>Properties of the configuration\<close>

text \<open>
  The contract of an editable table of the extras file, which both \<open>router-cli\<close> command groups
  use, and where \<open>ApplyExtras\<close> puts reservations, PXE settings and addresses.
\<close>

subsection \<open>Editable tables\<close>

interpretation config_mac: key_normalizer config_normalizeMAC
  by unfold_locales (simp only: config_normalizeMAC_def mac_normal_form_idem)

lemma entries_simps [simp]: "entries None = []" "entries (Some es) = es"
  by (simp_all add: entries_def)

lemma index_string_gput:
  "gwf es \<Longrightarrow> index_string (Some (gput k v es)) k' =
     (if k' = k then v else index_string (Some es) k')"
  by (simp add: index_string_def gm.lookup_put)

lemma index_string_gdelete:
  "gwf es \<Longrightarrow> index_string (Some (gdelete k es)) k' =
     (if k' = k then [] else index_string (Some es) k')"
  by (simp add: index_string_def gm.lookup_del)

lemma index_string_entries [simp]: "index_string (Some (entries m)) k = index_string m k"
  by (simp add: index_string_def)

text \<open>
  A table of the extras file with the two operations on it. Keys are looked up by their normal
  form; a missing entry reads as the empty string.
\<close>

locale extras_table =
  fixes table :: "extras_config \<Rightarrow> string_map"
    and set_op :: "string \<Rightarrow> string \<Rightarrow> extras_config \<Rightarrow> config_error option \<times> extras_config"
    and remove_op :: "string \<Rightarrow> extras_config \<Rightarrow> config_error option \<times> extras_config"
  assumes set_table: "table (snd (set_op mac v e)) = snd (set_entry (config_normalizeMAC mac) v (table e))"
    and set_err: "fst (set_op mac v e) = fst (set_entry (config_normalizeMAC mac) v (table e))"
    and remove_table: "table (snd (remove_op mac e)) = snd (remove_entry (config_normalizeMAC mac) (table e))"
    and remove_err: "fst (remove_op mac e) = fst (remove_entry (config_normalizeMAC mac) (table e))"
begin

lemma wf_set: "gwf (entries (table e)) \<Longrightarrow> gwf (entries (table (snd (set_op mac v e))))"
  by (simp add: set_table set_entry_def Let_def gwf_gput)

lemma read_set:
  "gwf (entries (table e)) \<Longrightarrow> index_string (table (snd (set_op mac v e))) k =
     (if k = config_normalizeMAC mac then v else index_string (table e) k)"
  by (auto simp: set_table set_entry_def Let_def index_string_gput)

lemma set_not_modified:
  "fst (set_op mac v e) = (if index_string (table e) (config_normalizeMAC mac) = v
     then Some ErrNotModified else None)"
  by (auto simp: set_err set_entry_def Let_def)

text \<open>Setting an entry again under any spelling of the MAC address is reported as no change.\<close>

lemma set_again:
  assumes "gwf (entries (table e))" and "config_normalizeMAC mac' = config_normalizeMAC mac"
  shows "fst (set_op mac' v (snd (set_op mac v e))) = Some ErrNotModified"
  using assms by (simp add: set_not_modified read_set)

lemma remove_result:
  "fst (remove_op mac e) = (if glookup (entries (table e)) (config_normalizeMAC mac) = None
     then Some ErrNotModified else None)"
  by (cases "table e") (simp_all add: remove_err remove_entry_def)

lemma lookup_remove:
  "gwf (entries (table e)) \<Longrightarrow> glookup (entries (table (snd (remove_op mac e)))) k =
     (if k = config_normalizeMAC mac then None else glookup (entries (table e)) k)"
  by (cases "table e") (auto simp: remove_table remove_entry_def gm.lookup_del)

lemma remove_after_set:
  assumes "gwf (entries (table e))" and "v \<noteq> []"
    and "config_normalizeMAC mac' = config_normalizeMAC mac"
  shows "fst (remove_op mac' (snd (set_op mac v e))) = None"
    and "glookup (entries (table (snd (remove_op mac' (snd (set_op mac v e)))))) (config_normalizeMAC mac) = None"
proof -
  have "index_string (table (snd (set_op mac v e))) (config_normalizeMAC mac) = v"
    using assms(1) by (simp add: read_set)
  with assms(2) have "glookup (entries (table (snd (set_op mac v e)))) (config_normalizeMAC mac) \<noteq> None"
    by (auto simp: index_string_def split: option.splits)
  with assms(3) show "fst (remove_op mac' (snd (set_op mac v e))) = None"
    by (auto simp: remove_result)
  show "glookup (entries (table (snd (remove_op mac' (snd (set_op mac v e)))))) (config_normalizeMAC mac) = None"
    using assms(3) wf_set [OF assms(1)] by (simp add: lookup_remove)
qed

end

interpretation reservation_table: extras_table Extras_Reservations SetReservation RemoveReservation
  by unfold_locales (simp_all add: SetReservation_def RemoveReservation_def split: prod.split)

interpretation image_table: extras_table Extras_MacImages SetMacImage RemoveMacImage
  by unfold_locales (simp_all add: SetMacImage_def RemoveMacImage_def split: prod.split)

text \<open>
  Setting a reservation stores it under the normalised MAC address and nothing else changes;
  it reports \<open>ErrNotModified\<close> exactly when the table already read that address. Setting it again
  under any spelling is no change, and removing it under any spelling succeeds and leaves no entry.
\<close>

lemma reservation_edits:
  assumes "gwf (entries (Extras_Reservations e))"
    and "config_normalizeMAC mac' = config_normalizeMAC mac" and "a \<noteq> []"
  shows "(fst (SetReservation mac a e) = Some ErrNotModified \<longleftrightarrow>
      index_string (Extras_Reservations e) (config_normalizeMAC mac) = a) \<and>
    (\<forall>k. index_string (Extras_Reservations (snd (SetReservation mac a e))) k =
      (if k = config_normalizeMAC mac then a else index_string (Extras_Reservations e) k)) \<and>
    fst (SetReservation mac' a (snd (SetReservation mac a e))) = Some ErrNotModified \<and>
    fst (RemoveReservation mac' (snd (SetReservation mac a e))) = None \<and>
    glookup (entries (Extras_Reservations (snd (RemoveReservation mac' (snd (SetReservation mac a e))))))
      (config_normalizeMAC mac) = None"
  using reservation_table.set_again [OF assms(1,2)]
    reservation_table.remove_after_set [OF assms(1,3,2)] assms(1)
  by (simp add: reservation_table.set_not_modified reservation_table.read_set)

lemma reservation_edits_example:
  "fst (RemoveReservation ''aa:bb:cc'' (snd (SetReservation ''AA-BB-CC'' ''10.0.0.9'' zero_extras))) = None"
proof -
  have "config_normalizeMAC ''aa:bb:cc'' = config_normalizeMAC ''AA-BB-CC''" by code_simp
  then show ?thesis
    using reservation_edits [of zero_extras "''aa:bb:cc''" "''AA-BB-CC''" "''10.0.0.9''"]
    by (simp add: zero_extras_def)
qed

subsection \<open>Where reservations go\<close>

text \<open>The entries that a scope with address \<open>addr\<close> takes from a list of reservations.\<close>

definition scope_accepts :: "string \<Rightarrow> string \<Rightarrow> bool" where
  "scope_accepts addr a =
     (To4 (ParseIP a) \<noteq> [] \<and>
      (case ParseCIDR addr of None \<Rightarrow> False
       | Some (_, subnet) \<Rightarrow> IPNet_Contains subnet (To4 (ParseIP a))))"

definition scope_take :: "string \<Rightarrow> (string \<times> string) list \<Rightarrow> dhcp_config \<Rightarrow> dhcp_config" where
  "scope_take addr es d =
     fold (\<lambda>(mac, a) d. if scope_accepts addr a
       then d\<lparr>DHCP_Reservations := Some (gput (config_normalizeMAC mac) a (entries (DHCP_Reservations d)))\<rparr>
       else d) es d"

lemma ParseCIDR_Nil: "ParseCIDR [] = None"
  by code_simp

lemma apply_reservation_scopes:
  "LAN_DHCP (Config_LAN (apply_reservation mac a c)) =
     scope_take (LAN_Address (Config_LAN c)) [(mac, a)] (LAN_DHCP (Config_LAN c))"
  "Config_VLANs (apply_reservation mac a c) =
     map (\<lambda>v. v\<lparr>VLAN_DHCP := scope_take (VLAN_Address v) [(mac, a)] (VLAN_DHCP v)\<rparr>) (Config_VLANs c)"
  "LAN_Address (Config_LAN (apply_reservation mac a c)) = LAN_Address (Config_LAN c)"
  by (auto simp: apply_reservation_def scope_take_def scope_accepts_def add_reservation_def
      add_vlan_reservation_def ParseCIDR_Nil intro!: map_idI split: option.splits)

lemma fold_apply_reservation:
  "LAN_DHCP (Config_LAN (fold (\<lambda>(mac, a). apply_reservation mac a) es c)) =
     scope_take (LAN_Address (Config_LAN c)) es (LAN_DHCP (Config_LAN c))"
  "Config_VLANs (fold (\<lambda>(mac, a). apply_reservation mac a) es c) =
     map (\<lambda>v. v\<lparr>VLAN_DHCP := scope_take (VLAN_Address v) es (VLAN_DHCP v)\<rparr>) (Config_VLANs c)"
  by (induction es arbitrary: c) (auto simp: apply_reservation_scopes scope_take_def)

lemma scope_take_entries:
  "entries (DHCP_Reservations (scope_take addr es d)) =
     range_put gput config_normalizeMAC (filter (\<lambda>(mac, a). scope_accepts addr a) es)
       (entries (DHCP_Reservations d))"
  by (induction es arbitrary: d) (auto simp: scope_take_def range_put_def)

lemma apply_reservation_services:
  "Config_Services (apply_reservation mac a c) = Config_Services c"
  "Config_WiFi (apply_reservation mac a c) = Config_WiFi c"
  by (simp_all add: apply_reservation_def)

lemma fold_apply_reservation_services:
  "Config_Services (fold (\<lambda>(mac, a). apply_reservation mac a) es c) = Config_Services c"
  "Config_WiFi (fold (\<lambda>(mac, a). apply_reservation mac a) es c) = Config_WiFi c"
  by (induction es arbitrary: c) (auto simp: apply_reservation_services)

lemma set_vlan_address_nth:
  "length (set_vlan_address i addr vs) = length vs"
  "j < length vs \<Longrightarrow> VLAN_DHCP (set_vlan_address i addr vs ! j) = VLAN_DHCP (vs ! j)"
  "j < length vs \<Longrightarrow> VLAN_ID (set_vlan_address i addr vs ! j) = VLAN_ID (vs ! j)"
  by (induction vs arbitrary: j) (auto simp: nth_Cons split: nat.split)

lemma fold_set_vlan_address_nth:
  "length (fold (\<lambda>(i, addr). set_vlan_address i addr) xs vs) = length vs"
  "j < length vs \<Longrightarrow> VLAN_DHCP (fold (\<lambda>(i, addr). set_vlan_address i addr) xs vs ! j) = VLAN_DHCP (vs ! j)"
  "j < length vs \<Longrightarrow> VLAN_ID (fold (\<lambda>(i, addr). set_vlan_address i addr) xs vs ! j) = VLAN_ID (vs ! j)"
  by (induction xs arbitrary: vs) (auto simp: set_vlan_address_nth)

lemma ApplyExtras_VLANs:
  "length (Config_VLANs (ApplyExtras (Some e) c)) = length (Config_VLANs c)"
  "i < length (Config_VLANs c) \<Longrightarrow>
     VLAN_DHCP (Config_VLANs (ApplyExtras (Some e) c) ! i) =
       (let d = (scope_take (VLAN_Address (Config_VLANs c ! i)) (entries (Extras_Reservations e))
                  (VLAN_DHCP (Config_VLANs c ! i)))\<lparr>DHCP_PXEBootFile := Extras_PXEBootFile e\<rparr>
        in if Extras_DNS e = [] then d else d\<lparr>DHCP_DNS := Extras_DNS e\<rparr>)"
  by (simp_all add: ApplyExtras_def Let_def map_scopes_def fold_set_vlan_address_nth
      fold_apply_reservation)

lemma ApplyExtras_LAN:
  "LAN_DHCP (Config_LAN (ApplyExtras (Some e) c)) =
     (let d = (scope_take (LAN_Address (Config_LAN c)) (entries (Extras_Reservations e))
                (LAN_DHCP (Config_LAN c)))\<lparr>DHCP_PXEBootFile := Extras_PXEBootFile e\<rparr>
      in if Extras_DNS e = [] then d else d\<lparr>DHCP_DNS := Extras_DNS e\<rparr>)"
  by (simp add: ApplyExtras_def Let_def map_scopes_def fold_apply_reservation)

lemma ApplyExtras_services:
  "Config_Services (ApplyExtras (Some e) c) =
     (Config_Services c)\<lparr>Services_PXE := apply_pxe_overrides e (Services_PXE (Config_Services c))\<rparr>"
  by (simp add: ApplyExtras_def Let_def map_scopes_def fold_apply_reservation_services)

lemma scope_take_lookup:
  assumes wf: "gwf (entries (DHCP_Reservations d))" and mem: "(mac, a) \<in> set es"
    and uniq: "\<forall>(mac', a') \<in> set es. config_normalizeMAC mac' = config_normalizeMAC mac \<longrightarrow> (mac', a') = (mac, a)"
  shows "glookup (entries (DHCP_Reservations (scope_take addr es d))) (config_normalizeMAC mac) =
    (if scope_accepts addr a then Some a
     else glookup (entries (DHCP_Reservations d)) (config_normalizeMAC mac))"
proof (cases "scope_accepts addr a")
  case True
  have "glookup (range_put gput config_normalizeMAC (filter (\<lambda>(mac, a). scope_accepts addr a) es)
      (entries (DHCP_Reservations d))) (config_normalizeMAC mac) = Some a"
  proof (rule gm.lookup_range_put_unique [OF wf])
    show "(mac, a) \<in> set (filter (\<lambda>(mac, a). scope_accepts addr a) es)" using mem True by simp
    show "v' = a" if "(a', v') \<in> set (filter (\<lambda>(mac, a). scope_accepts addr a) es)"
      "config_normalizeMAC a' = config_normalizeMAC mac" for a' v'
      using bspec [OF uniq, of "(a', v')"] that by simp
  qed
  with True show ?thesis by (simp add: scope_take_entries)
next
  case False
  let ?l = "rev (map (\<lambda>(a, v). (config_normalizeMAC a, v)) (filter (\<lambda>(mac, a). scope_accepts addr a) es))"
  have "map_of ?l (config_normalizeMAC mac) = None"
  proof (rule ccontr)
    assume "map_of ?l (config_normalizeMAC mac) \<noteq> None"
    then obtain v where "(config_normalizeMAC mac, v) \<in> set ?l" by (blast dest: map_of_SomeD)
    then obtain mac' where "(mac', v) \<in> set es" "scope_accepts addr v"
      "config_normalizeMAC mac' = config_normalizeMAC mac" by auto
    with bspec [OF uniq, of "(mac', v)"] False show False by simp
  qed
  with False wf show ?thesis
    by (simp add: scope_take_entries gm.lookup_range_put)
qed


definition demo_vlan :: vlan_config where
  "demo_vlan = \<lparr>VLAN_ID = 30, VLAN_Name = ''iot'', VLAN_Ports = [], VLAN_Address = ''10.0.30.1/24'',
     VLAN_DHCP = zero_dhcp\<lparr>DHCP_Enabled := True, DHCP_RangeStart := ''10.0.30.100'',
       DHCP_RangeEnd := ''10.0.30.200''\<rparr>, VLAN_NAT = True, VLAN_Isolated = False\<rparr>"

definition demo_config :: config where
  "demo_config = Default\<lparr>Config_VLANs := [demo_vlan]\<rparr>"

definition demo_extras :: extras_config where
  "demo_extras = zero_extras\<lparr>Extras_Reservations := Some [(''AA-BB'', ''10.0.30.9'')]\<rparr>"


subsection \<open>The seeded extras file\<close>

lemma fold_gput_vlan:
  assumes "distinct (map VLAN_ID vs)" and "i < length vs"
  shows "map_of (fold (\<lambda>v. gput (VLAN_ID v) (VLAN_Address v)) vs m) (VLAN_ID (vs ! i)) =
    Some (VLAN_Address (vs ! i))"
proof -
  have notin: "map_of (fold (\<lambda>v. gput (VLAN_ID v) (VLAN_Address v)) ws m) k = map_of m k"
    if "k \<notin> set (map VLAN_ID ws)" for ws m k
    using that by (induction ws arbitrary: m) (auto simp: update_conv')
  show ?thesis
    using assms
    by (induction vs arbitrary: m i) (auto simp: nth_Cons update_conv' notin split: nat.splits)
qed

text \<open>Overriding addresses by the ones the VLANs have changes nothing.\<close>

lemma set_vlan_address_same:
  assumes "\<forall>v \<in> set vs. VLAN_ID v = i \<longrightarrow> VLAN_Address v = addr"
  shows "set_vlan_address i addr vs = vs"
  using assms by (induction vs) auto

lemma fold_set_vlan_address_same:
  assumes "\<forall>(i, addr) \<in> set xs. \<forall>v \<in> set vs. VLAN_ID v = i \<longrightarrow> VLAN_Address v = addr"
  shows "fold (\<lambda>(i, addr). set_vlan_address i addr) xs vs = vs"
  using assms
proof (induction xs)
  case (Cons x xs)
  then have "set_vlan_address (fst x) (snd x) vs = vs"
    by (intro set_vlan_address_same) (auto simp: split_beta)
  with Cons show ?case by (simp add: split_beta)
qed simp

lemma gwf_fold_vlan: "gwf m \<Longrightarrow> gwf (fold (\<lambda>v. gput (VLAN_ID v) (VLAN_Address v)) vs m)"
  by (induction vs arbitrary: m) (auto simp: gwf_gput)

lemma seeded_addresses:
  assumes "distinct (map VLAN_ID vs)"
    and "\<And>v. v \<in> set vs' \<Longrightarrow> \<exists>w \<in> set vs. VLAN_ID v = VLAN_ID w \<and> VLAN_Address v = VLAN_Address w"
  shows "fold (\<lambda>(i, addr). set_vlan_address i addr)
    (fold (\<lambda>v. gput (VLAN_ID v) (VLAN_Address v)) vs []) vs' = vs'"
proof (rule fold_set_vlan_address_same, clarify)
  let ?m = "fold (\<lambda>v. gput (VLAN_ID v) (VLAN_Address v)) vs []"
  fix k addr v assume m: "(VLAN_ID v, addr) \<in> set ?m" and v: "v \<in> set vs'"
  have wf: "gwf ?m" by (rule gwf_fold_vlan) simp
  from assms(2) [OF v] obtain w where w: "w \<in> set vs" "VLAN_ID v = VLAN_ID w" "VLAN_Address v = VLAN_Address w"
    by blast
  then obtain i where "i < length vs" "w = vs ! i" by (auto simp: in_set_conv_nth)
  with fold_gput_vlan [OF assms(1), of i "[]"] w(2,3) have "map_of ?m (VLAN_ID v) = Some (VLAN_Address v)"
    by simp
  with m wf show "VLAN_Address v = addr"
    by (metis map_of_eq_Some_iff option.inject)
qed

text \<open>
  The extras file created from a configuration reproduces its PXE settings and VLAN
  addresses when it is applied to it, and keeps every DNS list, but it sets the boot file of every
  scope to the global one, whatever the scope had.
\<close>

lemma seeded_extras_roundtrip:
  assumes "distinct (map VLAN_ID (Config_VLANs c))"
    and "gwf (entries (PXE_MacImages (Services_PXE (Config_Services c))))"
    and "\<forall>(k, v) \<in> set (entries (PXE_MacImages (Services_PXE (Config_Services c)))). config_normalizeMAC k = k"
  shows "(\<exists>imgs. Services_PXE (Config_Services (ApplyExtras (Some (ExtrasFromConfig c)) c)) =
      (Services_PXE (Config_Services c))\<lparr>PXE_MacImages := Some imgs\<rparr> \<and>
      glookup imgs = glookup (entries (PXE_MacImages (Services_PXE (Config_Services c))))) \<and>
    map (\<lambda>v. (VLAN_ID v, VLAN_Address v, DHCP_DNS (VLAN_DHCP v), DHCP_PXEBootFile (VLAN_DHCP v)))
      (Config_VLANs (ApplyExtras (Some (ExtrasFromConfig c)) c)) =
      map (\<lambda>v. (VLAN_ID v, VLAN_Address v, DHCP_DNS (VLAN_DHCP v),
        PXE_BootFile (Services_PXE (Config_Services c)))) (Config_VLANs c)"
proof
  let ?es = "entries (PXE_MacImages (Services_PXE (Config_Services c)))"
  let ?m = "range_put gput (\<lambda>k. k) ?es []"
  have look: "glookup ?m k = glookup ?es k" for k
    by (rule range_put_ident) (use assms(2) in auto)
  have "config_normalizeMAC k = k" if "(k, v) \<in> set ?m" for k v
    using gm.entries_range_put [of "[]" k v "\<lambda>k. k" ?es] that bspec [OF assms(3), of "(k, v)"] by auto
  then have "glookup (range_put gput config_normalizeMAC ?m []) k = glookup ?es k" for k
    using range_put_ident [of ?m config_normalizeMAC k] look by (simp add: gwf_range_put)
  then show "\<exists>imgs. Services_PXE (Config_Services (ApplyExtras (Some (ExtrasFromConfig c)) c)) =
      (Services_PXE (Config_Services c))\<lparr>PXE_MacImages := Some imgs\<rparr> \<and> glookup imgs = glookup ?es"
    by (auto simp: ApplyExtras_services apply_pxe_overrides_def ExtrasFromConfig_def Let_def
        config_cloneStringMap_def fun_eq_iff)
next
  have scope: "DHCP_DNS (scope_take addr es d) = DHCP_DNS d" for addr es d
    by (induction es arbitrary: d) (auto simp: scope_take_def)
  define vs where "vs = map (\<lambda>v. v\<lparr>VLAN_DHCP := (scope_take (VLAN_Address v)
      (entries (Extras_Reservations (ExtrasFromConfig c))) (VLAN_DHCP v))
        \<lparr>DHCP_PXEBootFile := PXE_BootFile (Services_PXE (Config_Services c))\<rparr>\<rparr>) (Config_VLANs c)"
  have "fold (\<lambda>(i, addr). set_vlan_address i addr)
      (fold (\<lambda>v. gput (VLAN_ID v) (VLAN_Address v)) (Config_VLANs c) []) vs = vs"
    by (rule seeded_addresses [OF assms(1)]) (auto simp: vs_def)
  moreover have "Extras_DNS (ExtrasFromConfig c) = []"
    "Extras_PXEBootFile (ExtrasFromConfig c) = PXE_BootFile (Services_PXE (Config_Services c))"
    "Extras_VLANAddresses (ExtrasFromConfig c) =
      Some (fold (\<lambda>v. gput (VLAN_ID v) (VLAN_Address v)) (Config_VLANs c) [])"
    by (simp_all add: ExtrasFromConfig_def Let_def zero_extras_def)
  ultimately have "Config_VLANs (ApplyExtras (Some (ExtrasFromConfig c)) c) = vs"
    by (simp add: ApplyExtras_def Let_def map_scopes_def fold_apply_reservation vs_def comp_def)
  then show "map (\<lambda>v. (VLAN_ID v, VLAN_Address v, DHCP_DNS (VLAN_DHCP v), DHCP_PXEBootFile (VLAN_DHCP v)))
      (Config_VLANs (ApplyExtras (Some (ExtrasFromConfig c)) c)) =
      map (\<lambda>v. (VLAN_ID v, VLAN_Address v, DHCP_DNS (VLAN_DHCP v),
        PXE_BootFile (Services_PXE (Config_Services c)))) (Config_VLANs c)"
    by (simp add: vs_def scope)
qed

lemma seeded_extras_roundtrip_example:
  "map (\<lambda>v. (VLAN_ID v, VLAN_Address v, DHCP_DNS (VLAN_DHCP v), DHCP_PXEBootFile (VLAN_DHCP v)))
    (Config_VLANs (ApplyExtras (Some (ExtrasFromConfig demo_config)) demo_config)) =
   [(30, ''10.0.30.1/24'', [], [])]"
  using seeded_extras_roundtrip [of demo_config]
  by (simp add: demo_config_def demo_vlan_def Default_def zero_services_def zero_dhcp_def)

definition moved_extras :: extras_config where
  "moved_extras = zero_extras\<lparr>Extras_Reservations := Some [(''aa'', ''10.0.99.9'')],
     Extras_VLANAddresses := Some [(30, ''10.0.99.1/24'')]\<rparr>"

text \<open>
  An address override moves a VLAN, but the reservations of the same extras file have been
  matched against its old subnet: a reservation inside the new subnet is not in the merged
  configuration.
\<close>

lemma moved_vlan_drops_reservation:
  "VLAN_Address (Config_VLANs (ApplyExtras (Some moved_extras) demo_config) ! 0) = ''10.0.99.1/24'' \<and>
   scope_accepts ''10.0.99.1/24'' ''10.0.99.9'' \<and>
   glookup (entries (DHCP_Reservations (VLAN_DHCP
     (Config_VLANs (ApplyExtras (Some moved_extras) demo_config) ! 0)))) ''aa'' = None"
  by code_simp

end
