(* ===== verification/Go_Path.thy ===== *)
theory Go_Path
  imports Go_Prelude
begin

section \<open>Package path/filepath on Unix\<close>

text \<open>
  The functions of \<open>path/filepath\<close> that the sources call, on the list of the path's elements, and
  the facts about \<open>Rel\<close> on which the checks against path traversal rest.
\<close>

abbreviation sep :: char where "sep \<equiv> CHR ''/''"

definition IsAbs :: "string \<Rightarrow> bool" where
  "IsAbs p = HasPrefix p ''/''"

text \<open>
  The elements left by \<open>Clean\<close>: empty and \<open>.\<close> elements are dropped, \<open>..\<close> removes the element before
  it, is dropped at the root and kept at the start of a relative path. The accumulator holds the
  elements written so far, last one first.
\<close>

fun clean_elems :: "bool \<Rightarrow> string list \<Rightarrow> string list \<Rightarrow> string list" where
  "clean_elems rooted acc [] = rev acc"
| "clean_elems rooted acc (e # es) =
     (if e = [] \<or> e = ''.'' then clean_elems rooted acc es
      else if e = ''..'' then
        (case acc of
           [] \<Rightarrow> if rooted then clean_elems rooted [] es else clean_elems rooted [''..''] es
         | x # xs \<Rightarrow> if x = ''..'' then clean_elems rooted (''..'' # acc) es
                     else clean_elems rooted xs es)
      else clean_elems rooted (e # acc) es)"

definition Clean :: "string \<Rightarrow> string" where
  "Clean p =
     (let rooted = IsAbs p; es = clean_elems rooted [] (Split sep p)
      in if rooted then sep # Join es [sep] else if es = [] then ''.'' else Join es [sep])"

text \<open>\<open>filepath.Join\<close> of two elements.\<close>

definition path_Join :: "string \<Rightarrow> string \<Rightarrow> string" where
  "path_Join a b =
     (if a = [] \<and> b = [] then [] else if a = [] then Clean b
      else if b = [] then Clean a else Clean (a @ sep # b))"

text \<open>The elements of a clean path; the root and the path \<open>.\<close> of a base have none.\<close>

definition path_elems :: "string \<Rightarrow> string list" where
  "path_elems p = (if p = ''/'' then [] else Split sep (TrimPrefix p ''/''))"

fun strip_common :: "string list \<Rightarrow> string list \<Rightarrow> string list \<times> string list" where
  "strip_common (b # bs) (t # ts) = (if b = t then strip_common bs ts else (b # bs, t # ts))"
| "strip_common bs ts = (bs, ts)"

text \<open>\<open>filepath.Rel(basepath, targpath)\<close>; \<open>None\<close> is the error.\<close>

definition Rel :: "string \<Rightarrow> string \<Rightarrow> string option" where
  "Rel basepath targpath =
     (let base = Clean basepath; targ = Clean targpath in
      if targ = base then Some ''.''
      else if IsAbs base \<noteq> IsAbs targ then None
      else
        (let (bs, ts) = strip_common (if base = ''.'' then [] else path_elems base) (path_elems targ)
         in if bs \<noteq> [] \<and> ts \<noteq> [] \<and> hd bs = ''..'' then None
            else Some (Join (replicate (length bs) ''..'' @ ts) [sep])))"

text \<open>\<open>filepath.Base\<close> and \<open>filepath.Ext\<close>.\<close>

definition path_Base :: "string \<Rightarrow> string" where
  "path_Base p =
     (if p = [] then ''.''
      else (let q = rev (dropWhile (\<lambda>c. c = sep) (rev p))
            in if q = [] then ''/'' else rev (takeWhile (\<lambda>c. c \<noteq> sep) (rev q))))"

definition path_Ext :: "string \<Rightarrow> string" where
  "path_Ext p =
     (let e = rev (takeWhile (\<lambda>c. c \<noteq> sep) (rev p))
      in if CHR ''.'' \<in> set e then CHR ''.'' # rev (takeWhile (\<lambda>c. c \<noteq> CHR ''.'') (rev e)) else [])"

subsection \<open>Clean paths\<close>

definition proper :: "string \<Rightarrow> bool" where
  "proper e \<longleftrightarrow> e \<noteq> [] \<and> e \<noteq> ''.'' \<and> e \<noteq> ''..'' \<and> sep \<notin> set e"

lemma clean_elems_rooted:
  assumes "\<forall>e \<in> set acc. proper e" and "\<forall>e \<in> set es. sep \<notin> set e"
  shows "\<forall>e \<in> set (clean_elems True acc es). proper e"
  using assms
proof (induction es arbitrary: acc)
  case (Cons e es)
  consider "e = [] \<or> e = ''.''" | "e = ''..''" "acc = []" | x xs where "e = ''..''" "acc = x # xs"
    | "proper e"
    using Cons.prems(2) by (cases acc) (auto simp: proper_def)
  then show ?case
  proof cases
    case (3 x xs)
    with Cons.prems(1) have "proper x" by simp
    with 3 have "clean_elems True acc (e # es) = clean_elems True xs es" by (simp add: proper_def)
    with Cons.IH [of xs] Cons.prems 3 show ?thesis by simp
  next
    case 4
    then have "\<not> (e = [] \<or> e = ''.'')" "e \<noteq> ''..''" by (auto simp: proper_def)
    then have "clean_elems True acc (e # es) = clean_elems True (e # acc) es" by simp
    with Cons.IH [of "e # acc"] Cons.prems 4 show ?thesis by simp
  qed (use Cons.IH [of acc] Cons.prems in auto)
qed simp

lemma clean_elems_proper:
  assumes "\<forall>e \<in> set es. proper e"
  shows "clean_elems r acc es = rev acc @ es"
  using assms by (induction es arbitrary: acc) (auto simp: proper_def)

lemma Join_nonempty: "es \<noteq> [] \<Longrightarrow> \<forall>e \<in> set es. e \<noteq> [] \<Longrightarrow> Join es s \<noteq> []"
  by (induction es s rule: Join.induct) auto

text \<open>An absolute path is clean when it is the root or a slash and proper elements.\<close>

lemma Clean_rooted:
  assumes "IsAbs p"
  obtains es where "\<forall>e \<in> set es. proper e" "Clean p = sep # Join es [sep]"
proof
  show "\<forall>e \<in> set (clean_elems True [] (Split sep p)). proper e"
    by (rule clean_elems_rooted) (auto dest: Split_parts_absent)
  show "Clean p = sep # Join (clean_elems True [] (Split sep p)) [sep]"
    using assms by (simp add: Clean_def Let_def)
qed

lemma path_elems_Join:
  assumes "\<forall>e \<in> set es. proper e"
  shows "path_elems (sep # Join es [sep]) = es"
proof (cases "es = []")
  case False
  with assms have "Join es [sep] \<noteq> []" by (intro Join_nonempty) (auto simp: proper_def)
  moreover have "Split sep (Join es [sep]) = es"
    using assms False by (intro Split_Join) (auto simp: proper_def)
  ultimately show ?thesis
    by (simp add: path_elems_def TrimPrefix_def HasPrefix_def)
qed (simp add: path_elems_def)

lemma Clean_Join:
  assumes "\<forall>e \<in> set es. proper e"
  shows "Clean (sep # Join es [sep]) = sep # Join es [sep]"
proof -
  have "Split sep (sep # Join es [sep]) = [] # (if es = [] then [[]] else es)"
    using assms Split_Join [of es sep] by (auto simp: proper_def)
  then have "clean_elems True [] (Split sep (sep # Join es [sep])) = es"
    using clean_elems_proper [OF assms, of True "[]"] by auto
  then show ?thesis by (simp add: Clean_def Let_def IsAbs_def HasPrefix_def)
qed

lemma Clean_idem_rooted: "IsAbs p \<Longrightarrow> Clean (Clean p) = Clean p"
  by (metis Clean_rooted Clean_Join)

lemma IsAbs_Clean: "IsAbs p \<Longrightarrow> IsAbs (Clean p)"
  by (simp add: Clean_def Let_def IsAbs_def HasPrefix_def)

subsection \<open>Rel and prefixes\<close>

lemma strip_common_eq:
  "strip_common bs ts = (b', t') \<Longrightarrow> \<exists>c. bs = c @ b' \<and> ts = c @ t' \<and> (b' = [] \<or> t' = [] \<or> hd b' \<noteq> hd t')"
proof (induction bs ts rule: strip_common.induct)
  case (1 b bs t ts)
  show ?case
  proof (cases "b = t")
    case True
    with 1 obtain c where "bs = c @ b'" "ts = c @ t'" "b' = [] \<or> t' = [] \<or> hd b' \<noteq> hd t'"
      by auto
    with True show ?thesis by (intro exI [of _ "b # c"]) simp
  next
    case False
    with "1.prems" show ?thesis by auto
  qed
qed auto

lemma Join_proper_not_parent:
  assumes "\<forall>e \<in> set (x # xs). proper e"
  shows "Join (x # xs) [sep] \<noteq> ''..'' \<and> \<not> HasPrefix (Join (x # xs) [sep]) ''../''"
proof (rule ccontr)
  have sp: "Split sep (Join (x # xs) [sep]) = x # xs"
    using assms by (intro Split_Join) (auto simp: proper_def)
  assume "\<not> ?thesis"
  then obtain r where "Join (x # xs) [sep] = ''..'' \<or> Join (x # xs) [sep] = ''..'' @ sep # r"
    unfolding HasPrefix_def by (metis append_take_drop_id append_Cons append_Nil)
  then have "hd (Split sep (Join (x # xs) [sep])) = ''..''" by auto
  with sp assms show False by (simp add: proper_def)
qed

lemma Join_parent: "Join (''..'' # es) [sep] = ''..'' \<or> HasPrefix (Join (''..'' # es) [sep]) ''../''"
  by (cases es) (simp_all add: HasPrefix_def)

text \<open>
  For absolute paths, \<open>Rel\<close> starts with \<open>..\<close> exactly when the elements of the base are not a prefix
  of those of the target.
\<close>

lemma Rel_rooted:
  assumes "IsAbs root" and "IsAbs full"
  shows "\<exists>r. Rel root full = Some r \<and>
    ((r = ''..'' \<or> HasPrefix r ''../'') \<longleftrightarrow>
      (\<nexists>es. path_elems (Clean full) = path_elems (Clean root) @ es))"
proof -
  obtain bs where bs: "\<forall>e \<in> set bs. proper e" "Clean root = sep # Join bs [sep]"
    using Clean_rooted [OF assms(1)] .
  obtain ts where ts: "\<forall>e \<in> set ts. proper e" "Clean full = sep # Join ts [sep]"
    using Clean_rooted [OF assms(2)] .
  have el: "path_elems (Clean root) = bs" "path_elems (Clean full) = ts"
    by (simp_all add: bs ts path_elems_Join)
  have abs: "IsAbs (Clean root)" "IsAbs (Clean full)" using assms IsAbs_Clean by auto
  have nd: "Clean root \<noteq> ''.''" by (simp add: bs)
  show ?thesis
  proof (cases "Clean full = Clean root")
    case True
    then show ?thesis by (simp add: Rel_def Let_def HasPrefix_def)
  next
    case False
    obtain b' t' where st: "strip_common bs ts = (b', t')" by (cases "strip_common bs ts")
    from strip_common_eq [OF st] obtain c where c: "bs = c @ b'" "ts = c @ t'"
      "b' = [] \<or> t' = [] \<or> hd b' \<noteq> hd t'" by blast
    have "b' = [] \<or> hd b' \<noteq> ''..''" using bs(1) c(1) by (cases b') (auto simp: proper_def)
    then have rel: "Rel root full = Some (Join (replicate (length b') ''..'' @ t') [sep])"
      using False abs nd st by (auto simp: Rel_def Let_def el)
    show ?thesis
    proof (cases b')
      case Nil
      have "t' \<noteq> []" using False c Nil bs(2) ts(2) by auto
      then obtain x xs where t': "t' = x # xs" by (cases t') auto
      have "Join t' [sep] \<noteq> ''..'' \<and> \<not> HasPrefix (Join t' [sep]) ''../''"
        using Join_proper_not_parent [of x xs] ts(1) c(2) t' by simp
      with rel Nil c show ?thesis by (auto simp: el)
    next
      case (Cons y ys)
      have "\<nexists>es. ts = bs @ es" using c Cons by (cases t') auto
      moreover have "Join (replicate (length b') ''..'' @ t') [sep] = ''..'' \<or>
          HasPrefix (Join (replicate (length b') ''..'' @ t') [sep]) ''../''"
        unfolding Cons using Join_parent [of "replicate (length ys) ''..'' @ t'"] by simp
      ultimately show ?thesis using rel by (simp add: el)
    qed
  qed
qed

end
