(* ===== verification/PXE.thy ===== *)
theory PXE
  imports Config Go_Path
begin

section \<open>The PXE/TFTP server (pkg/pxe)\<close>

text \<open>
  The TFTP server of \<open>pkg/pxe/pxe.go\<close>: its state, the RRQ parser, the resolution of a requested
  name to a file inside the TFTP root, option negotiation, the transfer with its retransmissions,
  and the reader loop with the detection of duplicate requests.

  What a socket read returns is a list of events, consumed from the front; when the list is used
  up, every further read runs into its deadline. The file system is a table of inodes, which may be
  different at every system call; \<open>filepath.EvalSymlinks\<close> and the lookup of the root directory are
  answers of the operating system and arguments of the definitions that use them. A file that has
  been opened is read until its end; a read of a regular file returns all bytes there are, up to
  the size of the buffer.
\<close>

subsection \<open>Constants and addresses\<close>

abbreviation tftpRRQ :: "16 word" where "tftpRRQ \<equiv> 1"
abbreviation tftpDATA :: byte where "tftpDATA \<equiv> 3"
abbreviation tftpACK :: "16 word" where "tftpACK \<equiv> 4"
abbreviation tftpERR :: "16 word" where "tftpERR \<equiv> 5"
abbreviation tftpOACK :: byte where "tftpOACK \<equiv> 6"

definition tftpBlockSize :: int where "tftpBlockSize = 512"

definition tftpRetries :: nat where "tftpRetries = 12"

record udp_addr =
  UDP_IP :: ip
  UDP_Port :: nat
  UDP_Zone :: string

definition dupAddr :: "udp_addr option \<Rightarrow> udp_addr option" where
  "dupAddr a = (case a of None \<Rightarrow> None
     | Some x \<Rightarrow> Some \<lparr>UDP_IP = UDP_IP x, UDP_Port = UDP_Port x, UDP_Zone = UDP_Zone x\<rparr>)"

definition sameAddr :: "udp_addr option \<Rightarrow> udp_addr option \<Rightarrow> bool" where
  "sameAddr a b =
     (case (a, b) of
        (Some x, Some y) \<Rightarrow> UDP_Port x = UDP_Port y \<and> UDP_IP x \<noteq> [] \<and> UDP_IP y \<noteq> [] \<and>
          IP_Equal (UDP_IP x) (UDP_IP y)
      | _ \<Rightarrow> False)"

text \<open>\<open>UDPAddr.String()\<close> of a client of an IPv4 socket.\<close>

definition UDPAddr_String :: "udp_addr \<Rightarrow> string" where
  "UDPAddr_String a = IPv4_String (To4 (UDP_IP a)) @ '':'' @ nat_str (UDP_Port a)"

definition pxe_normalizeMAC :: "string \<Rightarrow> string" where
  "pxe_normalizeMAC mac = ToLower (TrimSpace (ReplaceAll CHR ''-'' CHR '':'' mac))"

subsection \<open>Packets\<close>

text \<open>\<open>cstring\<close>: the string up to the first NUL and what follows it.\<close>

fun cstring_from :: "bytes \<Rightarrow> bytes \<Rightarrow> string \<times> bytes" where
  "cstring_from acc [] = ([], [])"
| "cstring_from acc (v # b) = (if v = 0 then (string_of_bytes (rev acc), b) else cstring_from (v # acc) b)"

definition cstring :: "bytes \<Rightarrow> string \<times> bytes" where
  "cstring b = cstring_from [] b"

lemma cstring_from_shorter: "b \<noteq> [] \<Longrightarrow> length (snd (cstring_from acc b)) < length b"
proof (induction b arbitrary: acc)
  case (Cons v b)
  then show ?case by (cases "b = []") (auto simp: less_Suc_eq)
qed simp

text \<open>The option loop of \<open>parseRRQ\<close>.\<close>

function parse_options :: "bytes \<Rightarrow> (string, string) gomap \<Rightarrow> (string, string) gomap" where
  "parse_options rest opts =
     (if rest = [] then opts
      else (let (key, r) = cstring rest; (val, r2) = cstring r
            in if key = [] then opts else parse_options r2 (gput (ToLower key) val opts)))"
  by pat_completeness auto
termination
proof (relation "measure (\<lambda>(rest, opts). length rest)", goal_cases)
  case (2 rest opts x key r y val r2)
  then have r: "r = snd (cstring_from [] rest)" "r2 = snd (cstring_from [] r)"
    by (metis cstring_def snd_conv)+
  have "length r < length rest"
    using 2 cstring_from_shorter [of rest "[]"] by (simp add: r)
  moreover have "length r2 \<le> length r"
    unfolding r(2) using cstring_from_shorter [of r "[]"] by (cases "r = []") auto
  ultimately show ?case by simp
qed simp

declare parse_options.simps [simp del]

definition parseRRQ :: "bytes \<Rightarrow> string \<times> string \<times> (string, string) gomap" where
  "parseRRQ pkt =
     (let (filename, rest) = cstring (drop 2 pkt); (mode, rest') = cstring rest
      in (filename, mode, parse_options rest' []))"

text \<open>The loop of \<open>sanitizeTFTPName\<close> from the last byte down.\<close>

definition printable :: "char \<Rightarrow> bool" where
  "printable c = (32 \<le> code_of c \<and> code_of c < 127)"

fun sanitize_from :: "string \<Rightarrow> nat \<Rightarrow> string" where
  "sanitize_from name 0 = []"
| "sanitize_from name (Suc i) =
     (if printable (name ! i) then take (Suc i) name else sanitize_from name i)"

definition sanitizeTFTPName :: "string \<Rightarrow> string" where
  "sanitizeTFTPName name = sanitize_from name (length name)"

definition option_pairs :: "(string, string) gomap \<Rightarrow> int \<Rightarrow> int \<Rightarrow> string list" where
  "option_pairs opts blockSize fileSize =
     (if glookup opts ''blksize'' \<noteq> None then [''blksize'', Itoa blockSize] else []) @
     (if glookup opts ''tsize'' \<noteq> None then [''tsize'', Itoa fileSize] else [])"

definition buildOACK :: "(string, string) gomap \<Rightarrow> int \<Rightarrow> int \<Rightarrow> bytes" where
  "buildOACK opts blockSize fileSize =
     (if opts = [] then []
      else (let pairs = option_pairs opts blockSize fileSize
            in if pairs = [] then []
               else [0, tftpOACK] @ concat (map (\<lambda>s. bytes_of_string s @ [0]) pairs)))"

definition sendERR_packet :: "16 word \<Rightarrow> string \<Rightarrow> bytes" where
  "sendERR_packet code msg =
     BigEndian_bytes16 tftpERR @ BigEndian_bytes16 code @ bytes_of_string msg @ [0]"

definition data_packet :: "16 word \<Rightarrow> bytes \<Rightarrow> bytes" where
  "data_packet block payload = [0, tftpDATA] @ BigEndian_bytes16 block @ payload"

subsection \<open>Server state\<close>

record transfer =
  tr_client :: "udp_addr option"
  tr_conn :: "nat option"
  tr_block1 :: "bytes option"
  tr_blockSize :: int
  tr_initial :: bool
  tr_once :: bool

text \<open>\<open>tr_initial\<close>: the channel is closed; \<open>tr_once\<close>: the \<open>sync.Once\<close> has run.\<close>

record pxe_server =
  pxe_cfg :: pxe_config
  pxe_handler :: "(string, string) gomap"
  pxe_active :: "(string, transfer) gomap"
  pxe_control :: bool

definition setReady :: "nat \<Rightarrow> bytes \<Rightarrow> int \<Rightarrow> transfer \<Rightarrow> transfer" where
  "setReady conn block1 blockSize t =
     (if tr_once t then t
      else t\<lparr>tr_conn := Some conn, tr_block1 := Some block1, tr_blockSize := blockSize,
             tr_initial := True, tr_once := True\<rparr>)"

definition abort :: "transfer \<Rightarrow> transfer" where
  "abort t = (if tr_once t then t else t\<lparr>tr_initial := True, tr_once := True\<rparr>)"

text \<open>
  \<open>resendBlock1\<close> on the state the transfer has when the wait ends: the socket and the datagram
  written, or nothing.
\<close>

definition resendBlock1 :: "transfer \<Rightarrow> (nat \<times> bytes) option" where
  "resendBlock1 t =
     (if \<not> tr_initial t then None
      else (case (tr_conn t, tr_block1 t) of (Some c, Some b) \<Rightarrow> Some (c, b) | _ \<Rightarrow> None))"

definition pxe_New :: "pxe_config \<Rightarrow> pxe_server" where
  "pxe_New cfg = \<lparr>pxe_cfg = cfg, pxe_handler = [], pxe_active = [], pxe_control = False\<rparr>"

definition SetDefaultImage :: "string \<Rightarrow> pxe_server \<Rightarrow> pxe_server" where
  "SetDefaultImage img s = s\<lparr>pxe_cfg := (pxe_cfg s)\<lparr>PXE_DefaultImage := img\<rparr>\<rparr>"

definition SetMacImages :: "string_map \<Rightarrow> pxe_server \<Rightarrow> pxe_server" where
  "SetMacImages m s = s\<lparr>pxe_handler := range_put gput pxe_normalizeMAC (entries m) []\<rparr>"

datatype pxe_error =
    MkdirFailed | ResolveFailed | ListenFailed
  | AbsolutePath string | EscapesRoot string | ResolveRootFailed | OpenFailed string
  | SymlinkEscapes string | RelFailed string | InvalidComponent string | OpenatFailed | EmptyPath

definition tftp_root :: "pxe_config \<Rightarrow> string" where
  "tftp_root cfg = (if PXE_TFTPRoot cfg = [] then ''/tmp/tftpboot'' else PXE_TFTPRoot cfg)"

text \<open>\<open>Start\<close>, over the outcome of the three system operations it needs.\<close>

definition pxe_Start ::
  "(string \<Rightarrow> bool) \<Rightarrow> (string \<Rightarrow> bool) \<Rightarrow> (string \<Rightarrow> string \<Rightarrow> bool) \<Rightarrow> pxe_server \<Rightarrow> pxe_error option \<times> pxe_server" where
  "pxe_Start mkdirAll resolveUDP listen s =
     (let cfg = pxe_cfg s;
          s1 = s\<lparr>pxe_handler := range_put gput pxe_normalizeMAC (entries (PXE_MacImages cfg)) []\<rparr>;
          addr = (if PXE_Listen cfg = [] then ''0.0.0.0:69'' else PXE_Listen cfg)
      in if \<not> PXE_Enabled cfg then (None, s1)
         else if \<not> mkdirAll (tftp_root cfg) then (Some MkdirFailed, s1)
         else if \<not> resolveUDP addr then (Some ResolveFailed, s1)
         else if \<not> listen addr (PXE_BindInterface cfg) then (Some ListenFailed, s1)
         else (None, s1\<lparr>pxe_control := True\<rparr>))"

subsection \<open>Resolving a request to a file\<close>

definition filenameToMAC :: "string \<Rightarrow> string" where
  "filenameToMAC name =
     (let base0 = ToLower (path_Base name);
          base1 = TrimSuffix base0 (path_Ext base0);
          base = TrimPrefix base1 ''01-''
      in if length base = 17 \<and> length (filter (\<lambda>c. c = CHR ''-'') base) = 5
         then ReplaceAll CHR ''-'' CHR '':'' base else [])"

definition resolveImage :: "pxe_server \<Rightarrow> string \<Rightarrow> string" where
  "resolveImage s filename =
     (let mac = filenameToMAC filename in
      if mac = [] then filename
      else
        (let img = (case glookup (pxe_handler s) (pxe_normalizeMAC mac) of
                      Some i \<Rightarrow> i
                    | None \<Rightarrow> if PXE_DefaultImage (pxe_cfg s) \<noteq> [] then PXE_DefaultImage (pxe_cfg s) else [])
         in if img \<noteq> [] then img else filename))"

definition pathWithinRoot :: "string \<Rightarrow> string \<Rightarrow> bool" where
  "pathWithinRoot root full =
     (case Rel root full of
        None \<Rightarrow> False
      | Some rel \<Rightarrow> rel \<noteq> ''..'' \<and> \<not> HasPrefix rel ''../'')"

definition resolvePath ::
  "(string \<Rightarrow> string option) \<Rightarrow> pxe_server \<Rightarrow> string \<Rightarrow> string \<Rightarrow> pxe_error + string \<times> string" where
  "resolvePath evalSymlinks s root filename =
     (let img = resolveImage s filename; full = path_Join root img in
      if IsAbs img then Inl (AbsolutePath img)
      else if \<not> pathWithinRoot root full then Inl (EscapesRoot img)
      else (case evalSymlinks root of
              None \<Rightarrow> Inl ResolveRootFailed
            | Some realRoot \<Rightarrow>
              (case evalSymlinks full of
                 None \<Rightarrow> Inl (OpenFailed img)
               | Some realFull \<Rightarrow>
                 if \<not> pathWithinRoot realRoot realFull then Inl (SymlinkEscapes img)
                 else (case Rel realRoot realFull of
                         None \<Rightarrow> Inl (RelFailed img)
                       | Some rel \<Rightarrow> Inr (realRoot, rel)))))"

text \<open>
  Inodes. \<open>openat\<close> with \<open>O_NOFOLLOW\<close> and, for all elements but the last, \<open>O_DIRECTORY\<close>. Sizes are
  those reported by \<open>Stat\<close>.
\<close>

datatype inode =
    Directory int "(string, nat) gomap" | RegularFile bytes | SymbolicLink string | SpecialFile int

type_synonym inodes = "nat \<Rightarrow> inode option"

definition openat :: "inodes \<Rightarrow> nat \<Rightarrow> string \<Rightarrow> bool \<Rightarrow> nat option" where
  "openat t dir part want_dir =
     (case t dir of
        Some (Directory _ es) \<Rightarrow>
          (case glookup es part of
             None \<Rightarrow> None
           | Some i \<Rightarrow>
             (case t i of
                None \<Rightarrow> None
              | Some (SymbolicLink _) \<Rightarrow> None
              | Some (Directory _ _) \<Rightarrow> Some i
              | Some _ \<Rightarrow> if want_dir then None else Some i))
      | _ \<Rightarrow> None)"

text \<open>The loop of \<open>openTFTPFile\<close>; the \<open>k\<close>-th call of \<open>openat\<close> sees the table \<open>fsys k\<close>.\<close>

fun open_parts :: "(nat \<Rightarrow> inodes) \<Rightarrow> nat \<Rightarrow> nat \<Rightarrow> string list \<Rightarrow> pxe_error + nat" where
  "open_parts fsys k dirfd [] = Inl EmptyPath"
| "open_parts fsys k dirfd (part # parts) =
     (if part = [] \<or> part = ''.'' \<or> part = ''..'' then Inl (InvalidComponent part)
      else (case openat (fsys k) dirfd part (parts \<noteq> []) of
              None \<Rightarrow> Inl OpenatFailed
            | Some fd \<Rightarrow> if parts = [] then Inr fd else open_parts fsys (Suc k) fd parts))"

definition openTFTPFile ::
  "(string \<Rightarrow> nat option) \<Rightarrow> (nat \<Rightarrow> inodes) \<Rightarrow> string \<Rightarrow> string \<Rightarrow> pxe_error + nat" where
  "openTFTPFile openDir fsys rootDir rel =
     (case openDir rootDir of
        None \<Rightarrow> Inl OpenatFailed
      | Some dirfd \<Rightarrow> open_parts fsys 0 dirfd (Split CHR ''/'' rel))"

subsection \<open>Sending with retransmission\<close>

datatype rx = Packet "udp_addr option" bytes | ReadTimeout | ReadError

datatype ack_result = Acked | AckTimeout | AckError

text \<open>\<open>waitForAck\<close>: the result and the events left.\<close>

fun waitForAck :: "udp_addr option \<Rightarrow> 16 word \<Rightarrow> rx list \<Rightarrow> ack_result \<times> rx list" where
  "waitForAck client block [] = (AckTimeout, [])"
| "waitForAck client block (ReadTimeout # es) = (AckTimeout, es)"
| "waitForAck client block (ReadError # es) = (AckError, es)"
| "waitForAck client block (Packet from b # es) =
     (if \<not> sameAddr from client then waitForAck client block es
      else if length b < 4 \<or> BigEndian_Uint16 (take 2 b) \<noteq> Some tftpACK then waitForAck client block es
      else if BigEndian_Uint16 (drop 2 b) = Some block then (Acked, es)
      else waitForAck client block es)"

text \<open>The socket of one transfer: what is still to be read and the datagrams written.\<close>

record net =
  net_rx :: "rx list"
  net_sent :: "bytes list"

datatype send_error = WriteFailed | ReadFailed | RetriesExhausted

text \<open>
  The retry loop that \<open>sendBlock\<close> and \<open>sendOACK\<close> share, with \<open>r\<close> rounds left. \<open>wfail n\<close> tells that
  the write after \<open>n\<close> datagrams fails.
\<close>

fun send_retry :: "nat \<Rightarrow> (nat \<Rightarrow> bool) \<Rightarrow> udp_addr option \<Rightarrow> bytes \<Rightarrow> 16 word \<Rightarrow> net \<Rightarrow> send_error option \<times> net" where
  "send_retry 0 wfail client pkt block n = (Some RetriesExhausted, n)"
| "send_retry (Suc r) wfail client pkt block n =
     (if wfail (length (net_sent n)) then (Some WriteFailed, n)
      else
        (let (ack, es) = waitForAck client block (net_rx n);
             n' = \<lparr>net_rx = es, net_sent = net_sent n @ [pkt]\<rparr>
         in case ack of
              Acked \<Rightarrow> (None, n')
            | AckTimeout \<Rightarrow> send_retry r wfail client pkt block n'
            | AckError \<Rightarrow> (Some ReadFailed, n')))"

definition sendBlock :: "(nat \<Rightarrow> bool) \<Rightarrow> udp_addr option \<Rightarrow> bytes \<Rightarrow> 16 word \<Rightarrow> net \<Rightarrow> send_error option \<times> net" where
  "sendBlock wfail client pkt block n = send_retry tftpRetries wfail client pkt block n"

definition sendOACK :: "(nat \<Rightarrow> bool) \<Rightarrow> udp_addr option \<Rightarrow> bytes \<Rightarrow> net \<Rightarrow> send_error option \<times> net" where
  "sendOACK wfail client oack n = send_retry tftpRetries wfail client oack 0 n"

subsection \<open>Serving a file\<close>

definition negotiate_blksize :: "nat \<Rightarrow> (string, string) gomap \<Rightarrow> int" where
  "negotiate_blksize w opts =
     (case glookup opts ''blksize'' of
        None \<Rightarrow> tftpBlockSize
      | Some bs \<Rightarrow>
        (case Atoi w bs of
           None \<Rightarrow> tftpBlockSize
         | Some req \<Rightarrow> if 0 < req then (if 1468 < req then 1468 else req) else tftpBlockSize))"

datatype serve_result =
    Completed nat | ReadAborted | SendAborted send_error | Refused "16 word" string

text \<open>
  The loop over the blocks of the file from the content \<open>rest\<close> that is still unread. \<open>rfail k\<close> tells
  that the read of the \<open>k\<close>-th block fails. \<open>None\<close> is a loop that does not end.
\<close>

partial_function (option) send_file ::
  "(nat \<Rightarrow> bool) \<Rightarrow> (nat \<Rightarrow> bool) \<Rightarrow> nat \<Rightarrow> int \<Rightarrow> bytes \<Rightarrow> 16 word \<Rightarrow> nat \<Rightarrow> transfer \<Rightarrow> net \<Rightarrow>
   (serve_result \<times> transfer \<times> net) option" where
  "send_file rfail wfail conn blockSize rest block k st n =
     (if rfail k then Some (ReadAborted, st, n)
      else
        (let payload = take (nat blockSize) rest;
             pkt = data_packet block payload;
             st' = (if block = 1 then setReady conn pkt blockSize st else st);
             r = sendBlock wfail (tr_client st') pkt block n
         in case fst r of
              Some e \<Rightarrow> Some (SendAborted e, st', snd r)
            | None \<Rightarrow>
              if int (length payload) < blockSize then Some (Completed (unat block), st', snd r)
              else send_file rfail wfail conn blockSize (drop (nat blockSize) rest) (block + 1)
                     (Suc k) st' (snd r)))"

definition inode_size :: "inode option \<Rightarrow> int" where
  "inode_size i = (case i of Some (RegularFile b) \<Rightarrow> int (length b) | Some (Directory n _) \<Rightarrow> n
     | Some (SpecialFile n) \<Rightarrow> n | _ \<Rightarrow> 0)"

definition inode_content :: "inode option \<Rightarrow> bytes option" where
  "inode_content i = (case i of Some (RegularFile b) \<Rightarrow> Some b | _ \<Rightarrow> None)"

text \<open>The transfer part of \<open>serveFile\<close>: options, then the blocks.\<close>

definition transfer_file ::
  "nat \<Rightarrow> (nat \<Rightarrow> bool) \<Rightarrow> (nat \<Rightarrow> bool) \<Rightarrow> nat \<Rightarrow> (string, string) gomap \<Rightarrow> inode option \<Rightarrow> transfer \<Rightarrow> net \<Rightarrow>
   (serve_result \<times> transfer \<times> net) option" where
  "transfer_file w rfail wfail conn opts ino st n =
     (let blockSize = negotiate_blksize w opts;
          oack = buildOACK opts blockSize (inode_size ino);
          r = (if oack \<noteq> [] then sendOACK wfail (tr_client st) oack n else (None, n));
          content = inode_content ino
      in case fst r of
           Some e \<Rightarrow> Some (SendAborted e, st, snd r)
         | None \<Rightarrow>
           send_file (\<lambda>k. rfail k \<or> content = None) wfail conn blockSize
             (case content of None \<Rightarrow> [] | Some b \<Rightarrow> b) 1 0 st (snd r))"

text \<open>
  \<open>serveFile\<close>. \<open>statOk\<close> and \<open>listenOk\<close> are the outcomes of \<open>Stat\<close> and of opening the transfer socket
  \<open>conn\<close>. \<open>Refused\<close> is the error packet written to the control socket. The deferred calls at the end
  are \<open>abort\<close> and the removal of the key.
\<close>

record tftp_world =
  w_int :: nat
  w_evalSymlinks :: "string \<Rightarrow> string option"
  w_openDir :: "string \<Rightarrow> nat option"
  w_fsys :: "nat \<Rightarrow> inodes"
  w_statOk :: "nat \<Rightarrow> bool"
  w_listen :: "nat option"
  w_rfail :: "nat \<Rightarrow> bool"
  w_wfail :: "nat \<Rightarrow> bool"

definition opened_inode :: "tftp_world \<Rightarrow> string \<Rightarrow> nat \<Rightarrow> inode option" where
  "opened_inode wd rel fd = w_fsys wd (length (Split CHR ''/'' rel) - 1) fd"

definition serveFile ::
  "tftp_world \<Rightarrow> pxe_server \<Rightarrow> string \<Rightarrow> string \<Rightarrow> (string, string) gomap \<Rightarrow> transfer \<Rightarrow> net \<Rightarrow>
   (serve_result \<times> transfer \<times> net) option" where
  "serveFile wd s root filename opts st n =
     (let refuse = (\<lambda>msg. Some (Refused 1 msg, abort st, n)) in
      case resolvePath (w_evalSymlinks wd) s root filename of
        Inl e \<Rightarrow> refuse ''File not found''
      | Inr (rootReal, rel) \<Rightarrow>
        (case openTFTPFile (w_openDir wd) (w_fsys wd) rootReal rel of
           Inl e \<Rightarrow> refuse ''File not found''
         | Inr fd \<Rightarrow>
           if \<not> w_statOk wd fd then refuse ''Server error''
           else (case w_listen wd of
                   None \<Rightarrow> refuse ''Server error''
                 | Some conn \<Rightarrow>
                   Option.bind (transfer_file (w_int wd) (w_rfail wd) (w_wfail wd) conn opts
                     (opened_inode wd rel fd) st n)
                     (\<lambda>(r, st', n'). Some (r, abort st', n')))))"

definition finish_transfer :: "string \<Rightarrow> pxe_server \<Rightarrow> pxe_server" where
  "finish_transfer key s = s\<lparr>pxe_active := gdelete key (pxe_active s)\<rparr>"

subsection \<open>The reader\<close>

datatype reader_action =
    Drop | ResendFirst string | StartTransfer string string "(string, string) gomap"

definition transfer_key :: "udp_addr \<Rightarrow> string \<Rightarrow> string" where
  "transfer_key client filename = UDPAddr_String client @ ''|'' @ filename"

definition new_transfer :: "udp_addr \<Rightarrow> transfer" where
  "new_transfer client = \<lparr>tr_client = dupAddr (Some client), tr_conn = None, tr_block1 = None,
     tr_blockSize = 0, tr_initial = False, tr_once = False\<rparr>"

text \<open>One packet read from the control socket.\<close>

definition reader_packet :: "udp_addr \<Rightarrow> bytes \<Rightarrow> pxe_server \<Rightarrow> pxe_server \<times> reader_action" where
  "reader_packet client pkt s =
     (if length pkt < 2 then (s, Drop)
      else if BigEndian_Uint16 (take 2 pkt) = Some tftpRRQ then
        (let (raw, mode, opts) = parseRRQ pkt; filename = sanitizeTFTPName raw;
             key = transfer_key client filename
         in if filename = [] then (s, Drop)
            else (case glookup (pxe_active s) key of
                    Some existing \<Rightarrow> (s, ResendFirst key)
                  | None \<Rightarrow> (s\<lparr>pxe_active := gput key (new_transfer client) (pxe_active s)\<rparr>,
                             StartTransfer key filename opts)))
      else (s, Drop))"

definition listenTransfer_addr :: "(string \<Rightarrow> ip option) \<Rightarrow> pxe_server \<Rightarrow> udp_addr \<times> string" where
  "listenTransfer_addr ifaceIPv4 s =
     (let ifc = PXE_BindInterface (pxe_cfg s);
          any = v4InV6Prefix @ [0, 0, 0, 0]
      in (\<lparr>UDP_IP = (if ifc \<noteq> [] then (case ifaceIPv4 ifc of None \<Rightarrow> any | Some a \<Rightarrow> a) else any),
           UDP_Port = 0, UDP_Zone = []\<rparr>, ifc))"

end
