(* ===== verification/PXE_Transfer.thy ===== *)
theory PXE_Transfer
  imports PXE
begin

section \<open>Correctness of TFTP transfers\<close>

text \<open>
  The transfer of \<open>pkg/pxe\<close> against a receiver written from RFC 1350: every transfer ends, a
  completed one has delivered the file, block numbers wrap around after 65535, a client that
  answers within the retries gets the whole file, and packets of other hosts have no influence.
\<close>

subsection \<open>The reference receiver\<close>

text \<open>
  A TFTP client: it accepts the DATA packet with the block number it expects, ignores everything
  else, and stops after a payload shorter than the block size.
\<close>

definition decode_data :: "bytes \<Rightarrow> (16 word \<times> bytes) option" where
  "decode_data pkt =
     (if 4 \<le> length pkt \<and> take 2 pkt = [0, tftpDATA]
      then (case BigEndian_Uint16 (drop 2 pkt) of None \<Rightarrow> None | Some b \<Rightarrow> Some (b, drop 4 pkt))
      else None)"

type_synonym receiver = "16 word \<times> bytes \<times> bool"

definition receive :: "nat \<Rightarrow> bytes \<Rightarrow> receiver \<Rightarrow> receiver" where
  "receive bs pkt = (\<lambda>(expct, got, stop).
     if stop then (expct, got, stop)
     else (case decode_data pkt of
             None \<Rightarrow> (expct, got, stop)
           | Some (b, payload) \<Rightarrow>
             if b = expct then (expct + 1, got @ payload, length payload < bs)
             else (expct, got, stop)))"

definition receive_all :: "nat \<Rightarrow> bytes list \<Rightarrow> receiver \<Rightarrow> receiver" where
  "receive_all bs pkts r = fold (receive bs) pkts r"

lemma receive_all_append [simp]:
  "receive_all bs (p @ q) r = receive_all bs q (receive_all bs p r)"
  by (simp add: receive_all_def)

lemma length_bytes16 [simp]: "length (BigEndian_bytes16 b) = 2"
  by (simp add: BigEndian_bytes16_def)

lemma decode_data_packet [simp]: "decode_data (data_packet b p) = Some (b, p)"
  by (simp add: decode_data_def data_packet_def)

lemma receive_data: "receive bs (data_packet b p) (b, got, False) = (b + 1, got @ p, length p < bs)"
  by (simp add: receive_def)

lemma receive_again: "receive bs (data_packet b p) (b + 1, got, stop) = (b + 1, got, stop)"
  by (simp add: receive_def)

text \<open>Retransmissions of a block change nothing after the first copy.\<close>

lemma receive_replicate:
  assumes "0 < k"
  shows "receive_all bs (replicate k (data_packet b p)) (b, got, False) =
    (b + 1, got @ p, length p < bs)"
proof -
  obtain j where k: "k = Suc j" using assms by (cases k) auto
  have "receive_all bs (replicate j (data_packet b p)) (b + 1, g, s) = (b + 1, g, s)" for g s
    by (induction j) (auto simp: receive_all_def receive_again)
  then show ?thesis by (simp add: k receive_all_def receive_data)
qed

subsection \<open>Blocks of a file\<close>

function chunks :: "nat \<Rightarrow> bytes \<Rightarrow> bytes list" where
  "chunks bs c = (if bs = 0 \<or> length c < bs then [c] else take bs c # chunks bs (drop bs c))"
  by pat_completeness auto
termination
  by (relation "measure (\<lambda>(bs, c). length c)") auto

declare chunks.simps [simp del]

fun number_blocks :: "16 word \<Rightarrow> bytes list \<Rightarrow> bytes list" where
  "number_blocks b [] = []"
| "number_blocks b (p # ps) = data_packet b p # number_blocks (b + 1) ps"

lemma length_number_blocks [simp]: "length (number_blocks b ps) = length ps"
  by (induction b ps rule: number_blocks.induct) auto

lemma chunks_nonempty [simp]: "chunks bs c \<noteq> []"
  by (subst chunks.simps) simp

definition resent :: "nat list \<Rightarrow> bytes list \<Rightarrow> bytes list" where
  "resent ks pkts = concat (map2 replicate ks pkts)"

text \<open>Whatever the number of copies of each block, the receiver ends with the file.\<close>

lemma receive_chunks:
  assumes "0 < bs" and "length ks = length (chunks bs c)" and "\<forall>k \<in> set ks. 0 < k"
  shows "\<exists>e. receive_all bs (resent ks (number_blocks b (chunks bs c))) (b, got, False) = (e, got @ c, True)"
  using assms
proof (induction bs c arbitrary: ks b got rule: chunks.induct)
  case (1 bs c)
  then obtain k ks' where ks: "ks = k # ks'" by (cases ks) auto
  show ?case
  proof (cases "length c < bs")
    case True
    with 1 ks show ?thesis
      by (simp add: chunks.simps [of bs c] resent_def receive_replicate)
  next
    case False
    have ch: "chunks bs c = take bs c # chunks bs (drop bs c)"
      using 1(2) False by (subst chunks.simps) simp
    from 1(1) [of ks' "b + 1" "got @ take bs c"] 1(2-4) False obtain e where
      "receive_all bs (resent ks' (number_blocks (b + 1) (chunks bs (drop bs c))))
        (b + 1, got @ take bs c, False) = (e, got @ c, True)"
      by (auto simp: ks ch)
    moreover have "0 < k" using 1(4) by (simp add: ks)
    ultimately show ?thesis
      using False by (simp add: ks ch resent_def receive_replicate)
  qed
qed

subsection \<open>One datagram with retransmission\<close>

lemma send_retry_sent:
  assumes "send_retry r wfail client pkt block n = (err, n')"
  shows "\<exists>k \<le> r. net_sent n' = net_sent n @ replicate k pkt \<and> (err = None \<longrightarrow> 0 < k)"
  using assms
proof (induction r wfail client pkt block n rule: send_retry.induct)
  case (2 r wfail client pkt block n)
  obtain ack es where w: "waitForAck client block (net_rx n) = (ack, es)"
    by (cases "waitForAck client block (net_rx n)")
  let ?n' = "\<lparr>net_rx = es, net_sent = net_sent n @ [pkt]\<rparr>"
  show ?case
  proof (cases "wfail (length (net_sent n))")
    case True
    with 2 show ?thesis by auto
  next
    case False
    show ?thesis
    proof (cases ack)
      case Acked
      with 2(2) False w show ?thesis by (intro exI [of _ 1]) auto
    next
      case AckTimeout
      with 2(2) False w have "send_retry r wfail client pkt block ?n' = (err, n')" by simp
      from 2(1) [OF False w [symmetric] refl refl AckTimeout this] obtain k where
        "k \<le> r" "net_sent n' = net_sent ?n' @ replicate k pkt" by auto
      then show ?thesis by (intro exI [of _ "Suc k"]) simp
    next
      case AckError
      with 2(2) False w show ?thesis by (intro exI [of _ 1]) auto
    qed
  qed
qed auto

lemma sendBlock_sent:
  assumes "sendBlock wfail client pkt block n = (err, n')"
  shows "\<exists>k \<le> 12. net_sent n' = net_sent n @ replicate k pkt \<and> (err = None \<longrightarrow> 0 < k)"
  using send_retry_sent [OF assms [unfolded sendBlock_def]] by (simp add: tftpRetries_def)

lemma tr_client_setReady [simp]: "tr_client (setReady conn b bs st) = tr_client st"
  by (simp add: setReady_def)

subsection \<open>A whole file\<close>

text \<open>One round of the loop, with its parts named.\<close>

lemma send_file_step:
  fixes conn :: nat
  assumes r: "sendBlock wfail (tr_client st) (data_packet block (take (nat bs) rest)) block n = (err, n1)"
  defines "st' \<equiv> (if block = 1 then setReady conn (data_packet block (take (nat bs) rest)) bs st else st)"
  shows "send_file rfail wfail conn bs rest block k st n =
    (if rfail k then Some (ReadAborted, st, n)
     else case err of
       Some e \<Rightarrow> Some (SendAborted e, st', n1)
     | None \<Rightarrow> if int (length (take (nat bs) rest)) < bs then Some (Completed (unat block), st', n1)
               else send_file rfail wfail conn bs (drop (nat bs) rest) (block + 1) (Suc k) st' n1)"
proof -
  have c: "tr_client (if block = 1 then setReady conn (data_packet block (take (nat bs) rest)) bs st else st) =
      tr_client st" by simp
  show ?thesis
    by (subst send_file.simps) (simp only: Let_def c r fst_conv snd_conv st'_def)
qed

text \<open>
  Every transfer returns; a completed one has sent the blocks of the file in order, each one to
  twelve times; an aborted one a part of that.
\<close>

text \<open>What a run of the loop sends: a number of copies of each block from the start, at least one of each when it completes.\<close>

definition sent_blocks :: "bytes list \<Rightarrow> 16 word \<Rightarrow> net \<Rightarrow> net \<Rightarrow> bool \<Rightarrow> bool" where
  "sent_blocks cs block n n' completed \<longleftrightarrow>
     (\<exists>ks. length ks \<le> length cs \<and> (\<forall>k \<in> set ks. k \<le> 12) \<and> net_sent n' = net_sent n @ resent ks (number_blocks block cs) \<and>
       (completed \<longrightarrow> length ks = length cs \<and> (\<forall>k \<in> set ks. 0 < k)))"

lemma sent_none: "sent_blocks cs block n n False"
  unfolding sent_blocks_def by (rule exI [of _ "[]"]) (simp add: resent_def)

lemma sent_first:
  assumes "j \<le> 12" and "net_sent n' = net_sent n @ replicate j (data_packet block p)" and "completed \<longrightarrow> 0 < j \<and> cs = []"
  shows "sent_blocks (p # cs) block n n' completed"
  unfolding sent_blocks_def using assms by (intro exI [of _ "[j]"]) (auto simp: resent_def)

lemma sent_next:
  assumes "j \<le> 12" and "net_sent n1 = net_sent n @ replicate j (data_packet block p)" and "0 < j"
    and "sent_blocks cs (block + 1) n1 n' completed"
  shows "sent_blocks (p # cs) block n n' completed"
proof -
  from assms(4) obtain ks where ks: "length ks \<le> length cs" "\<forall>k \<in> set ks. k \<le> 12"
    "net_sent n' = net_sent n1 @ resent ks (number_blocks (block + 1) cs)"
    "completed \<longrightarrow> length ks = length cs \<and> (\<forall>k \<in> set ks. 0 < k)"
    unfolding sent_blocks_def by blast
  show ?thesis
    unfolding sent_blocks_def using ks assms(1-3) by (intro exI [of _ "j # ks"]) (auto simp: resent_def)
qed

lemma send_file_sent:
  assumes "0 < bs"
  shows "\<exists>res st' n'. send_file rfail wfail conn bs rest block k st n = Some (res, st', n') \<and>
    sent_blocks (chunks (nat bs) rest) block n n' (\<exists>m. res = Completed m)"
  using assms
proof (induction "nat bs" rest arbitrary: block k st n rule: chunks.induct)
  case (1 rest)
  let ?p = "take (nat bs) rest" and ?c = "chunks (nat bs) rest"
  let ?st = "if block = 1 then setReady conn (data_packet block ?p) bs st else st"
  obtain err n1 where r: "sendBlock wfail (tr_client st) (data_packet block ?p) block n = (err, n1)"
    by (cases "sendBlock wfail (tr_client st) (data_packet block ?p) block n")
  note step = send_file_step [OF r]
  obtain j where j: "j \<le> 12" "net_sent n1 = net_sent n @ replicate j (data_packet block ?p)"
    "err = None \<longrightarrow> 0 < j" using sendBlock_sent [OF r] by blast
  have ch: "?c = ?p # (if length rest < nat bs then [] else chunks (nat bs) (drop (nat bs) rest))"
    using 1(2) by (subst chunks.simps) simp
  consider "rfail k" | e where "\<not> rfail k" "err = Some e"
    | "\<not> rfail k" "err = None" "length rest < nat bs"
    | "\<not> rfail k" "err = None" "\<not> length rest < nat bs" by (cases err) auto
  then show ?case
  proof cases
    case 1
    then show ?thesis using sent_none by (simp add: step)
  next
    case (2 e)
    then show ?thesis unfolding ch using sent_first [OF j(1,2)] by (simp add: step)
  next
    case 3
    then have "int (length ?p) < bs" by simp
    with 3 j(3) show ?thesis unfolding ch using sent_first [OF j(1,2)] by (simp add: step)
  next
    case nf: 4
    from 1(1) [of "block + 1" "Suc k" ?st n1] nf 1(2) obtain res st' n' where
      rec: "send_file rfail wfail conn bs (drop (nat bs) rest) (block + 1) (Suc k) ?st n1 = Some (res, st', n')"
      "sent_blocks (chunks (nat bs) (drop (nat bs) rest)) (block + 1) n1 n' (\<exists>m. res = Completed m)" by auto
    have "send_file rfail wfail conn bs rest block k st n = Some (res, st', n')"
      using nf rec(1) 1(2) by (simp add: step)
    moreover have "sent_blocks ?c block n n' (\<exists>m. res = Completed m)"
      unfolding ch using sent_next [OF j(1,2) _ rec(2)] j(3) nf by simp
    ultimately show ?thesis by blast
  qed
qed

lemma send_file_result:
  assumes "0 < bs"
  shows "\<exists>res st' n'. send_file rfail wfail conn bs rest block k st n = Some (res, st', n') \<and>
    (\<exists>ks. length ks \<le> length (chunks (nat bs) rest) \<and> (\<forall>k \<in> set ks. k \<le> 12) \<and>
       net_sent n' = net_sent n @ resent ks (number_blocks block (chunks (nat bs) rest)) \<and>
       (\<forall>m. res = Completed m \<longrightarrow> length ks = length (chunks (nat bs) rest) \<and> (\<forall>k \<in> set ks. 0 < k)))"
  using send_file_sent [OF assms, of rfail wfail conn rest block k st n] unfolding sent_blocks_def by blast

lemma negotiate_blksize_bounds: "1 \<le> negotiate_blksize w opts" "negotiate_blksize w opts \<le> 1468"
  by (auto simp: negotiate_blksize_def tftpBlockSize_def split: option.splits)

lemma buildOACK_opcode: "buildOACK opts bs sz \<noteq> [] \<Longrightarrow> take 2 (buildOACK opts bs sz) = [0, tftpOACK]"
  by (auto simp: buildOACK_def Let_def split: if_splits)

lemma receive_oack: "receive_all bs (replicate k (buildOACK opts b sz)) r = r"
proof -
  have "decode_data (buildOACK opts b sz) = None"
    using buildOACK_opcode [of opts b sz] by (cases "buildOACK opts b sz = []") (auto simp: decode_data_def)
  then have "receive bs (buildOACK opts b sz) r = r" for r
    by (simp add: receive_def split: prod.split)
  then show ?thesis by (induction k) (simp_all add: receive_all_def)
qed

text \<open>What \<open>transfer_file\<close> does before the first block.\<close>

lemma transfer_file_cases:
  obtains (oack_failed) e n1 where "transfer_file w rfail wfail conn opts ino st n = Some (SendAborted e, st, n1)"
    "\<exists>k. k \<le> 12 \<and> net_sent n1 = net_sent n @
       replicate k (buildOACK opts (negotiate_blksize w opts) (inode_size ino))"
  | (data) n1 where "transfer_file w rfail wfail conn opts ino st n =
        send_file (\<lambda>k. rfail k \<or> inode_content ino = None) wfail conn (negotiate_blksize w opts)
          (case inode_content ino of None \<Rightarrow> [] | Some b \<Rightarrow> b) 1 0 st n1"
      "\<exists>k. k \<le> 12 \<and> net_sent n1 = net_sent n @
         replicate k (buildOACK opts (negotiate_blksize w opts) (inode_size ino))"
proof -
  let ?o = "buildOACK opts (negotiate_blksize w opts) (inode_size ino)"
  show ?thesis
  proof (cases "?o = []")
    case True
    show ?thesis
      by (rule data [of n]) (auto simp: transfer_file_def True Let_def intro: exI [of _ 0])
  next
    case False
    obtain err n1 where r: "sendOACK wfail (tr_client st) ?o n = (err, n1)"
      by (cases "sendOACK wfail (tr_client st) ?o n")
    from send_retry_sent [OF r [unfolded sendOACK_def]] have k: "\<exists>k. k \<le> 12 \<and> net_sent n1 = net_sent n @ replicate k ?o"
      by (auto simp: tftpRetries_def)
    show ?thesis
    proof (cases err)
      case None
      with r False k show ?thesis by (intro data [of n1]) (simp_all add: transfer_file_def Let_def)
    next
      case (Some e)
      with r False k show ?thesis by (intro oack_failed [of e n1]) (simp_all add: transfer_file_def Let_def)
    qed
  qed
qed

text \<open>
  C10: Every transfer returns, whatever the network delivers and whatever the client asked for. If
  it completes, then an RFC 1350 receiver that is given the datagrams sent, retransmissions and
  option acknowledgments included, has received exactly the content of the file and knows that it
  is complete. Block numbers may wrap around: the file can have any length.
\<close>

theorem transfer_integrity:
  "\<exists>res st' n'. transfer_file w rfail wfail conn opts (Some (RegularFile content)) st
      \<lparr>net_rx = es, net_sent = []\<rparr> = Some (res, st', n') \<and>
    ((\<exists>m. res = Completed m) \<longrightarrow>
      (\<exists>e. receive_all (nat (negotiate_blksize w opts)) (net_sent n') (1, [], False) = (e, content, True)))"
proof (cases rule: transfer_file_cases [of w rfail wfail conn opts "Some (RegularFile content)" st
      "\<lparr>net_rx = es, net_sent = []\<rparr>"])
  case (oack_failed e n1)
  then show ?thesis by simp
next
  case (data n1)
  let ?bs = "negotiate_blksize w opts"
  have bs: "0 < ?bs" using negotiate_blksize_bounds(1) [of w opts] by linarith
  from send_file_result [OF bs, of rfail wfail conn content 1 0 st n1] obtain res st' n' ks where
    sf: "send_file rfail wfail conn ?bs content 1 0 st n1 = Some (res, st', n')"
    "net_sent n' = net_sent n1 @ resent ks (number_blocks 1 (chunks (nat ?bs) content))"
    "\<forall>m. res = Completed m \<longrightarrow> length ks = length (chunks (nat ?bs) content) \<and> (\<forall>k \<in> set ks. 0 < k)"
    by blast
  have "\<exists>e. receive_all (nat ?bs) (net_sent n') (1, [], False) = (e, content, True)" if "res = Completed m" for m
  proof -
    from that sf(3) have "length ks = length (chunks (nat ?bs) content)" "\<forall>k \<in> set ks. 0 < k" by auto
    from receive_chunks [OF _ this, of 1 "[]"] bs obtain e where
      "receive_all (nat ?bs) (resent ks (number_blocks 1 (chunks (nat ?bs) content))) (1, [], False) = (e, content, True)"
      by auto
    then show ?thesis using data(2) by (auto simp: sf(2) receive_oack)
  qed
  with data(1) sf(1) show ?thesis by (auto simp: inode_content_def)
qed

text \<open>
  A concrete transfer of three bytes to a client that asked for two-byte blocks, used by the
  witnesses.
\<close>

definition demo_client :: "udp_addr option" where
  "demo_client = Some \<lparr>UDP_IP = [10, 0, 0, 7], UDP_Port = 2000, UDP_Zone = []\<rparr>"

definition ack_packet :: "16 word \<Rightarrow> bytes" where
  "ack_packet b = BigEndian_bytes16 tftpACK @ BigEndian_bytes16 b"

definition demo_transfer :: transfer where
  "demo_transfer = \<lparr>tr_client = demo_client, tr_conn = None, tr_block1 = None, tr_blockSize = 0,
     tr_initial = False, tr_once = False\<rparr>"

subsection \<open>Clients that answer\<close>

lemma Uint16_take2 [simp]: "BigEndian_Uint16 (take 2 (BigEndian_bytes16 x @ r)) = Some x"
  using Uint16_bytes16 [of x "[]"] by simp

lemma waitForAck_ack:
  assumes "sameAddr src client"
  shows "waitForAck client b (Packet src (ack_packet b) # es) = (Acked, es)"
  using assms Uint16_bytes16 [of b "[]"] Uint16_bytes16 [of 4 "[]"] by (simp add: ack_packet_def)

text \<open>The client is silent for \<open>j\<close> rounds and then acknowledges block \<open>b\<close>.\<close>

definition answer :: "udp_addr option \<Rightarrow> 16 word \<Rightarrow> nat \<Rightarrow> rx list" where
  "answer src b j = replicate j ReadTimeout @ [Packet src (ack_packet b)]"

lemma send_retry_answer:
  assumes "sameAddr src client" and "j < r" and "\<And>i. \<not> wfail i" and "net_rx n = answer src b j @ es"
  shows "send_retry r wfail client pkt b n =
    (None, \<lparr>net_rx = es, net_sent = net_sent n @ replicate (Suc j) pkt\<rparr>)"
  using assms
proof (induction j arbitrary: r n)
  case 0
  then obtain r' where "r = Suc r'" by (cases r) auto
  with 0 waitForAck_ack [OF 0(1)] show ?case
    by (simp add: answer_def del: waitForAck.simps)
next
  case (Suc j)
  then obtain r' where r: "r = Suc r'" by (cases r) auto
  with Suc.IH [of r' "\<lparr>net_rx = answer src b j @ es, net_sent = net_sent n @ [pkt]\<rparr>"] Suc.prems
  show ?case by (simp add: answer_def)
qed

fun answers :: "udp_addr option \<Rightarrow> 16 word \<Rightarrow> nat list \<Rightarrow> rx list" where
  "answers src b [] = []"
| "answers src b (j # js) = answer src b j @ answers src (b + 1) js"

lemma send_file_answers:
  assumes "0 < bs" and "sameAddr src (tr_client st)" and "\<And>i. \<not> wfail i" and "\<And>i. \<not> rfail i"
    and "length js = length (chunks (nat bs) rest)" and "\<forall>j \<in> set js. j < 12"
    and "net_rx n = answers src block js"
  shows "\<exists>m st' n'. send_file rfail wfail conn bs rest block k st n = Some (Completed m, st', n')"
  using assms
proof (induction "nat bs" rest arbitrary: block k st n js rule: chunks.induct)
  case (1 rest)
  let ?p = "take (nat bs) rest"
  let ?st = "if block = 1 then setReady conn (data_packet block ?p) bs st else st"
  from 1(6) obtain j js' where js: "js = j # js'" by (cases js) auto
  let ?n = "\<lparr>net_rx = answers src (block + 1) js',
    net_sent = net_sent n @ replicate (Suc j) (data_packet block ?p)\<rparr>"
  have r: "sendBlock wfail (tr_client st) (data_packet block ?p) block n = (None, ?n)"
    unfolding sendBlock_def tftpRetries_def
    using 1 by (intro send_retry_answer [where src = src]) (auto simp: js)
  note step = send_file_step [OF r, of rfail conn k]
  show ?case
  proof (cases "length rest < nat bs")
    case True
    then have "int (length ?p) < bs" by simp
    with True 1(5) show ?thesis by (simp add: step)
  next
    case False
    then have nl: "\<not> int (length ?p) < bs" by simp
    have ch: "chunks (nat bs) rest = ?p # chunks (nat bs) (drop (nat bs) rest)"
      using False 1(2) by (subst chunks.simps) simp
    have "\<exists>m st' n'. send_file rfail wfail conn bs (drop (nat bs) rest) (block + 1) (Suc k) ?st ?n = Some (Completed m, st', n')"
      using 1(2-8) False js ch by (intro 1(1) [of ?st js' ?n]) auto
    with nl 1(5) show ?thesis by (simp add: step)
  qed
qed

lemma transfer_answered:
  assumes "sameAddr src (tr_client st)" and "\<And>i. \<not> wfail i" and "\<And>i. \<not> rfail i"
    and "length js = length (chunks (nat (negotiate_blksize w opts)) content)" and "\<forall>j \<in> set js. j < 12"
    and "j0 < 12"
    and "net_rx n = (if buildOACK opts (negotiate_blksize w opts) (int (length content)) = [] then []
       else answer src 0 j0) @ answers src 1 js"
  shows "\<exists>m st' n'. transfer_file w rfail wfail conn opts (Some (RegularFile content)) st n =
    Some (Completed m, st', n')"
proof -
  let ?bs = "negotiate_blksize w opts"
  let ?o = "buildOACK opts ?bs (int (length content))"
  have bs: "0 < ?bs" using negotiate_blksize_bounds(1) [of w opts] by linarith
  define n1 where "n1 = (if ?o = [] then n else \<lparr>net_rx = answers src 1 js,
      net_sent = net_sent n @ replicate (Suc j0) ?o\<rparr>)"
  have "sendOACK wfail (tr_client st) ?o n = (None, n1)" if "?o \<noteq> []"
    unfolding sendOACK_def tftpRetries_def n1_def
    using send_retry_answer [OF assms(1) assms(6), of wfail n 0 "answers src 1 js" ?o] assms(2,7) that
    by simp
  then have "transfer_file w rfail wfail conn opts (Some (RegularFile content)) st n =
      send_file rfail wfail conn ?bs content 1 0 st n1"
    by (simp add: transfer_file_def Let_def inode_size_def inode_content_def n1_def)
  moreover have "net_rx n1 = answers src 1 js" using assms(7) by (simp add: n1_def)
  note send_file_answers [OF bs assms(1-5) this]
  ultimately show ?thesis by simp
qed

text \<open>
  C12: A client that answers every datagram within the twelve attempts gets the whole file: the
  transfer completes, for every file and every set of requested options.
\<close>

theorem transfer_completes:
  assumes "sameAddr src (tr_client st)"
    and "length js = length (chunks (nat (negotiate_blksize w opts)) content)" and "\<forall>j \<in> set js. j < 12"
    and "j0 < 12"
    and "net_rx n = (if buildOACK opts (negotiate_blksize w opts) (int (length content)) = [] then []
       else answer src 0 j0) @ answers src 1 js"
  shows "\<exists>m st' n'. transfer_file w (\<lambda>_. False) (\<lambda>_. False) conn opts (Some (RegularFile content)) st n =
    Some (Completed m, st', n')"
  using assms transfer_answered [of src st "\<lambda>_. False" "\<lambda>_. False" js w opts content j0 n conn] by blast

definition demo_rx :: "rx list" where
  "demo_rx = answer demo_client 0 1 @ answers demo_client 1 [0, 3]"

lemma demo_negotiated: "negotiate_blksize 32 [(''blksize'', ''2'')] = 2"
  by code_simp

lemma demo_chunks: "length [0 :: nat, 3] = length (chunks (nat (negotiate_blksize 32 [(''blksize'', ''2'')])) [7, 8, 9])"
  by (simp add: demo_negotiated chunks.simps)

lemma demo_oack: "buildOACK [(''blksize'', ''2'')] (negotiate_blksize 32 [(''blksize'', ''2'')]) (int (length [7 :: byte, 8, 9])) \<noteq> []"
  by (simp add: buildOACK_def Let_def option_pairs_def)

lemma demo_same: "sameAddr demo_client (tr_client demo_transfer)"
  by (simp add: sameAddr_def demo_client_def demo_transfer_def)

theorem transfer_completes_witness:
  "\<exists>m st' n'. transfer_file 32 (\<lambda>_. False) (\<lambda>_. False) 5 [(''blksize'', ''2'')]
     (Some (RegularFile [7, 8, 9])) demo_transfer \<lparr>net_rx = demo_rx, net_sent = []\<rparr> = Some (Completed m, st', n')"
  by (rule transfer_completes [OF demo_same demo_chunks, where ?j0.0 = 1], simp, simp)
     (simp only: net.simps demo_rx_def demo_oack if_False)

theorem transfer_integrity_witness:
  "\<exists>m st' n' e. transfer_file 32 (\<lambda>_. False) (\<lambda>_. False) 5 [(''blksize'', ''2'')]
     (Some (RegularFile [7, 8, 9])) demo_transfer \<lparr>net_rx = demo_rx, net_sent = []\<rparr> = Some (Completed m, st', n') \<and>
   receive_all (nat (negotiate_blksize 32 [(''blksize'', ''2'')])) (net_sent n') (1, [], False) = (e, [7, 8, 9], True)"
proof -
  obtain m st' n' where t: "transfer_file 32 (\<lambda>_. False) (\<lambda>_. False) 5 [(''blksize'', ''2'')]
     (Some (RegularFile [7, 8, 9])) demo_transfer \<lparr>net_rx = demo_rx, net_sent = []\<rparr> = Some (Completed m, st', n')"
    using transfer_answered [OF demo_same, of "\<lambda>_. False" "\<lambda>_. False" "[0, 3]" 32 "[(''blksize'', ''2'')]"
        "[7, 8, 9]" 1 "\<lparr>net_rx = demo_rx, net_sent = []\<rparr>" 5] demo_chunks demo_oack
    by (auto simp: demo_rx_def)
  from transfer_integrity [of 32 "\<lambda>_. False" "\<lambda>_. False" 5 "[(''blksize'', ''2'')]" "[7, 8, 9]" demo_transfer demo_rx]
  show ?thesis unfolding t by auto
qed

subsection \<open>Packets of other hosts\<close>

definition from_client :: "udp_addr option \<Rightarrow> rx \<Rightarrow> bool" where
  "from_client client e = (case e of Packet src b \<Rightarrow> sameAddr src client | _ \<Rightarrow> True)"

definition only_client :: "udp_addr option \<Rightarrow> net \<Rightarrow> net" where
  "only_client client n = n\<lparr>net_rx := filter (from_client client) (net_rx n)\<rparr>"

lemma waitForAck_filter:
  "waitForAck client block (filter (from_client client) es) =
     (fst (waitForAck client block es), filter (from_client client) (snd (waitForAck client block es)))"
  by (induction client block es rule: waitForAck.induct) (auto simp: from_client_def)

lemma send_retry_filter:
  "send_retry r wfail client pkt block (only_client client n) =
     (fst (send_retry r wfail client pkt block n), only_client client (snd (send_retry r wfail client pkt block n)))"
proof (induction r arbitrary: n)
  case (Suc r)
  obtain ack es where w: "waitForAck client block (net_rx n) = (ack, es)"
    by (cases "waitForAck client block (net_rx n)")
  then have "waitForAck client block (net_rx (only_client client n)) = (ack, filter (from_client client) es)"
    by (simp add: only_client_def waitForAck_filter)
  moreover have "\<lparr>net_rx = filter (from_client client) es, net_sent = s\<rparr> = only_client client \<lparr>net_rx = es, net_sent = s\<rparr>" for s
    by (simp add: only_client_def)
  moreover have "net_sent (only_client client n) = net_sent n" by (simp add: only_client_def)
  ultimately show ?case
    using w Suc [of "\<lparr>net_rx = es, net_sent = net_sent n @ [pkt]\<rparr>"]
    by (simp add: Let_def split: ack_result.split)
qed simp

lemma send_file_filter:
  assumes "0 < bs"
  shows "send_file rfail wfail conn bs rest block k st (only_client (tr_client st) n) =
    map_option (\<lambda>(r, st', n'). (r, st', only_client (tr_client st) n'))
      (send_file rfail wfail conn bs rest block k st n)"
  using assms
proof (induction "nat bs" rest arbitrary: block k st n rule: chunks.induct)
  case (1 rest)
  let ?p = "take (nat bs) rest"
  let ?st = "if block = 1 then setReady conn (data_packet block ?p) bs st else st"
  obtain err n1 where r: "sendBlock wfail (tr_client st) (data_packet block ?p) block n = (err, n1)"
    by (cases "sendBlock wfail (tr_client st) (data_packet block ?p) block n")
  then have r': "sendBlock wfail (tr_client st) (data_packet block ?p) block (only_client (tr_client st) n) =
      (err, only_client (tr_client st) n1)"
    by (simp add: sendBlock_def send_retry_filter)
  note step = send_file_step [OF r, of rfail conn k] send_file_step [OF r', of rfail conn k]
  have cl: "tr_client ?st = tr_client st" by simp
  show ?case
  proof (cases "int (length ?p) < bs")
    case True
    show ?thesis by (simp only: step True if_True) (auto split: option.splits)
  next
    case False
    then have "\<not> length rest < nat bs" by auto
    with 1 have "send_file rfail wfail conn bs (drop (nat bs) rest) (block + 1) (Suc k) ?st (only_client (tr_client ?st) n1) =
      map_option (\<lambda>(r, st', n'). (r, st', only_client (tr_client ?st) n'))
        (send_file rfail wfail conn bs (drop (nat bs) rest) (block + 1) (Suc k) ?st n1)"
      by auto
    then show ?thesis by (simp only: step False if_False cl) (auto split: option.splits)
  qed
qed

text \<open>
  C33: A transfer listens to its client only. Removing every packet that other hosts sent to the
  transfer socket changes neither the outcome nor a single datagram.
\<close>

theorem foreign_packets_ignored:
  "map_option (\<lambda>(r, st', n'). (r, st', net_sent n'))
     (transfer_file w rfail wfail conn opts ino st (only_client (tr_client st) n)) =
   map_option (\<lambda>(r, st', n'). (r, st', net_sent n')) (transfer_file w rfail wfail conn opts ino st n)"
proof -
  let ?bs = "negotiate_blksize w opts"
  let ?o = "buildOACK opts ?bs (inode_size ino)"
  have bs: "0 < ?bs" using negotiate_blksize_bounds(1) [of w opts] by linarith
  have sent: "net_sent (only_client c m) = net_sent m" for c m by (simp add: only_client_def)
  define n1 where "n1 = snd (sendOACK wfail (tr_client st) ?o n)"
  have oack: "sendOACK wfail (tr_client st) ?o (only_client (tr_client st) n) =
      (fst (sendOACK wfail (tr_client st) ?o n), only_client (tr_client st) n1)"
    by (simp add: sendOACK_def send_retry_filter n1_def)
  note blocks = send_file_filter [OF bs, of "\<lambda>k. rfail k \<or> inode_content ino = None" wfail conn
      "case inode_content ino of None \<Rightarrow> [] | Some b \<Rightarrow> b" 1 0 st]
  have drop: "map_option (\<lambda>(r, st', n'). (r, st', net_sent n'))
      (map_option (\<lambda>(r, st', n'). (r, st', only_client c n')) x) =
      map_option (\<lambda>(r, st', n'). (r, st', net_sent n')) x" for c and x :: "('a \<times> 'b \<times> net) option"
    by (cases x) (auto simp: sent)
  show ?thesis
    by (cases "?o = []"; cases "fst (sendOACK wfail (tr_client st) ?o n)")
       (simp_all add: transfer_file_def Let_def oack n1_def [symmetric] blocks sent drop)
qed

end
