(* ===== verification/PXE_Props.thy ===== *)
theory PXE_Props
  imports PXE_Transfer "HOL-Library.Multiset"
begin

section \<open>Properties of the TFTP server\<close>

text \<open>
  The jail of the TFTP root against names, image tables, symbolic links and changes of the file
  system during a request; option negotiation; and duplicate requests.
\<close>

subsection \<open>The jail\<close>

text \<open>
  The files below a directory: reached from it by directory entries with ordinary names, as any
  of the inode tables of the run has them, never through a symbolic link.
\<close>

inductive beneath :: "(nat \<Rightarrow> inodes) \<Rightarrow> nat \<Rightarrow> nat \<Rightarrow> bool" for fsys root where
  root: "beneath fsys root root"
| child: "beneath fsys root d \<Longrightarrow> fsys k d = Some (Directory sz es) \<Longrightarrow> glookup es name = Some i \<Longrightarrow>
    proper name \<Longrightarrow> fsys k i = Some node \<Longrightarrow> (\<forall>t. node \<noteq> SymbolicLink t) \<Longrightarrow> beneath fsys root i"

lemma openat_beneath:
  assumes "openat (fsys k) d part want = Some i" and "beneath fsys root d" and "proper part"
  shows "beneath fsys root i"
proof -
  from assms(1) obtain sz es node where
    "fsys k d = Some (Directory sz es)" "glookup es part = Some i" "fsys k i = Some node"
    "\<forall>t. node \<noteq> SymbolicLink t"
    by (auto simp: openat_def split: option.splits inode.splits if_splits)
  with assms(2,3) show ?thesis by (blast intro: beneath.child)
qed

lemma open_parts_beneath:
  assumes "open_parts fsys k d parts = Inr fd" and "beneath fsys root d"
    and "\<forall>p \<in> set parts. CHR ''/'' \<notin> set p"
  shows "beneath fsys root fd"
  using assms
proof (induction fsys k d parts rule: open_parts.induct)
  case (2 fsys k d part parts)
  then have part: "proper part" "\<not> (part = [] \<or> part = ''.'' \<or> part = ''..'')"
    by (auto simp: proper_def split: if_splits)
  from 2(2) part(2) obtain i where o: "openat (fsys k) d part (parts \<noteq> []) = Some i"
    by (auto split: option.splits)
  have "beneath fsys root i" by (rule openat_beneath [OF o 2(3) part(1)])
  with 2 o part(2) show ?case by (auto split: if_splits)
qed simp

text \<open>
  C7: The TFTP root is a jail. Whatever name a client requests, whatever the image tables map it
  to, and whatever happens to the file system while the request is served (a directory or file
  may be swapped for a symbolic link between any two system calls), a request that is not refused
  serves a file below the real root directory, reached without following a symbolic link.
\<close>

theorem tftp_jail:
  assumes "serveFile wd s root filename opts st n = Some (res, st', n')" and "\<nexists>msg. res = Refused 1 msg"
  shows "\<exists>rootReal rel rootfd fd conn st1. w_evalSymlinks wd root = Some rootReal \<and>
    w_openDir wd rootReal = Some rootfd \<and> beneath (w_fsys wd) rootfd fd \<and>
    transfer_file (w_int wd) (w_rfail wd) (w_wfail wd) conn opts (opened_inode wd rel fd) st n =
      Some (res, st1, n')"
proof -
  from assms obtain rootReal rel fd conn st1 where
    p: "resolvePath (w_evalSymlinks wd) s root filename = Inr (rootReal, rel)" and
    o: "openTFTPFile (w_openDir wd) (w_fsys wd) rootReal rel = Inr fd" and
    t: "transfer_file (w_int wd) (w_rfail wd) (w_wfail wd) conn opts (opened_inode wd rel fd) st n =
      Some (res, st1, n')"
    by (auto simp: serveFile_def Let_def split: sum.splits option.splits if_splits bind_splits)
  from p have "w_evalSymlinks wd root = Some rootReal"
    by (auto simp: resolvePath_def Let_def split: option.splits if_splits)
  moreover from o obtain rootfd where r: "w_openDir wd rootReal = Some rootfd"
    "open_parts (w_fsys wd) 0 rootfd (Split CHR ''/'' rel) = Inr fd"
    by (auto simp: openTFTPFile_def split: option.splits)
  have "beneath (w_fsys wd) rootfd fd"
    by (rule open_parts_beneath [OF r(2) beneath.root]) (auto dest: Split_parts_absent)
  ultimately show ?thesis using r(1) t by blast
qed

definition demo_fsys :: "nat \<Rightarrow> inodes" where
  "demo_fsys k = (\<lambda>i. if i = 0 then Some (Directory 4096 [(''boot'', 1)])
     else if i = 1 then Some (Directory 4096 [(''a.efi'', 2)])
     else if i = 2 then Some (RegularFile [1, 2, 3]) else None)"

definition demo_world :: tftp_world where
  "demo_world = \<lparr>w_int = 32, w_evalSymlinks = (\<lambda>p. Some p), w_openDir = (\<lambda>p. Some 0),
     w_fsys = demo_fsys, w_statOk = (\<lambda>_. True), w_listen = Some 5, w_rfail = (\<lambda>_. False),
     w_wfail = (\<lambda>_. False)\<rparr>"

definition demo_pxe :: pxe_server where
  "demo_pxe = pxe_New (Services_PXE zero_services)"

lemma demo_serve:
  "\<exists>st' n'. serveFile demo_world demo_pxe ''/srv/tftp'' ''boot/a.efi'' [] demo_transfer
     \<lparr>net_rx = [ReadError], net_sent = []\<rparr> = Some (SendAborted ReadFailed, st', n')"
proof -
  have "resolvePath (w_evalSymlinks demo_world) demo_pxe ''/srv/tftp'' ''boot/a.efi'' =
      Inr (''/srv/tftp'', ''boot/a.efi'')" by code_simp
  moreover have "openTFTPFile (w_openDir demo_world) (w_fsys demo_world) ''/srv/tftp'' ''boot/a.efi'' = Inr 2"
    by code_simp
  moreover have "opened_inode demo_world ''boot/a.efi'' 2 = Some (RegularFile [1, 2, 3])" by code_simp
  moreover have "transfer_file 32 (\<lambda>_. False) (\<lambda>_. False) 5 [] (Some (RegularFile [1, 2, 3])) demo_transfer
      \<lparr>net_rx = [ReadError], net_sent = []\<rparr> = Some (SendAborted ReadFailed,
        setReady 5 (data_packet 1 [1, 2, 3]) 512 demo_transfer,
        \<lparr>net_rx = [], net_sent = [data_packet 1 [1, 2, 3]]\<rparr>)"
    by (simp add: transfer_file_def negotiate_blksize_def tftpBlockSize_def buildOACK_def
        inode_content_def send_file.simps Let_def sendBlock_def tftpRetries_def numeral_eq_Suc)
  ultimately show ?thesis
    by (simp add: serveFile_def Let_def demo_world_def)
qed

theorem tftp_jail_witness:
  "\<exists>rootReal rootfd fd. w_evalSymlinks demo_world ''/srv/tftp'' = Some rootReal \<and>
     w_openDir demo_world rootReal = Some rootfd \<and> beneath (w_fsys demo_world) rootfd fd"
proof -
  obtain st' n' where "serveFile demo_world demo_pxe ''/srv/tftp'' ''boot/a.efi'' [] demo_transfer
     \<lparr>net_rx = [ReadError], net_sent = []\<rparr> = Some (SendAborted ReadFailed, st', n')"
    using demo_serve by blast
  from tftp_jail [OF this] show ?thesis by auto
qed

lemma pathWithinRoot_iff:
  assumes "IsAbs root" and "IsAbs full"
  shows "pathWithinRoot root full \<longleftrightarrow> (\<exists>es. path_elems (Clean full) = path_elems (Clean root) @ es)"
  using Rel_rooted [OF assms] by (auto simp: pathWithinRoot_def)

lemma IsAbs_path_Join: "IsAbs root \<Longrightarrow> IsAbs (path_Join root img)"
  by (auto simp: path_Join_def IsAbs_def HasPrefix_def Clean_def Let_def)

text \<open>
  The lexical check accepts a path exactly when the elements of the cleaned root are a prefix
  of those of the cleaned path. A request is therefore resolved only to a path inside the root,
  by its name and again after symbolic links have been resolved.
\<close>

lemma resolved_inside_root:
  assumes "IsAbs root" and "\<And>p q. w_evalSymlinks wd p = Some q \<Longrightarrow> IsAbs p \<Longrightarrow> IsAbs q"
    and "resolvePath (w_evalSymlinks wd) s root filename = Inr (rootReal, rel)"
  shows "(\<exists>es. path_elems (Clean (path_Join root (resolveImage s filename))) = path_elems (Clean root) @ es) \<and>
    (\<exists>realFull es. w_evalSymlinks wd (path_Join root (resolveImage s filename)) = Some realFull \<and>
       path_elems (Clean realFull) = path_elems (Clean rootReal) @ es \<and> Rel rootReal realFull = Some rel)"
proof -
  let ?full = "path_Join root (resolveImage s filename)"
  from assms(3) obtain realFull where
    w: "pathWithinRoot root ?full" "w_evalSymlinks wd root = Some rootReal"
    "w_evalSymlinks wd ?full = Some realFull" "pathWithinRoot rootReal realFull" "Rel rootReal realFull = Some rel"
    by (auto simp: resolvePath_def Let_def split: option.splits if_splits)
  have abs: "IsAbs ?full" "IsAbs rootReal" "IsAbs realFull"
    using assms(1,2) w(2,3) IsAbs_path_Join by blast+
  from w(1) w(4) have "\<exists>es. path_elems (Clean ?full) = path_elems (Clean root) @ es"
    "\<exists>es. path_elems (Clean realFull) = path_elems (Clean rootReal) @ es"
    using pathWithinRoot_iff assms(1) abs by blast+
  with w show ?thesis by blast
qed

lemma resolved_inside_root_example:
  "\<exists>es. path_elems (Clean (path_Join ''/srv/tftp'' (resolveImage demo_pxe ''boot/a.efi''))) =
     path_elems (Clean ''/srv/tftp'') @ es"
proof -
  have r: "resolvePath (w_evalSymlinks demo_world) demo_pxe ''/srv/tftp'' ''boot/a.efi'' =
      Inr (''/srv/tftp'', ''boot/a.efi'')" by code_simp
  have a: "IsAbs ''/srv/tftp''" by code_simp
  have e: "w_evalSymlinks demo_world p = Some q \<Longrightarrow> IsAbs p \<Longrightarrow> IsAbs q" for p q
    by (simp add: demo_world_def)
  show ?thesis by (rule conjunct1 [OF resolved_inside_root [OF a e r]])
qed

subsection \<open>Requests and option acknowledgments\<close>

text \<open>The encoding of strings in TFTP packets, as a client writes it.\<close>

definition enc_string :: "string \<Rightarrow> bytes" where
  "enc_string s = bytes_of_string s @ [0]"

definition enc_options :: "(string \<times> string) list \<Rightarrow> bytes" where
  "enc_options os = concat (map (\<lambda>(k, v). enc_string k @ enc_string v) os)"

definition enc_rrq :: "string \<Rightarrow> string \<Rightarrow> (string \<times> string) list \<Rightarrow> bytes" where
  "enc_rrq filename mode os =
     BigEndian_bytes16 tftpRRQ @ enc_string filename @ enc_string mode @ enc_options os"

abbreviation nul_free :: "string \<Rightarrow> bool" where
  "nul_free s \<equiv> (\<forall>c \<in> set s. code_of c \<noteq> 0)"

lemma cstring_from_string:
  "nul_free s \<Longrightarrow> cstring_from acc (bytes_of_string s @ 0 # r) = (string_of_bytes (rev acc) @ s, r)"
proof (induction s arbitrary: acc)
  case (Cons c s)
  have "byte_of_char c \<noteq> 0"
    using Cons.prems by (metis list.set_intros(1) unat_0 unat_byte_of_char)
  with Cons show ?case by (simp add: bytes_of_string_def string_of_bytes_def)
qed (simp add: bytes_of_string_def)

lemma cstring_enc [simp]: "nul_free s \<Longrightarrow> cstring (enc_string s @ r) = (s, r)"
  by (simp add: cstring_def enc_string_def cstring_from_string string_of_bytes_def)

lemma parse_options_enc:
  assumes "\<forall>(k, v) \<in> set os. nul_free k \<and> nul_free v \<and> k \<noteq> []"
  shows "parse_options (enc_options os) opts = fold (\<lambda>(k, v). gput (ToLower k) v) os opts"
  using assms
proof (induction os arbitrary: opts)
  case Nil
  then show ?case by (simp add: enc_options_def parse_options.simps)
next
  case (Cons kv os)
  obtain k v where kv: "kv = (k, v)" by (cases kv)
  have enc: "enc_options ((k, v) # os) = enc_string k @ enc_string v @ enc_options os"
    by (simp add: enc_options_def)
  have "enc_string k \<noteq> []" by (simp add: enc_string_def)
  then show ?case
    using Cons by (subst parse_options.simps) (simp add: enc kv)
qed

lemma drop2_bytes16 [simp]: "drop 2 (BigEndian_bytes16 x @ r) = r"
  by (simp add: BigEndian_bytes16_def)

lemma parseRRQ_enc:
  assumes "nul_free filename" and "nul_free mode" and "\<forall>(k, v) \<in> set os. nul_free k \<and> nul_free v \<and> k \<noteq> []"
  shows "parseRRQ (enc_rrq filename mode os) = (filename, mode, fold (\<lambda>(k, v). gput (ToLower k) v) os [])"
  using assms by (simp add: parseRRQ_def enc_rrq_def parse_options_enc)

lemma nul_free_Itoa: "nul_free (Itoa i)"
proof -
  have "code_of c \<noteq> 0" if "c \<in> set (nat_str n)" for c n
    using nat_str_digits [OF that] by (auto simp: is_digit_def)
  then show ?thesis by (auto simp: Itoa_def)
qed

lemma buildOACK_enc:
  "buildOACK opts bs sz \<noteq> [] \<Longrightarrow> drop 2 (buildOACK opts bs sz) =
     enc_options ((if glookup opts ''blksize'' \<noteq> None then [(''blksize'', Itoa bs)] else []) @
                  (if glookup opts ''tsize'' \<noteq> None then [(''tsize'', Itoa sz)] else []))"
  by (auto simp: buildOACK_def Let_def option_pairs_def enc_options_def enc_string_def split: if_splits)

text \<open>
  C35: Option negotiation end to end. The server reads back the file name, the mode and the options
  that a client encoded; a requested block size is granted up to 1468 bytes; and the client reads
  the granted block size and the size of the file in the option acknowledgment.
\<close>

theorem option_negotiation:
  assumes "nul_free filename" and "nul_free mode" and "0 < bs" and "bs < 2 ^ 31" and "32 \<le> w"
  shows "\<exists>opts. parseRRQ (enc_rrq filename mode [(''BLKSIZE'', Itoa bs), (''tsize'', ''0'')]) = (filename, mode, opts) \<and>
    negotiate_blksize w opts = min bs 1468 \<and>
    parse_options (drop 2 (buildOACK opts (negotiate_blksize w opts) sz)) [] =
      [(''blksize'', Itoa (min bs 1468)), (''tsize'', Itoa sz)]"
proof -
  have low: "ToLower ''BLKSIZE'' = ''blksize''" "ToLower ''blksize'' = ''blksize''" "ToLower ''tsize'' = ''tsize''"
    by code_simp+
  let ?opts = "[(''blksize'', Itoa bs), (''tsize'', ''0'')]"
  have rrq: "parseRRQ (enc_rrq filename mode [(''BLKSIZE'', Itoa bs), (''tsize'', ''0'')]) = (filename, mode, ?opts)"
    using assms(1,2) nul_free_Itoa [of bs] by (subst parseRRQ_enc) (auto simp: low)
  have "(2 :: int) ^ 31 \<le> 2 ^ (w - 1)" using assms(5) by (intro power_increasing) auto
  then have "Atoi w (Itoa bs) = Some bs"
    using assms(3,4) by (intro Atoi_Itoa) auto
  then have neg: "negotiate_blksize w ?opts = min bs 1468"
    using assms(3) by (simp add: negotiate_blksize_def)
  have "buildOACK ?opts b sz \<noteq> []" for b
    by (simp add: buildOACK_def option_pairs_def)
  then have "parse_options (drop 2 (buildOACK ?opts (min bs 1468) sz)) [] =
      parse_options (enc_options [(''blksize'', Itoa (min bs 1468)), (''tsize'', Itoa sz)]) []"
    by (subst buildOACK_enc) simp_all
  also have "\<dots> = [(''blksize'', Itoa (min bs 1468)), (''tsize'', Itoa sz)]"
    using nul_free_Itoa by (subst parse_options_enc) (auto simp: low)
  finally show ?thesis using rrq neg by simp
qed

theorem option_negotiation_witness:
  "\<exists>opts. parseRRQ (enc_rrq ''a.efi'' ''octet'' [(''BLKSIZE'', Itoa 8192), (''tsize'', ''0'')]) = (''a.efi'', ''octet'', opts) \<and>
     negotiate_blksize 32 opts = 1468"
  using option_negotiation [of "''a.efi''" "''octet''" 8192 32 0] by auto

subsection \<open>Duplicate requests\<close>

text \<open>
  The server with the file transfers that run, by key: a packet read from the control socket may
  start one, and a running one may finish.
\<close>

inductive reader_step :: "pxe_server \<times> string multiset \<Rightarrow> pxe_server \<times> string multiset \<Rightarrow> bool" where
  start: "reader_packet client pkt s = (s', StartTransfer key filename opts) \<Longrightarrow>
    reader_step (s, running) (s', add_mset key running)"
| other: "reader_packet client pkt s = (s', act) \<Longrightarrow> (\<forall>key f os. act \<noteq> StartTransfer key f os) \<Longrightarrow>
    reader_step (s, running) (s', running)"
| finish: "key \<in># running \<Longrightarrow>
    reader_step (s, running) (finish_transfer key s, running - {#key#})"
| images: "reader_step (s, running) (SetDefaultImage img (SetMacImages m s), running)"

inductive reader_reachable :: "pxe_server \<times> string multiset \<Rightarrow> bool" where
  init: "reader_reachable (pxe_New cfg, {#})"
| step: "reader_reachable st \<Longrightarrow> reader_step st st' \<Longrightarrow> reader_reachable st'"

lemma reader_packet_start:
  assumes "reader_packet client pkt s = (s', StartTransfer key filename opts)"
  shows "key = transfer_key client filename" "glookup (pxe_active s) key = None"
    "s' = s\<lparr>pxe_active := gput key (new_transfer client) (pxe_active s)\<rparr>"
  using assms by (auto simp: reader_packet_def Let_def split: if_splits prod.splits option.splits)

lemma reader_packet_other:
  "reader_packet client pkt s = (s', act) \<Longrightarrow> (\<forall>key f os. act \<noteq> StartTransfer key f os) \<Longrightarrow> s' = s"
  by (auto simp: reader_packet_def Let_def split: if_splits prod.splits option.splits)

definition reader_inv :: "pxe_server \<times> string multiset \<Rightarrow> bool" where
  "reader_inv st \<longleftrightarrow> gwf (pxe_active (fst st)) \<and> snd st = mset (map fst (pxe_active (fst st)))"

lemma mset_keys_put:
  "glookup m k = None \<Longrightarrow> image_mset fst (mset (gput k v m)) = add_mset k (image_mset fst (mset m))"
proof (induction m)
  case (Cons x m)
  then show ?case by (cases x) (auto split: if_splits)
qed simp

lemma mset_keys_delete:
  "gwf m \<Longrightarrow> k \<in> fst ` set m \<Longrightarrow> image_mset fst (mset (gdelete k m)) = image_mset fst (mset m) - {#k#}"
proof (induction m)
  case (Cons x m)
  have "k \<notin> fst ` set m \<Longrightarrow> gdelete k m = m" by (induction m) (auto simp: AList.delete_eq)
  with Cons show ?case by (cases x) auto
qed simp

lemma reader_step_inv: "reader_step st st' \<Longrightarrow> reader_inv st \<Longrightarrow> reader_inv st'"
proof (induction rule: reader_step.induct)
  case (start client pkt s s' key filename opts running)
  note p = reader_packet_start [OF start(1)]
  with start(2) show ?case by (simp add: reader_inv_def gwf_gput mset_keys_put)
next
  case (other client pkt s s' act running)
  then show ?case using reader_packet_other [OF other(1,2)] by simp
next
  case (finish key running s)
  then show ?case by (auto simp: reader_inv_def finish_transfer_def gwf_gdelete mset_keys_delete)
qed (simp add: reader_inv_def SetDefaultImage_def SetMacImages_def)

lemma reader_reachable_inv: "reader_reachable st \<Longrightarrow> reader_inv st"
proof (induction rule: reader_reachable.induct)
  case (init cfg)
  then show ?case by (simp add: reader_inv_def pxe_New_def)
next
  case (step st st')
  then show ?case by (blast intro: reader_step_inv)
qed

text \<open>Keys of different clients or files differ.\<close>

lemma UDPAddr_String_bar: "CHR ''|'' \<notin> set (UDPAddr_String a)"
proof -
  have d: "CHR ''|'' \<notin> set (nat_str n)" for n by (rule not_digit_nat_str) (simp add: is_digit_def)
  have "CHR ''|'' \<notin> set (Join xs ''.'')" if "\<forall>x \<in> set xs. CHR ''|'' \<notin> set x" for xs
    using that by (induction xs "''.''" rule: Join.induct) auto
  with d show ?thesis by (auto simp: UDPAddr_String_def IPv4_String_def)
qed

lemma UDPAddr_String_inj:
  assumes "length (To4 (UDP_IP a)) = 4" and "length (To4 (UDP_IP b)) = 4"
    and "UDPAddr_String a = UDPAddr_String b"
  shows "To4 (UDP_IP a) = To4 (UDP_IP b) \<and> UDP_Port a = UDP_Port b"
proof -
  have d: "CHR '':'' \<notin> set (nat_str n)" for n by (rule not_digit_nat_str) simp
  have "CHR '':'' \<notin> set (Join xs ''.'')" if "\<forall>x \<in> set xs. CHR '':'' \<notin> set x" for xs
    using that by (induction xs "''.''" rule: Join.induct) auto
  with d have n: "CHR '':'' \<notin> set (IPv4_String i)" for i by (auto simp: IPv4_String_def)
  have "IPv4_String (To4 (UDP_IP a)) = IPv4_String (To4 (UDP_IP b)) \<and> nat_str (UDP_Port a) = nat_str (UDP_Port b)"
    using assms(3) by (intro append_sep_inj [of "CHR '':''"]) (simp_all add: n UDPAddr_String_def)
  then show ?thesis using assms(1,2) by (metis To4_ParseIP_String nat_str_inj)
qed

text \<open>
  C37: In every state the reader can reach, at most one transfer runs for a client and file name,
  however often the client repeats its request; and transfers of different IPv4 clients, ports or
  file names never share a key.
\<close>

theorem one_transfer_per_request:
  assumes "reader_reachable (s, running)"
    and "length (To4 (UDP_IP c1)) = 4" and "length (To4 (UDP_IP c2)) = 4"
  shows "count running (transfer_key c1 f1) \<le> 1 \<and>
    (transfer_key c1 f1 = transfer_key c2 f2 \<longrightarrow>
      To4 (UDP_IP c1) = To4 (UDP_IP c2) \<and> UDP_Port c1 = UDP_Port c2 \<and> f1 = f2)"
proof
  have "reader_inv (s, running)" by (rule reader_reachable_inv [OF assms(1)])
  then have "running = mset (map fst (pxe_active s))" "distinct (map fst (pxe_active s))"
    by (simp_all add: reader_inv_def)
  then show "count running (transfer_key c1 f1) \<le> 1"
    by (simp add: distinct_count_atmost_1)
  show "transfer_key c1 f1 = transfer_key c2 f2 \<longrightarrow>
      To4 (UDP_IP c1) = To4 (UDP_IP c2) \<and> UDP_Port c1 = UDP_Port c2 \<and> f1 = f2"
    using append_sep_inj [of "CHR ''|''" "UDPAddr_String c1" "UDPAddr_String c2" f1 f2]
      UDPAddr_String_inj [OF assms(2,3)] UDPAddr_String_bar
    by (simp add: transfer_key_def)
qed

theorem one_transfer_per_request_witness:
  "\<exists>s running. reader_reachable (s, running) \<and>
     count running (transfer_key (the demo_client) ''a'') = 1 \<and>
     transfer_key (the demo_client) ''a'' \<noteq> transfer_key (the demo_client) ''b''"
proof -
  let ?c = "the demo_client" and ?s = "pxe_New (Services_PXE zero_services)"
  have "snd (reader_packet ?c (enc_rrq ''a'' ''octet'' []) ?s) = StartTransfer (transfer_key ?c ''a'') ''a'' []"
    by code_simp
  then have "reader_packet ?c (enc_rrq ''a'' ''octet'' []) ?s =
      (fst (reader_packet ?c (enc_rrq ''a'' ''octet'' []) ?s), StartTransfer (transfer_key ?c ''a'') ''a'' [])"
    by (metis prod.collapse)
  from reader_reachable.step [OF reader_reachable.init reader_step.start [OF this]]
  have r: "reader_reachable (fst (reader_packet ?c (enc_rrq ''a'' ''octet'' []) ?s), {#transfer_key ?c ''a''#})" .
  have "length (To4 (UDP_IP ?c)) = 4" by code_simp
  from one_transfer_per_request [OF r this this, of "''a''" "''b''"]
  have "transfer_key ?c ''a'' \<noteq> transfer_key ?c ''b''" by auto
  with r show ?thesis by (intro exI conjI) (assumption, simp_all)
qed

end
