(* ===== verification/Firewall.thy ===== *)
theory Firewall
  imports Config
begin

section \<open>NAT and isolation rules (pkg/nat)\<close>

text \<open>
  The nftables rules of \<open>pkg/nat/nat.go\<close> as data, the operations that add them, and the part of
  \<open>cmd/gokrazy-router/main.go\<close> that installs them for a configuration. The kernel that evaluates
  the rules is an interface: the locale \<open>nft_kernel\<close> states the documented meaning of each
  expression, and the results about packets hold for every evaluation with these laws.
\<close>

unbundle bit_operations_syntax

subsection \<open>Rules\<close>

datatype nft_chain = Postrouting | Forward

datatype nft_expr =
    Payload nat nat | Bitwise bytes bytes | CmpEq bytes | MetaIIFNAME | MetaOIFNAME | Masq | VerdictDrop

type_synonym nft_rule = "nft_chain \<times> nft_expr list"

record manager =
  mgr_rules :: "nft_rule list"
  mgr_fwdChain :: bool
  mgr_outIface :: string

text \<open>\<open>mgr_rules\<close> is what the kernel holds in the table \<open>gokrazy_nat\<close>.\<close>

datatype nat_error = LookupInterface string | FlushFailed | NATConfig

definition ifname :: "string \<Rightarrow> bytes" where
  "ifname name = take 16 (bytes_of_string name @ replicate 16 0)"

definition masq_rule :: "string \<Rightarrow> ipnet \<Rightarrow> nft_rule" where
  "masq_rule outIface srcNet =
     (Postrouting,
      [Payload 12 4, Bitwise (IPNet_Mask srcNet) [0, 0, 0, 0], CmpEq (To4 (IPNet_IP srcNet)),
       MetaOIFNAME, CmpEq (ifname outIface), Masq])"

definition drop_rule :: "string \<Rightarrow> string \<Rightarrow> nft_rule" where
  "drop_rule a b =
     (Forward, [MetaIIFNAME, CmpEq (ifname a), MetaOIFNAME, CmpEq (ifname b), VerdictDrop])"

text \<open>
  The operations, over the two answers of the system: whether an interface exists, and whether the
  kernel accepts a batch of rules.
\<close>

definition nat_Setup ::
  "(string \<Rightarrow> bool) \<Rightarrow> (nft_rule list \<Rightarrow> bool) \<Rightarrow> string \<Rightarrow> ipnet \<Rightarrow> nat_error + manager" where
  "nat_Setup lookup flush outIface srcNet =
     (if \<not> lookup outIface then Inl (LookupInterface outIface)
      else if \<not> flush [masq_rule outIface srcNet] then Inl FlushFailed
      else Inr \<lparr>mgr_rules = [masq_rule outIface srcNet], mgr_fwdChain = False, mgr_outIface = outIface\<rparr>)"

definition AddSource ::
  "(nft_rule list \<Rightarrow> bool) \<Rightarrow> ipnet \<Rightarrow> manager \<Rightarrow> nat_error option \<times> manager" where
  "AddSource flush srcNet m =
     (let batch = [masq_rule (mgr_outIface m) srcNet] in
      if \<not> flush batch then (Some FlushFailed, m)
      else (None, m\<lparr>mgr_rules := mgr_rules m @ batch\<rparr>))"

definition isolation_rules :: "string \<Rightarrow> string list \<Rightarrow> nft_rule list" where
  "isolation_rules isolated others =
     concat (map (\<lambda>b. [drop_rule isolated b, drop_rule b isolated]) others)"

definition AddIsolation ::
  "(nft_rule list \<Rightarrow> bool) \<Rightarrow> string \<Rightarrow> string list \<Rightarrow> manager \<Rightarrow> nat_error option \<times> manager" where
  "AddIsolation flush isolated others m =
     (let m1 = m\<lparr>mgr_fwdChain := True\<rparr>; batch = isolation_rules isolated others in
      if \<not> flush batch then (Some FlushFailed, m1)
      else (None, m1\<lparr>mgr_rules := mgr_rules m1 @ batch\<rparr>))"

definition Cleanup :: "(nft_rule list \<Rightarrow> bool) \<Rightarrow> manager option \<Rightarrow> manager option" where
  "Cleanup flush mo =
     (case mo of None \<Rightarrow> None
      | Some m \<Rightarrow> if flush [] then Some (m\<lparr>mgr_rules := []\<rparr>) else Some m)"

subsection \<open>Installation for a configuration\<close>

definition BridgeName :: "int \<Rightarrow> string" where
  "BridgeName vlanID = ''br-vlan'' @ Itoa vlanID"

text \<open>The loop over the VLANs with NAT; an error is \<open>log.Fatalf\<close>.\<close>

fun nat_vlan_loop ::
  "(string \<Rightarrow> bool) \<Rightarrow> (nft_rule list \<Rightarrow> bool) \<Rightarrow> string \<Rightarrow> vlan_config list \<Rightarrow> manager option \<Rightarrow>
   nat_error + manager option" where
  "nat_vlan_loop lookup flush out [] mo = Inr mo"
| "nat_vlan_loop lookup flush out (vc # vcs) mo =
     (if \<not> VLAN_NAT vc then nat_vlan_loop lookup flush out vcs mo
      else (case ParseCIDR (VLAN_Address vc) of
              None \<Rightarrow> nat_vlan_loop lookup flush out vcs mo
            | Some (_, vNet) \<Rightarrow>
              (case mo of
                 None \<Rightarrow>
                   (case nat_Setup lookup flush out vNet of
                      Inl e \<Rightarrow> Inl e
                    | Inr m \<Rightarrow> nat_vlan_loop lookup flush out vcs (Some m))
               | Some m \<Rightarrow>
                   (case AddSource flush vNet m of
                      (Some e, _) \<Rightarrow> Inl e
                    | (None, m') \<Rightarrow> nat_vlan_loop lookup flush out vcs (Some m')))))"

fun isolation_loop ::
  "(nft_rule list \<Rightarrow> bool) \<Rightarrow> string list \<Rightarrow> vlan_config list \<Rightarrow> manager \<Rightarrow> nat_error + manager" where
  "isolation_loop flush allBridges [] m = Inr m"
| "isolation_loop flush allBridges (vc # vcs) m =
     (if \<not> VLAN_Isolated vc then isolation_loop flush allBridges vcs m
      else
        (let isolated = BridgeName (VLAN_ID vc); others = filter (\<lambda>b. b \<noteq> isolated) allBridges in
         if 0 < length others then
           (case AddIsolation flush isolated others m of
              (Some e, _) \<Rightarrow> Inl e
            | (None, m') \<Rightarrow> isolation_loop flush allBridges vcs m')
         else isolation_loop flush allBridges vcs m))"

definition setup_nat ::
  "(string \<Rightarrow> bool) \<Rightarrow> (nft_rule list \<Rightarrow> bool) \<Rightarrow> config \<Rightarrow> nat_error + manager option" where
  "setup_nat lookup flush c =
     (let out = NAT_OutInterface (Config_NAT c) in
      if \<not> NAT_Enabled (Config_NAT c) then Inr None
      else if 0 < length (Config_VLANs c) then nat_vlan_loop lookup flush out (Config_VLANs c) None
      else (case ParseCIDR (LAN_Address (Config_LAN c)) of
              None \<Rightarrow> Inl NATConfig
            | Some (_, srcNet) \<Rightarrow>
              (case nat_Setup lookup flush out srcNet of Inl e \<Rightarrow> Inl e | Inr m \<Rightarrow> Inr (Some m))))"

definition setup_firewall ::
  "(string \<Rightarrow> bool) \<Rightarrow> (nft_rule list \<Rightarrow> bool) \<Rightarrow> config \<Rightarrow> nat_error + manager option" where
  "setup_firewall lookup flush c =
     (case setup_nat lookup flush c of
        Inl e \<Rightarrow> Inl e
      | Inr None \<Rightarrow> Inr None
      | Inr (Some m) \<Rightarrow>
        if 0 < length (Config_VLANs c) then
          (case isolation_loop flush (map (\<lambda>vc. BridgeName (VLAN_ID vc)) (Config_VLANs c)) (Config_VLANs c) m of
             Inl e \<Rightarrow> Inl e | Inr m' \<Rightarrow> Inr (Some m'))
        else Inr (Some m))"

subsection \<open>The kernel\<close>

text \<open>
  A forwarded packet: its IPv4 header and the interfaces it comes in and goes out by. The kernel
  evaluates the expressions of a rule from left to right over one register; a rule has a verdict,
  or does not apply.
\<close>

record packet =
  pkt_header :: bytes
  pkt_iif :: string
  pkt_oif :: string

datatype nft_verdict = NoMatch | Drops | Masquerades

definition bitwise_mask :: "bytes \<Rightarrow> bytes \<Rightarrow> bytes \<Rightarrow> bytes" where
  "bitwise_mask msk x r = map2 (\<lambda>a b. a XOR b) (map2 (\<lambda>a b. a AND b) r msk) x"

locale nft_kernel =
  fixes run :: "nft_expr list \<Rightarrow> packet \<Rightarrow> bytes \<Rightarrow> nft_verdict"
  assumes run_Nil: "run [] p r = NoMatch"
    and run_Payload: "run (Payload off n # es) p r = run es p (take n (drop off (pkt_header p)))"
    and run_Bitwise: "run (Bitwise msk x # es) p r = run es p (bitwise_mask msk x r)"
    and run_Cmp: "run (CmpEq d # es) p r = (if r = d then run es p r else NoMatch)"
    and run_IIF: "run (MetaIIFNAME # es) p r = run es p (take 16 (bytes_of_string (pkt_iif p) @ replicate 16 0))"
    and run_OIF: "run (MetaOIFNAME # es) p r = run es p (take 16 (bytes_of_string (pkt_oif p) @ replicate 16 0))"
    and run_Masq: "run (Masq # es) p r = Masquerades"
    and run_Drop: "run (VerdictDrop # es) p r = Drops"
begin

text \<open>The verdict of a chain: the first rule that applies, else the packet passes.\<close>

definition chain_verdict :: "nft_chain \<Rightarrow> nft_rule list \<Rightarrow> packet \<Rightarrow> nft_verdict" where
  "chain_verdict ch rules p =
     (case filter (\<lambda>v. v \<noteq> NoMatch) (map (\<lambda>(c, es). if c = ch then run es p [] else NoMatch) rules) of
        [] \<Rightarrow> NoMatch | v # _ \<Rightarrow> v)"

lemma run_drop_rule:
  "run (snd (drop_rule a b)) p r =
     (if ifname (pkt_iif p) = ifname a \<and> ifname (pkt_oif p) = ifname b then Drops else NoMatch)"
  by (simp add: drop_rule_def run_IIF run_OIF run_Cmp run_Drop ifname_def)

lemma run_masq_rule:
  "run (snd (masq_rule out net)) p r =
     (if bitwise_mask (IPNet_Mask net) [0, 0, 0, 0] (take 4 (drop 12 (pkt_header p))) = To4 (IPNet_IP net) \<and>
         ifname (pkt_oif p) = ifname out then Masquerades else NoMatch)"
  by (simp add: masq_rule_def run_Payload run_Bitwise run_OIF run_Cmp run_Masq ifname_def)

lemma chain_verdict_append:
  "chain_verdict ch (rs @ rs') p =
     (if chain_verdict ch rs p = NoMatch then chain_verdict ch rs' p else chain_verdict ch rs p)"
  by (induction rs) (auto simp: chain_verdict_def)

lemma chain_verdict_Cons:
  "chain_verdict ch (r # rs) p =
     (if fst r = ch \<and> run (snd r) p [] \<noteq> NoMatch then run (snd r) p [] else chain_verdict ch rs p)"
  by (cases r) (simp add: chain_verdict_def)

lemma chain_verdict_Nil: "chain_verdict ch [] p = NoMatch"
  by (simp add: chain_verdict_def)

text \<open>A pair of rules per bridge drops exactly the traffic between the isolated bridge and the others.\<close>

lemma isolation_verdict:
  "chain_verdict Forward (isolation_rules a others) p =
     (if \<exists>b \<in> set others. ifname (pkt_iif p) = ifname a \<and> ifname (pkt_oif p) = ifname b \<or>
          ifname (pkt_iif p) = ifname b \<and> ifname (pkt_oif p) = ifname a then Drops else NoMatch)"
proof (induction others)
  case (Cons b bs)
  have first: "chain_verdict Forward (drop_rule x y # rs) p =
      (if ifname (pkt_iif p) = ifname x \<and> ifname (pkt_oif p) = ifname y then Drops
       else chain_verdict Forward rs p)" for x y rs
    unfolding chain_verdict_Cons run_drop_rule by (simp add: drop_rule_def)
  have join: "(if P then Drops else if Q then Drops else if R then Drops else NoMatch) =
      (if (P \<or> Q) \<or> R then Drops else NoMatch)" for P Q R by simp
  have "isolation_rules a (b # bs) = drop_rule a b # drop_rule b a # isolation_rules a bs"
    by (simp add: isolation_rules_def)
  then show ?case
    by (simp only: first Cons join list.set bex_simps Set.bex_simps insert_iff ball_simps)
qed (simp add: isolation_rules_def chain_verdict_Nil)

end

text \<open>The evaluation written from the laws.\<close>

fun nft_run :: "nft_expr list \<Rightarrow> packet \<Rightarrow> bytes \<Rightarrow> nft_verdict" where
  "nft_run [] p r = NoMatch"
| "nft_run (Payload off n # es) p r = nft_run es p (take n (drop off (pkt_header p)))"
| "nft_run (Bitwise msk x # es) p r = nft_run es p (bitwise_mask msk x r)"
| "nft_run (CmpEq d # es) p r = (if r = d then nft_run es p r else NoMatch)"
| "nft_run (MetaIIFNAME # es) p r = nft_run es p (ifname (pkt_iif p))"
| "nft_run (MetaOIFNAME # es) p r = nft_run es p (ifname (pkt_oif p))"
| "nft_run (Masq # es) p r = Masquerades"
| "nft_run (VerdictDrop # es) p r = Drops"

interpretation nft: nft_kernel nft_run
  by unfold_locales (simp_all add: ifname_def)

end
