(* ===== verification/Firewall_Props.thy ===== *)
theory Firewall_Props
  imports Firewall
begin

section \<open>What the installed rules do to packets\<close>

text \<open>
  The rules that start-up installs for a configuration, evaluated on forwarded packets: which VLANs
  can reach each other, and which packets leave with the address of the router.
\<close>

subsection \<open>Interface names\<close>

lemma takeWhile_append_zeros: "0 \<notin> set b \<Longrightarrow> takeWhile (\<lambda>x. x \<noteq> 0) (b @ replicate n 0) = (b :: bytes)"
  by (induction b) (auto simp: takeWhile_replicate)

text \<open>Names of at most 16 bytes without NUL are told apart.\<close>

lemma ifname_inj:
  assumes "length a \<le> 16" and "length b \<le> 16" and "0 \<notin> set (bytes_of_string a)"
    and "0 \<notin> set (bytes_of_string b)" and "ifname a = ifname b"
  shows "a = b"
proof -
  have pad: "ifname x = bytes_of_string x @ replicate (16 - length x) 0" if "length x \<le> 16" for x
    using that by (simp add: ifname_def)
  have "takeWhile (\<lambda>x. x \<noteq> 0) (ifname a) = bytes_of_string a"
    unfolding pad [OF assms(1)] by (rule takeWhile_append_zeros [OF assms(3)])
  moreover have "takeWhile (\<lambda>x. x \<noteq> 0) (ifname b) = bytes_of_string b"
    unfolding pad [OF assms(2)] by (rule takeWhile_append_zeros [OF assms(4)])
  ultimately show ?thesis using assms(5) by (metis string_of_bytes_of_string)
qed

lemma length_nat_str: "n < 10 ^ k \<Longrightarrow> 0 < k \<Longrightarrow> length (nat_str n) \<le> k"
proof (induction k arbitrary: n)
  case (Suc k)
  show ?case
  proof (cases "n < 10")
    case False
    with Suc.prems have "n div 10 < 10 ^ k" "0 < k"
      by (auto simp: less_mult_imp_div_less mult.commute intro: gr0I)
    with Suc.IH [of "n div 10"] False show ?thesis by (simp add: nat_str.simps [of n])
  qed (simp add: nat_str.simps [of n])
qed simp

definition vlan_id :: "int \<Rightarrow> bool" where
  "vlan_id i \<longleftrightarrow> 0 \<le> i \<and> i \<le> 4094"

lemma BridgeName_bytes:
  assumes "vlan_id i"
  shows "length (BridgeName i) \<le> 11" "0 \<notin> set (bytes_of_string (BridgeName i))"
proof -
  have "length (nat_str (nat i)) \<le> 4" using assms by (intro length_nat_str) (auto simp: vlan_id_def)
  then show "length (BridgeName i) \<le> 11" using assms by (simp add: BridgeName_def Itoa_def vlan_id_def)
  have z: "byte_of_char c = 0 \<longleftrightarrow> code_of c = 0" for c
    by (metis unat_byte_of_char unat_0 unat_eq_zero)
  have "code_of c \<noteq> 0" if "c \<in> set (nat_str n)" for c n
    using nat_str_digits [OF that] by (auto simp: is_digit_def)
  then have "code_of c \<noteq> 0" if "c \<in> set (BridgeName i)" for c
    using that assms by (auto simp: BridgeName_def Itoa_def vlan_id_def)
  then show "0 \<notin> set (bytes_of_string (BridgeName i))"
    unfolding bytes_of_string_def using z by (metis imageE set_map)
qed

lemma BridgeName_inj [simp]: "BridgeName i = BridgeName j \<longleftrightarrow> i = j"
  by (simp add: BridgeName_def)

lemma ifname_BridgeName:
  assumes "vlan_id i" and "vlan_id j"
  shows "ifname (BridgeName i) = ifname (BridgeName j) \<longleftrightarrow> i = j"
  using ifname_inj [of "BridgeName i" "BridgeName j"] BridgeName_bytes [OF assms(1)]
    BridgeName_bytes [OF assms(2)] by auto

subsection \<open>The rules of a configuration\<close>

definition vlan_nets :: "vlan_config list \<Rightarrow> ipnet list" where
  "vlan_nets vcs = concat (map (\<lambda>vc. if VLAN_NAT vc
     then (case ParseCIDR (VLAN_Address vc) of None \<Rightarrow> [] | Some (_, n) \<Rightarrow> [n]) else []) vcs)"

lemma vlan_nets_Cons:
  "vlan_nets (vc # vcs) = (if VLAN_NAT vc
     then (case ParseCIDR (VLAN_Address vc) of None \<Rightarrow> [] | Some (_, n) \<Rightarrow> [n]) else []) @ vlan_nets vcs"
  by (simp add: vlan_nets_def)

lemma nat_vlan_loop_Some:
  assumes "nat_vlan_loop lookup flush out vcs (Some m) = Inr mo" and "mgr_outIface m = out"
  shows "\<exists>m'. mo = Some m' \<and> mgr_rules m' = mgr_rules m @ map (masq_rule out) (vlan_nets vcs)"
  using assms
proof (induction vcs arbitrary: m)
  case Nil
  then show ?case by (auto simp: vlan_nets_def)
next
  case (Cons vc vcs)
  show ?case
  proof (cases "VLAN_NAT vc \<and> ParseCIDR (VLAN_Address vc) \<noteq> None")
    case True
    then obtain a n where n: "ParseCIDR (VLAN_Address vc) = Some (a, n)" by auto
    with True Cons.prems have "flush [masq_rule out n]"
      "nat_vlan_loop lookup flush out vcs (Some (m\<lparr>mgr_rules := mgr_rules m @ [masq_rule out n]\<rparr>)) = Inr mo"
      by (auto simp: AddSource_def Let_def split: if_splits)
    from Cons.IH [OF this(2)] True n Cons.prems(2) show ?thesis
      by (simp add: vlan_nets_Cons)
  next
    case False
    with Cons.prems have "nat_vlan_loop lookup flush out vcs (Some m) = Inr mo"
      by (auto split: if_splits option.splits)
    from Cons.IH [OF this Cons.prems(2)] False show ?thesis
      by (auto simp: vlan_nets_Cons split: option.split)
  qed
qed

lemma nat_vlan_loop_None:
  assumes "nat_vlan_loop lookup flush out vcs None = Inr mo"
  shows "(mo = None \<and> vlan_nets vcs = []) \<or>
    (\<exists>m'. mo = Some m' \<and> mgr_rules m' = map (masq_rule out) (vlan_nets vcs))"
  using assms
proof (induction vcs)
  case Nil
  then show ?case by (simp add: vlan_nets_def)
next
  case (Cons vc vcs)
  show ?case
  proof (cases "VLAN_NAT vc \<and> ParseCIDR (VLAN_Address vc) \<noteq> None")
    case True
    then obtain a n where n: "ParseCIDR (VLAN_Address vc) = Some (a, n)" by auto
    with True Cons.prems obtain m where m: "nat_Setup lookup flush out n = Inr m"
      "nat_vlan_loop lookup flush out vcs (Some m) = Inr mo"
      by (auto split: sum.splits)
    then have "mgr_outIface m = out" "mgr_rules m = [masq_rule out n]"
      by (auto simp: nat_Setup_def split: if_splits)
    with nat_vlan_loop_Some [OF m(2)] True n show ?thesis by (simp add: vlan_nets_Cons)
  next
    case False
    with Cons show ?thesis by (auto simp: vlan_nets_Cons split: if_splits option.splits)
  qed
qed

definition vlan_isolation :: "string list \<Rightarrow> vlan_config list \<Rightarrow> nft_rule list" where
  "vlan_isolation bs vcs = concat (map (\<lambda>vc. if VLAN_Isolated vc
     then isolation_rules (BridgeName (VLAN_ID vc)) (filter (\<lambda>b. b \<noteq> BridgeName (VLAN_ID vc)) bs) else []) vcs)"

lemma isolation_loop_rules:
  "isolation_loop flush bs vcs m = Inr m' \<Longrightarrow> mgr_rules m' = mgr_rules m @ vlan_isolation bs vcs"
proof (induction flush bs vcs m rule: isolation_loop.induct)
  case (2 flush bs vc vcs m)
  let ?o = "filter (\<lambda>b. b \<noteq> BridgeName (VLAN_ID vc)) bs"
  consider "\<not> VLAN_Isolated vc" | "VLAN_Isolated vc" "?o = []" | "VLAN_Isolated vc" "?o \<noteq> []" by blast
  then show ?case
  proof cases
    case 3
    then obtain m1 where m1: "AddIsolation flush (BridgeName (VLAN_ID vc)) ?o m = (None, m1)"
      "isolation_loop flush bs vcs m1 = Inr m'"
      using 2(4) by (auto simp: Let_def split: prod.splits option.splits)
    then have "mgr_rules m1 = mgr_rules m @ isolation_rules (BridgeName (VLAN_ID vc)) ?o"
      by (auto simp: AddIsolation_def Let_def split: if_splits)
    with 2(2) [OF _ refl refl _ m1(1) [symmetric] refl m1(2)] 3 show ?thesis
      by (simp add: vlan_isolation_def)
  qed (use 2 in \<open>auto simp: vlan_isolation_def isolation_rules_def Let_def\<close>)
qed (simp add: vlan_isolation_def)

lemma nft_append: "nft.chain_verdict ch (rs @ rs') p =
    (if nft.chain_verdict ch rs p = NoMatch then nft.chain_verdict ch rs' p else nft.chain_verdict ch rs p)"
  by (rule nft.chain_verdict_append)

lemma masq_forward: "nft.chain_verdict Forward (map (masq_rule out) ns) p = NoMatch"
  by (induction ns) (simp_all add: nft.chain_verdict_Nil nft.chain_verdict_Cons masq_rule_def)

lemma isolation_postrouting:
  "nft.chain_verdict Postrouting (isolation_rules a bs) p = NoMatch"
  "nft.chain_verdict Postrouting (vlan_isolation ns vcs) p = NoMatch"
proof -
  show i: "nft.chain_verdict Postrouting (isolation_rules a bs) p = NoMatch" for a bs
    by (induction bs) (simp_all add: isolation_rules_def nft.chain_verdict_Nil nft.chain_verdict_Cons drop_rule_def)
  show "nft.chain_verdict Postrouting (vlan_isolation ns vcs) p = NoMatch"
    by (induction vcs) (simp_all add: vlan_isolation_def nft.chain_verdict_Nil nft_append i)
qed

text \<open>The traffic between an isolated VLAN and another one, by the names of the interfaces.\<close>

definition crosses :: "bytes \<Rightarrow> bytes \<Rightarrow> vlan_config \<Rightarrow> vlan_config \<Rightarrow> bool" where
  "crosses i o' v w \<longleftrightarrow> VLAN_Isolated v \<and> VLAN_ID w \<noteq> VLAN_ID v \<and>
     (i = ifname (BridgeName (VLAN_ID v)) \<and> o' = ifname (BridgeName (VLAN_ID w)) \<or>
      i = ifname (BridgeName (VLAN_ID w)) \<and> o' = ifname (BridgeName (VLAN_ID v)))"

lemma vlan_isolation_verdict:
  "nft.chain_verdict Forward (vlan_isolation (map (\<lambda>v. BridgeName (VLAN_ID v)) ws) vcs) p =
     (if \<exists>v \<in> set vcs. \<exists>w \<in> set ws. crosses (ifname (pkt_iif p)) (ifname (pkt_oif p)) v w
      then Drops else NoMatch)"
proof (induction vcs)
  case Nil
  then show ?case by (simp add: vlan_isolation_def nft.chain_verdict_Nil)
next
  case (Cons v vcs)
  let ?i = "ifname (pkt_iif p)" and ?o = "ifname (pkt_oif p)"
  have one: "nft.chain_verdict Forward (if VLAN_Isolated v then isolation_rules (BridgeName (VLAN_ID v))
        (filter (\<lambda>b. b \<noteq> BridgeName (VLAN_ID v)) (map (\<lambda>v. BridgeName (VLAN_ID v)) ws)) else []) p =
      (if \<exists>w \<in> set ws. crosses ?i ?o v w then Drops else NoMatch)"
  proof (cases "VLAN_Isolated v")
    case True
    have "(\<exists>b \<in> set (filter (\<lambda>b. b \<noteq> BridgeName (VLAN_ID v)) (map (\<lambda>v. BridgeName (VLAN_ID v)) ws)).
        ?i = ifname (BridgeName (VLAN_ID v)) \<and> ?o = ifname b \<or>
        ?i = ifname b \<and> ?o = ifname (BridgeName (VLAN_ID v))) \<longleftrightarrow> (\<exists>w \<in> set ws. crosses ?i ?o v w)"
      unfolding crosses_def using True by auto
    then show ?thesis unfolding if_P [OF True] nft.isolation_verdict by simp
  next
    case False
    then show ?thesis by (simp add: crosses_def nft.chain_verdict_Nil)
  qed
  have join: "(if (if P then Drops else NoMatch) = NoMatch then if Q then Drops else NoMatch
      else (if P then Drops else NoMatch)) = (if P \<or> Q then Drops else NoMatch)" for P Q by simp
  have split: "vlan_isolation bs (v # vcs) = (if VLAN_Isolated v then isolation_rules (BridgeName (VLAN_ID v))
      (filter (\<lambda>b. b \<noteq> BridgeName (VLAN_ID v)) bs) else []) @ vlan_isolation bs vcs" for bs
    by (simp add: vlan_isolation_def)
  show ?case
    unfolding split nft_append one Cons join by (simp only: list.set bex_simps insert_iff Set.bex_simps)
qed

lemma setup_firewall_rules:
  assumes "setup_firewall lookup flush c = Inr (Some m)" and "Config_VLANs c \<noteq> []"
  shows "mgr_rules m = map (masq_rule (NAT_OutInterface (Config_NAT c))) (vlan_nets (Config_VLANs c)) @
    vlan_isolation (map (\<lambda>v. BridgeName (VLAN_ID v)) (Config_VLANs c)) (Config_VLANs c)"
proof -
  from assms obtain m0 where
    n: "nat_vlan_loop lookup flush (NAT_OutInterface (Config_NAT c)) (Config_VLANs c) None = Inr (Some m0)" and
    i: "isolation_loop flush (map (\<lambda>vc. BridgeName (VLAN_ID vc)) (Config_VLANs c)) (Config_VLANs c) m0 = Inr m"
    by (auto simp: setup_firewall_def setup_nat_def Let_def split: sum.splits option.splits if_splits)
  show ?thesis
    using nat_vlan_loop_None [OF n] isolation_loop_rules [OF i] by simp
qed

text \<open>
  In VLAN mode with NAT, a packet forwarded from the bridge of one VLAN to that of another is
  dropped exactly when one of the two VLANs is isolated, in both directions; a packet to or from an
  interface that is no VLAN bridge, such as the uplink, is never dropped.
\<close>

lemma isolation_enforced:
  assumes "setup_firewall lookup flush c = Inr (Some m)"
    and "\<forall>v \<in> set (Config_VLANs c). vlan_id (VLAN_ID v)"
    and "v \<in> set (Config_VLANs c)" and "w \<in> set (Config_VLANs c)" and "VLAN_ID v \<noteq> VLAN_ID w"
    and "distinct (map VLAN_ID (Config_VLANs c))"
  shows "(pkt_iif p = BridgeName (VLAN_ID v) \<and> pkt_oif p = BridgeName (VLAN_ID w) \<longrightarrow>
      (nft.chain_verdict Forward (mgr_rules m) p = Drops \<longleftrightarrow> VLAN_Isolated v \<or> VLAN_Isolated w)) \<and>
    ((\<forall>u \<in> set (Config_VLANs c). ifname (pkt_oif p) \<noteq> ifname (BridgeName (VLAN_ID u))) \<or>
     (\<forall>u \<in> set (Config_VLANs c). ifname (pkt_iif p) \<noteq> ifname (BridgeName (VLAN_ID u))) \<longrightarrow>
      nft.chain_verdict Forward (mgr_rules m) p = NoMatch)"
proof -
  let ?vs = "Config_VLANs c"
  have "?vs \<noteq> []" using assms(3) by auto
  note rules = setup_firewall_rules [OF assms(1) this]
  have verdict: "nft.chain_verdict Forward (mgr_rules m) p =
      (if \<exists>v \<in> set ?vs. \<exists>w \<in> set ?vs. crosses (ifname (pkt_iif p)) (ifname (pkt_oif p)) v w then Drops else NoMatch)"
    unfolding rules nft_append masq_forward vlan_isolation_verdict by simp
  have same: "u = u'" if "u \<in> set ?vs" "u' \<in> set ?vs" "VLAN_ID u = VLAN_ID u'" for u u'
    using that assms(6) by (auto simp: distinct_map inj_on_def)
  have bn: "ifname (BridgeName (VLAN_ID u)) = ifname (BridgeName (VLAN_ID u')) \<longleftrightarrow> VLAN_ID u = VLAN_ID u'"
    if "u \<in> set ?vs" "u' \<in> set ?vs" for u u'
    using that assms(2) ifname_BridgeName by blast
  have cr: "(\<exists>x \<in> set ?vs. \<exists>y \<in> set ?vs. crosses (ifname (BridgeName (VLAN_ID v))) (ifname (BridgeName (VLAN_ID w))) x y) \<longleftrightarrow>
      VLAN_Isolated v \<or> VLAN_Isolated w" (is "?L \<longleftrightarrow> ?R")
  proof
    assume ?L
    then obtain x y where xy: "x \<in> set ?vs" "y \<in> set ?vs"
      "crosses (ifname (BridgeName (VLAN_ID v))) (ifname (BridgeName (VLAN_ID w))) x y" by blast
    then have "VLAN_Isolated x" "VLAN_ID v = VLAN_ID x \<or> VLAN_ID w = VLAN_ID x"
      using bn assms(3,4) by (auto simp: crosses_def)
    then show ?R using same assms(3,4) xy(1) by blast
  next
    assume ?R
    then show ?L using assms(3-5) unfolding crosses_def by (metis (no_types))
  qed
  have wan: "\<not> (\<exists>x \<in> set ?vs. \<exists>y \<in> set ?vs. crosses i j x y)"
    if "(\<forall>u \<in> set ?vs. j \<noteq> ifname (BridgeName (VLAN_ID u))) \<or> (\<forall>u \<in> set ?vs. i \<noteq> ifname (BridgeName (VLAN_ID u)))" for i j
    using that unfolding crosses_def by blast
  show ?thesis using verdict cr wan by auto
qed

definition iso_config :: config where
  "iso_config = Default\<lparr>Config_VLANs :=
     [\<lparr>VLAN_ID = 10, VLAN_Name = ''home'', VLAN_Ports = [], VLAN_Address = ''10.0.10.1/24'',
       VLAN_DHCP = zero_dhcp, VLAN_NAT = True, VLAN_Isolated = False\<rparr>,
      \<lparr>VLAN_ID = 30, VLAN_Name = ''iot'', VLAN_Ports = [], VLAN_Address = ''10.0.30.1/24'',
       VLAN_DHCP = zero_dhcp, VLAN_NAT = True, VLAN_Isolated = True\<rparr>]\<rparr>"

lemma iso_setup:
  "\<exists>m. setup_firewall (\<lambda>_. True) (\<lambda>_. True) iso_config = Inr (Some m)"
proof -
  have p: "ParseCIDR ''10.0.10.1/24'' \<noteq> None" "ParseCIDR ''10.0.30.1/24'' \<noteq> None" by code_simp+
  then obtain a n b k where "ParseCIDR ''10.0.10.1/24'' = Some (a, n)" "ParseCIDR ''10.0.30.1/24'' = Some (b, k)"
    by auto
  then show ?thesis
    by (simp add: setup_firewall_def setup_nat_def iso_config_def Default_def nat_Setup_def AddSource_def
        AddIsolation_def Let_def)
qed

text \<open>Masks of IPv4 networks.\<close>

lemma masked_source:
  assumes "length (IPNet_IP n) = 4" and "length (IPNet_Mask n) = 4" and "length src = 4"
    and "map2 (AND) (IPNet_IP n) (IPNet_Mask n) = IPNet_IP n"
  shows "bitwise_mask (IPNet_Mask n) [0, 0, 0, 0] src = To4 (IPNet_IP n) \<longleftrightarrow> IPNet_Contains n src"
proof -
  have x: "map2 (XOR) xs [0, 0, 0, 0] = xs" if "length xs = 4" for xs :: bytes
    using that by (auto elim: length_4_cases)
  have l: "length (map2 (AND) src (IPNet_Mask n)) = 4" using assms by simp
  have "bitwise_mask (IPNet_Mask n) [0, 0, 0, 0] src = map2 (AND) src (IPNet_Mask n)"
    unfolding bitwise_mask_def by (rule x [OF l])
  moreover have "To4 (IPNet_IP n) = IPNet_IP n" using assms(1) by (simp add: To4_def)
  moreover have "IPNet_Contains n src \<longleftrightarrow> map2 (AND) (IPNet_IP n) (IPNet_Mask n) = map2 (AND) src (IPNet_Mask n)"
    using IPNet_Contains_v4 [OF assms(1-3)] by (cases n) simp
  ultimately show ?thesis using assms(4) by auto
qed

lemma length_cidr_bytes [simp]: "length (cidr_bytes k n) = n"
  by (induction k n rule: cidr_bytes.induct) auto

lemma map2_and_idem: "length a = length m \<Longrightarrow> map2 (AND) (map2 (AND) a m) m = map2 (AND) a (m :: bytes)"
  by (induction a m rule: list_induct2) (simp_all add: and.assoc)

lemma ParseCIDR_v4_net:
  assumes "ParseCIDR s = Some (a, n)" and "length (IPNet_Mask n) = 4"
  shows "length (IPNet_IP n) = 4" "map2 (AND) (IPNet_IP n) (IPNet_Mask n) = IPNet_IP n"
proof -
  obtain b k where n: "n = \<lparr>IPNet_IP = IP_Mask (As16 b) k, IPNet_Mask = k\<rparr>" "length b = 4" "length k = 4"
    using assms by (auto simp: ParseCIDR_def Let_def split: prod.splits option.splits if_splits)
  then have "IP_Mask (As16 b) k = map2 (AND) b k"
    by (simp add: IP_Mask_def As16_def Let_def v4InV6Prefix_def)
  with n show "length (IPNet_IP n) = 4" "map2 (AND) (IPNet_IP n) (IPNet_Mask n) = IPNet_IP n"
    by (simp_all add: map2_and_idem)
qed

lemma masq_verdict:
  assumes "\<forall>n \<in> set ns. length (IPNet_IP n) = 4 \<and> length (IPNet_Mask n) = 4 \<and>
      map2 (AND) (IPNet_IP n) (IPNet_Mask n) = IPNet_IP n"
    and "length (take 4 (drop 12 (pkt_header p))) = 4"
  shows "nft.chain_verdict Postrouting (map (masq_rule out) ns) p =
    (if ifname (pkt_oif p) = ifname out \<and> (\<exists>n \<in> set ns. IPNet_Contains n (take 4 (drop 12 (pkt_header p))))
     then Masquerades else NoMatch)"
  using assms(1)
proof (induction ns)
  case (Cons n ns)
  have src: "bitwise_mask (IPNet_Mask n) [0, 0, 0, 0] (take 4 (drop 12 (pkt_header p))) = To4 (IPNet_IP n) \<longleftrightarrow>
      IPNet_Contains n (take 4 (drop 12 (pkt_header p)))"
    using Cons.prems assms(2) by (intro masked_source) auto
  have first: "nft.chain_verdict Postrouting (masq_rule out n # rs) p =
      (if IPNet_Contains n (take 4 (drop 12 (pkt_header p))) \<and> ifname (pkt_oif p) = ifname out then Masquerades
       else nft.chain_verdict Postrouting rs p)" for rs
    unfolding nft.chain_verdict_Cons nft.run_masq_rule src by (simp add: masq_rule_def)
  have join: "(if P \<and> Q then Masquerades else if Q \<and> R then Masquerades else NoMatch) =
      (if Q \<and> (P \<or> R) then Masquerades else NoMatch)" for P Q R by auto
  have IH: "nft.chain_verdict Postrouting (map (masq_rule out) ns) p =
      (if ifname (pkt_oif p) = ifname out \<and> (\<exists>n \<in> set ns. IPNet_Contains n (take 4 (drop 12 (pkt_header p))))
       then Masquerades else NoMatch)"
    using Cons.prems by (intro Cons.IH) auto
  show ?case
    by (simp only: list.map first IH join list.set bex_simps Set.bex_simps insert_iff)
qed (simp add: nft.chain_verdict_Nil)


definition iso_packet :: packet where
  "iso_packet = \<lparr>pkt_header = [69, 0, 0, 20, 0, 0, 0, 0, 64, 17, 0, 0, 10, 0, 30, 7, 1, 1, 1, 1],
     pkt_iif = ''br-vlan30'', pkt_oif = ''wan''\<rparr>"


text \<open>
  Isolation depends on NAT: if NAT is off, or no VLAN uses it, no rule is installed and an
  isolated VLAN is not isolated.
\<close>

lemma isolation_needs_nat:
  assumes "\<not> NAT_Enabled (Config_NAT c) \<or> Config_VLANs c \<noteq> [] \<and> vlan_nets (Config_VLANs c) = []"
  shows "setup_firewall lookup flush c = Inr None"
proof -
  have "nat_vlan_loop lookup flush out vs None = Inr None" if "vlan_nets vs = []" for out vs
    using that by (induction vs) (auto simp: vlan_nets_Cons split: option.splits if_splits)
  with assms show ?thesis by (auto simp: setup_firewall_def setup_nat_def Let_def)
qed

lemma isolation_needs_nat_example:
  "setup_firewall (\<lambda>_. True) (\<lambda>_. True) (iso_config\<lparr>Config_NAT := \<lparr>NAT_Enabled = False, NAT_OutInterface = ''wan''\<rparr>\<rparr>) = Inr None \<and>
   (\<exists>v \<in> set (Config_VLANs iso_config). VLAN_Isolated v)"
proof
  show "setup_firewall (\<lambda>_. True) (\<lambda>_. True)
      (iso_config\<lparr>Config_NAT := \<lparr>NAT_Enabled = False, NAT_OutInterface = ''wan''\<rparr>\<rparr>) = Inr None"
    by (rule isolation_needs_nat) simp
  show "\<exists>v \<in> set (Config_VLANs iso_config). VLAN_Isolated v" by (simp add: iso_config_def)
qed

end
