(* ===== verification/Router.thy ===== *)
theory Router
  imports DHCP Config PXE "HOL-Library.List_Lexorder" "HOL-Library.Char_ord"
begin

section \<open>The router daemon (cmd/gokrazy-router)\<close>

text \<open>
  The part of \<open>cmd/gokrazy-router/main.go\<close> that decides: the defaults applied to the
  configuration at start-up, the options each DHCP server gets, the reload of the extras file with
  the changes it refuses, and the HTTP endpoint that triggers it. The TOML codec is a parameter.
\<close>

subsection \<open>Defaults at start-up\<close>

definition default_dns :: "string list \<Rightarrow> dhcp_config \<Rightarrow> dhcp_config" where
  "default_dns dns d = (if length (DHCP_DNS d) = 0 then d\<lparr>DHCP_DNS := dns\<rparr> else d)"

definition apply_default_dns :: "config \<Rightarrow> config" where
  "apply_default_dns c =
     (if 0 < length (Config_DNS c) then map_scopes (default_dns (Config_DNS c)) c else c)"

text \<open>The share path and the TFTP root that default to the mounted volume.\<close>

definition derive_service_paths :: "config \<Rightarrow> config" where
  "derive_service_paths c =
     (let sv = Config_Services c; target = Mount_Target (Services_Mount sv);
          smb = Services_SMB sv; pxe = Services_PXE sv
      in c\<lparr>Config_Services := sv\<lparr>
           Services_SMB := (if SMB_Enabled smb \<and> SMB_SharePath smb = []
                            then smb\<lparr>SMB_SharePath := target\<rparr> else smb),
           Services_PXE := (if PXE_Enabled pxe \<and> PXE_TFTPRoot pxe = []
                            then pxe\<lparr>PXE_TFTPRoot := path_Join target ''tftpboot''\<rparr> else pxe)\<rparr>\<rparr>)"

definition main_cloneStringMap :: "string_map \<Rightarrow> string_map" where
  "main_cloneStringMap m =
     (case m of None \<Rightarrow> None | Some es \<Rightarrow> Some (range_put gput (\<lambda>k. k) es []))"

definition clone_scope :: "dhcp_config \<Rightarrow> dhcp_config" where
  "clone_scope d = d\<lparr>DHCP_Reservations := main_cloneStringMap (DHCP_Reservations d)\<rparr>"

definition cloneConfig :: "config \<Rightarrow> config" where
  "cloneConfig c =
     (map_scopes clone_scope c)\<lparr>Config_Services := (Config_Services c)\<lparr>Services_PXE :=
       (Services_PXE (Config_Services c))\<lparr>PXE_MacImages :=
         main_cloneStringMap (PXE_MacImages (Services_PXE (Config_Services c)))\<rparr>\<rparr>\<rparr>"

definition loadOrCreateExtras ::
  "(bytes \<Rightarrow> string + extras_config) \<Rightarrow> (extras_config \<Rightarrow> string + bytes) \<Rightarrow> string \<Rightarrow> config \<Rightarrow> fs \<Rightarrow>
   (config_error + extras_config) \<times> fs" where
  "loadOrCreateExtras decode encode path cfg f =
     (case LoadExtras decode path f of
        Inr e \<Rightarrow> (Inr e, f)
      | Inl err \<Rightarrow>
        if err \<noteq> ErrOpenNotExist then (Inl err, f)
        else
          (let e = ExtrasFromConfig cfg; (werr, f') = Save encode path e f
           in (case werr of Some x \<Rightarrow> (Inl x, f') | None \<Rightarrow> (Inr e, f'))))"

text \<open>
  The configuration the services start with, and the snapshot of router.json taken before the
  extras are merged.
\<close>

record boot_state =
  boot_cfg :: config
  boot_base :: config
  boot_extras :: "extras_config option"
  boot_fs :: fs

definition boot_config ::
  "(bytes \<Rightarrow> string + config) \<Rightarrow> (bytes \<Rightarrow> string + extras_config) \<Rightarrow> (extras_config \<Rightarrow> string + bytes) \<Rightarrow>
   (string \<Rightarrow> string) \<Rightarrow> string \<Rightarrow> fs \<Rightarrow> boot_state" where
  "boot_config decodeJSON decode encode env configPath f =
     (let cfg0 = (case Load decodeJSON configPath f of Inl e \<Rightarrow> Default | Inr c \<Rightarrow> c);
          cfg = apply_default_dns (ExpandEnv env cfg0);
          base = cloneConfig cfg;
          path = Services_ExtrasFile (Config_Services cfg);
          (extras, f') =
            (if path \<noteq> []
             then (case loadOrCreateExtras decode encode path cfg f of
                     (Inl e, f1) \<Rightarrow> (None, f1) | (Inr e, f1) \<Rightarrow> (Some e, f1))
             else (None, f))
      in \<lparr>boot_cfg = derive_service_paths (ApplyExtras extras cfg), boot_base = base,
          boot_extras = extras, boot_fs = f'\<rparr>)"

subsection \<open>Options of the DHCP servers\<close>

definition ifaceIPFromCIDR :: "string \<Rightarrow> string" where
  "ifaceIPFromCIDR cidr =
     (case ParseCIDR cidr of
        None \<Rightarrow> []
      | Some (a, net) \<Rightarrow> if To4 a = [] then [] else IPv4_String (To4 a))"

definition or_default :: "string \<Rightarrow> string \<Rightarrow> string" where
  "or_default x d = (if x = [] then d else x)"

definition applyPXEBootOptions :: "bool \<Rightarrow> string \<Rightarrow> string_map \<Rightarrow> pxe_config \<Rightarrow> server \<Rightarrow> server" where
  "applyPXEBootOptions pxeEnabled tftpServer macImages pxeCfg srv =
     (if \<not> pxeEnabled then srv
      else
        (let b0 = PXE_BootFile pxeCfg;
             b1 = (if b0 = [] \<and> PXE_DefaultImage pxeCfg \<noteq> [] then PXE_DefaultImage pxeCfg else b0);
             bootFile = or_default b1 ''netboot.xyz.efi'';
             legacy = or_default (PXE_LegacyBootFile pxeCfg) bootFile;
             uefi = or_default (PXE_UEFIBootFile pxeCfg) ''netboot.xyz.efi'';
             ipxe = or_default (PXE_IPXEScript pxeCfg) ''boot.ipxe'';
             srv1 = (if tftpServer \<noteq> [] \<or> bootFile \<noteq> [] then SetPXEOptions tftpServer bootFile srv else srv)
         in SetMacPXEBootFiles (entries macImages)
              (SetIPXEBootFile ipxe (SetUEFIBootFile uefi (SetLegacyBootFile legacy srv1)))))"

definition applyDHCPOptions ::
  "dhcp_config \<Rightarrow> bool \<Rightarrow> string \<Rightarrow> string_map \<Rightarrow> pxe_config \<Rightarrow> server \<Rightarrow> server" where
  "applyDHCPOptions dhcpcfg pxeEnabled tftpServer macImages pxeCfg srv =
     (let srv1 = (if 0 < length (entries (DHCP_Reservations dhcpcfg))
                  then SetReservations (entries (DHCP_Reservations dhcpcfg)) srv else srv)
      in if \<not> pxeEnabled then srv1
         else
           (let bootServer = (if DHCP_PXEBootServer dhcpcfg \<noteq> [] then DHCP_PXEBootServer dhcpcfg else tftpServer);
                scopePXE = (if DHCP_PXEBootFile dhcpcfg \<noteq> []
                            then pxeCfg\<lparr>PXE_BootFile := DHCP_PXEBootFile dhcpcfg\<rparr> else pxeCfg)
            in applyPXEBootOptions True bootServer macImages scopePXE srv1))"

text \<open>One running DHCP server with the scope of the base snapshot it belongs to.\<close>

record dhcp_entry =
  entry_srv :: server
  entry_tftpAddr :: string
  entry_baseScope :: dhcp_config

text \<open>
  The DHCP server of one scope as it is started: \<open>dhcp.New\<close>, the options and the callbacks of the
  status monitor, if there is one. \<open>None\<close> is \<open>log.Fatalf\<close>.
\<close>

definition start_dhcp ::
  "bool \<Rightarrow> string \<Rightarrow> string \<Rightarrow> dhcp_config \<Rightarrow> dhcp_config \<Rightarrow> pxe_config \<Rightarrow> dhcp_entry option" where
  "start_dhcp monitor ifc addr d baseScope pxe =
     (case dhcp_New ifc addr (DHCP_RangeStart d) (DHCP_RangeEnd d) (DHCP_DNS d) (ParseLeaseDuration d) of
        Inl e \<Rightarrow> None
      | Inr srv \<Rightarrow>
        (let srv1 = applyDHCPOptions d (PXE_Enabled pxe) (ifaceIPFromCIDR addr) (PXE_MacImages pxe) pxe srv
         in Some \<lparr>entry_srv = (if monitor then OnLeaseExpired (OnLease srv1) else srv1),
                  entry_tftpAddr = ifaceIPFromCIDR addr, entry_baseScope = baseScope\<rparr>))"

subsection \<open>SMB users\<close>

definition extrasSMBUsers :: "extras_config option \<Rightarrow> smb_user list" where
  "extrasSMBUsers extras = (case extras of None \<Rightarrow> [] | Some e \<Rightarrow> Extras_SMBUsers e)"

definition smbUsersKey :: "smb_user list \<Rightarrow> string" where
  "smbUsersKey users =
     Join (sort (map (\<lambda>u. SMBUser_Name u @ '':'' @ SMBUser_Password u) users)) [CHR 0x00]"

definition equalSMBUsers :: "smb_user list \<Rightarrow> smb_user list \<Rightarrow> bool" where
  "equalSMBUsers a b = (smbUsersKey a = smbUsersKey b)"

subsection \<open>Reload\<close>

record reloader =
  rel_cfg :: config
  rel_base :: config
  rel_extrasPath :: string
  rel_dhcpEntries :: "dhcp_entry list"
  rel_pxeSrv :: "pxe_server option"
  rel_appliedSMBUsers :: "smb_user list"

datatype reload_error =
    NoExtrasFile | VLANAddressChanged int string string | SMBUsersChanged

definition restartRequiredError :: "reload_error \<Rightarrow> bool" where
  "restartRequiredError e = (e \<noteq> NoExtrasFile)"

text \<open>The inner loop of \<open>checkRestartRequired\<close>: the first VLAN with the ID decides.\<close>

fun check_vlan_address :: "int \<Rightarrow> string \<Rightarrow> vlan_config list \<Rightarrow> reload_error option" where
  "check_vlan_address i addr [] = None"
| "check_vlan_address i addr (v # vs) =
     (if VLAN_ID v \<noteq> i then check_vlan_address i addr vs
      else if addr \<noteq> VLAN_Address v then Some (VLANAddressChanged (VLAN_ID v) (VLAN_Address v) addr)
      else None)"

fun check_vlan_addresses :: "(int \<times> string) list \<Rightarrow> vlan_config list \<Rightarrow> reload_error option" where
  "check_vlan_addresses [] vs = None"
| "check_vlan_addresses ((i, addr) # xs) vs =
     (case check_vlan_address i addr vs of Some e \<Rightarrow> Some e | None \<Rightarrow> check_vlan_addresses xs vs)"

definition checkRestartRequired :: "extras_config \<Rightarrow> reloader \<Rightarrow> reload_error option" where
  "checkRestartRequired extras r =
     (case check_vlan_addresses (entries (Extras_VLANAddresses extras)) (Config_VLANs (rel_cfg r)) of
        Some e \<Rightarrow> Some e
      | None \<Rightarrow> if \<not> equalSMBUsers (rel_appliedSMBUsers r) (Extras_SMBUsers extras)
                then Some SMBUsersChanged else None)"

definition mergedReservations :: "string_map \<Rightarrow> string_map \<Rightarrow> (string, string) gomap" where
  "mergedReservations base extras =
     range_put gput (\<lambda>k. k) (entries extras) (range_put gput (\<lambda>k. k) (entries base) [])"

definition reload_entry :: "config \<Rightarrow> extras_config \<Rightarrow> dhcp_entry \<Rightarrow> dhcp_entry" where
  "reload_entry cfg extras e =
     (let res = mergedReservations (DHCP_Reservations (entry_baseScope e)) (Extras_Reservations extras);
          pxe = Services_PXE (Config_Services cfg);
          bs = (if PXE_Enabled pxe then entry_tftpAddr e else [])
      in e\<lparr>entry_srv := applyPXEBootOptions (PXE_Enabled pxe) bs (PXE_MacImages pxe) pxe
             (SetReservations res (entry_srv e))\<rparr>)"

text \<open>\<open>Reload\<close> up to the point where the extras are known, and the rest of it.\<close>

definition reload_apply :: "extras_config \<Rightarrow> reloader \<Rightarrow> reload_error option \<times> reloader" where
  "reload_apply extras r =
     (case checkRestartRequired extras r of
        Some e \<Rightarrow> (Some e, r)
      | None \<Rightarrow>
        (let cfg = ApplyExtras (Some extras) (rel_cfg r)
         in (None, r\<lparr>rel_cfg := cfg,
               rel_dhcpEntries := map (reload_entry cfg extras) (rel_dhcpEntries r),
               rel_pxeSrv := map_option (\<lambda>s. SetDefaultImage (Extras_DefaultImage extras)
                 (SetMacImages (Extras_MacImages extras) s)) (rel_pxeSrv r)\<rparr>)))"

definition Reload ::
  "(bytes \<Rightarrow> string + extras_config) \<Rightarrow> (extras_config \<Rightarrow> string + bytes) \<Rightarrow> reloader \<Rightarrow> fs \<Rightarrow>
   reload_error option \<times> reloader \<times> fs" where
  "Reload decode encode r f =
     (if rel_extrasPath r = [] then (Some NoExtrasFile, r, f)
      else
        (let (res, f') = loadOrCreateExtras decode encode (rel_extrasPath r) (rel_cfg r) f;
             extras = (case res of Inl e \<Rightarrow> zero_extras | Inr e \<Rightarrow> e);
             (err, r') = reload_apply extras r
         in (err, r', f')))"

subsection \<open>The reload endpoint\<close>

record http_request =
  http_Method :: string
  http_Authorization :: string

text \<open>\<open>subtle.ConstantTimeCompare\<close> on slices of equal length.\<close>

definition ConstantTimeCompare :: "bytes \<Rightarrow> bytes \<Rightarrow> int" where
  "ConstantTimeCompare x y = (if length x \<noteq> length y then 0 else if x = y then 1 else 0)"

definition reload_authorized :: "admin_api_config \<Rightarrow> http_request \<Rightarrow> bool" where
  "reload_authorized api req =
     (if AdminAPI_AllowUnauthenticatedReload api then True
      else if AdminAPI_Token api = [] then False
      else
        (let expected = bytes_of_string (''Bearer '' @ AdminAPI_Token api);
             got = bytes_of_string (http_Authorization req)
         in \<not> (length got \<noteq> length expected \<or> ConstantTimeCompare got expected \<noteq> 1)))"

text \<open>The status code of the response, with the effects of the reload.\<close>

definition reload_endpoint ::
  "(bytes \<Rightarrow> string + extras_config) \<Rightarrow> (extras_config \<Rightarrow> string + bytes) \<Rightarrow> admin_api_config \<Rightarrow>
   http_request \<Rightarrow> reloader \<Rightarrow> fs \<Rightarrow> nat \<times> reloader \<times> fs" where
  "reload_endpoint decode encode api req r f =
     (if http_Method req \<noteq> ''POST'' then (405, r, f)
      else if \<not> reload_authorized api req then (401, r, f)
      else
        (let (err, r', f') = Reload decode encode r f
         in (case err of
               None \<Rightarrow> (200, r', f')
             | Some e \<Rightarrow> if restartRequiredError e then (409, r', f') else (500, r', f'))))"

definition admin_addr :: "config \<Rightarrow> string" where
  "admin_addr c = or_default (AdminAPI_Listen (Services_AdminAPI (Config_Services c))) ''127.0.0.1:8080''"

end
