(* ===== verification/Router_Props.thy ===== *)
theory Router_Props
  imports Router DHCP_Props Config_Props "HOL-Library.Multiset"
begin

section \<open>Properties of the router daemon\<close>

text \<open>
  Reloads: who may trigger one, what a refused one leaves alone, that a successful one is a
  sequence of ordinary steps of the DHCP servers, and that its result depends on the extras file
  only, not on the reloads before it.
\<close>

subsection \<open>A reload as steps of the DHCP servers\<close>

lemma dhcp_reachable_settings:
  assumes "dhcp_reachable (s, now)"
  shows "dhcp_reachable (SetReservations res s, now)"
    and "dhcp_reachable (applyPXEBootOptions en tftp imgs pxe s, now)"
proof -
  show "dhcp_reachable (SetReservations res s, now)"
    by (rule dhcp_reachable.step [OF assms dhcp_step.reserve])
  have opt: "dhcp_reachable (SetPXEOptions a b t, now)" "dhcp_reachable (SetLegacyBootFile f t, now)"
    "dhcp_reachable (SetUEFIBootFile f t, now)" "dhcp_reachable (SetIPXEBootFile f t, now)"
    "dhcp_reachable (SetMacPXEBootFiles m t, now)" if "dhcp_reachable (t, now)" for t a b f m
    using dhcp_reachable.step [OF that] dhcp_step.pxe dhcp_step.legacy dhcp_step.uefi dhcp_step.ipxe
      dhcp_step.mac_files by blast+
  show "dhcp_reachable (applyPXEBootOptions en tftp imgs pxe s, now)"
    using assms by (simp add: applyPXEBootOptions_def Let_def opt)
qed

lemma applyPXEBootOptions_keeps:
  "srv_leases (applyPXEBootOptions en tftp imgs pxe s) = srv_leases s"
  "srv_reservations (applyPXEBootOptions en tftp imgs pxe s) = srv_reservations s"
  "held (applyPXEBootOptions en tftp imgs pxe s) = held s"
  by (auto simp: applyPXEBootOptions_def Let_def setting_defs held_def fun_eq_iff)

lemma SetReservations_held [simp]: "held (SetReservations res s) = held s"
  by (simp add: held_def fun_eq_iff SetReservations_def)

lemma reload_entry_srv:
  "srv_reservations (entry_srv (reload_entry cfg extras e)) = srv_reservations (SetReservations
     (mergedReservations (DHCP_Reservations (entry_baseScope e)) (Extras_Reservations extras)) (entry_srv e))"
  "held (entry_srv (reload_entry cfg extras e)) = held (entry_srv e)"
  "dhcp_reachable (entry_srv e, now) \<Longrightarrow> dhcp_reachable (entry_srv (reload_entry cfg extras e), now)"
  by (simp_all add: reload_entry_def Let_def applyPXEBootOptions_keeps dhcp_reachable_settings)

text \<open>The merged map, with the extras on top.\<close>

lemma gwf_merged: "gwf (mergedReservations b x)"
  by (simp add: mergedReservations_def gwf_range_put)

lemma glookup_merged:
  assumes "gwf (entries b)" and "gwf (entries x)"
  shows "glookup (mergedReservations b x) k =
    (case glookup (entries x) k of Some v \<Rightarrow> Some v | None \<Rightarrow> glookup (entries b) k)"
proof -
  have rv: "map_of (rev (map (\<lambda>(a, v). (a, v)) es)) k = map_of es k" if "gwf es" for es :: "(string \<times> string) list"
    using that map_of_inject_set [of "rev es" es] by (simp add: rev_map [symmetric])
  show ?thesis
    using gm.lookup_range_put [of "range_put gput (\<lambda>k. k) (entries b) []" "\<lambda>k. k" "entries x" k]
      gm.lookup_range_put [of "[]" "\<lambda>k. k" "entries b" k] rv [OF assms(1)] rv [OF assms(2)]
    by (auto simp: mergedReservations_def gwf_range_put split: option.splits)
qed

lemma reload_apply_success:
  "reload_apply extras r = (None, r') \<Longrightarrow>
     rel_dhcpEntries r' = map (reload_entry (ApplyExtras (Some extras) (rel_cfg r)) extras) (rel_dhcpEntries r) \<and>
     rel_cfg r' = ApplyExtras (Some extras) (rel_cfg r) \<and>
     rel_pxeSrv r' = map_option (\<lambda>s. SetDefaultImage (Extras_DefaultImage extras)
       (SetMacImages (Extras_MacImages extras) s)) (rel_pxeSrv r)"
  by (auto simp: reload_apply_def Let_def split: option.splits)


definition demo_reloader :: reloader where
  "demo_reloader = \<lparr>rel_cfg = Default, rel_base = Default, rel_extrasPath = ''/x.toml'',
     rel_dhcpEntries = [\<lparr>entry_srv = demo_leased, entry_tftpAddr = ''10.0.0.1'',
       entry_baseScope = zero_dhcp\<lparr>DHCP_Reservations := Some [(''cc'', ''10.0.0.8'')]\<rparr>\<rparr>],
     rel_pxeSrv = Some (pxe_New (Services_PXE zero_services)), rel_appliedSMBUsers = []\<rparr>"

definition reload_extras :: extras_config where
  "reload_extras = zero_extras\<lparr>Extras_Reservations := Some [(''cc'', ''10.0.0.9''), (''dd'', ''10.0.7.9'')]\<rparr>"

lemma demo_reload_ok: "\<exists>r'. reload_apply reload_extras demo_reloader = (None, r')"
  by (simp add: reload_apply_def checkRestartRequired_def reload_extras_def zero_extras_def
      demo_reloader_def equalSMBUsers_def smbUsersKey_def Let_def)


lemma applyPXE_idem:
  "applyPXEBootOptions True t imgs pxe (applyPXEBootOptions True t' imgs' pxe' s) = applyPXEBootOptions True t imgs pxe s"
  by (simp add: applyPXEBootOptions_def Let_def setting_defs or_default_def)

lemma SetReservations_again: "SetReservations res (SetReservations res' s) = SetReservations res s"
  by (simp add: SetReservations_def server_subnet_def)

lemma applyPXE_SetReservations:
  "SetReservations res (applyPXEBootOptions True t imgs pxe s) = applyPXEBootOptions True t imgs pxe (SetReservations res s)"
  by (auto simp: applyPXEBootOptions_def Let_def setting_defs or_default_def SetReservations_def server_subnet_def)

lemma ApplyExtras_pxe_again:
  "Services_PXE (Config_Services (ApplyExtras (Some e2) (ApplyExtras (Some e1) c))) =
   Services_PXE (Config_Services (ApplyExtras (Some e2) c))"
  by (simp add: ApplyExtras_services apply_pxe_overrides_def)

lemma PXE_Enabled_ApplyExtras [simp]:
  "PXE_Enabled (Services_PXE (Config_Services (ApplyExtras (Some e) c))) = PXE_Enabled (Services_PXE (Config_Services c))"
  by (simp add: ApplyExtras_services apply_pxe_overrides_def)


definition pxe_reloader :: reloader where
  "pxe_reloader = demo_reloader\<lparr>rel_cfg := Default\<lparr>Config_Services := zero_services\<lparr>Services_PXE :=
     (Services_PXE zero_services)\<lparr>PXE_Enabled := True\<rparr>\<rparr>\<rparr>\<rparr>"

lemma pxe_reload_ok:
  "Extras_VLANAddresses e = None \<Longrightarrow> Extras_SMBUsers e = [] \<Longrightarrow> rel_appliedSMBUsers r = [] \<Longrightarrow>
     reload_apply e r = (None, snd (reload_apply e r)) \<and> rel_appliedSMBUsers (snd (reload_apply e r)) = []"
  by (simp add: reload_apply_def checkRestartRequired_def equalSMBUsers_def smbUsersKey_def Let_def)


text \<open>
  C22: A reload request changes a running service only if it is a POST, the endpoint is open or the
  request carries the configured, non-empty bearer token, and the response is 200. A reload that
  is refused or fails leaves every service as it was.
\<close>

theorem reload_endpoint_guarded:
  assumes "reload_endpoint decode encode api req r f = (code, r', f')" and "r' \<noteq> r \<or> f' \<noteq> f"
  shows "http_Method req = ''POST'' \<and>
    (AdminAPI_AllowUnauthenticatedReload api \<or>
     AdminAPI_Token api \<noteq> [] \<and> http_Authorization req = ''Bearer '' @ AdminAPI_Token api) \<and>
    (r' \<noteq> r \<longrightarrow> code = 200)"
proof -
  have b: "bytes_of_string x = bytes_of_string y \<longleftrightarrow> x = y" for x y
    by (metis string_of_bytes_of_string)
  have "http_Method req = ''POST''" "reload_authorized api req"
    using assms by (auto simp: reload_endpoint_def split: if_splits)
  moreover have "AdminAPI_AllowUnauthenticatedReload api \<or>
      AdminAPI_Token api \<noteq> [] \<and> http_Authorization req = ''Bearer '' @ AdminAPI_Token api"
    using \<open>reload_authorized api req\<close>
    by (auto simp: reload_authorized_def Let_def ConstantTimeCompare_def b simp del: bytes_of_string_append
        split: if_splits)
  moreover have "code = 200" if "r' \<noteq> r"
  proof -
    obtain err where "Reload decode encode r f = (err, r', f')" "err = None \<longrightarrow> code = 200"
      using assms(1) \<open>http_Method req = ''POST''\<close> \<open>reload_authorized api req\<close>
      by (auto simp: reload_endpoint_def split: prod.splits option.splits if_splits)
    moreover from this(1) that have "err = None"
      by (auto simp: Reload_def Let_def reload_apply_def split: if_splits prod.splits option.splits)
    ultimately show ?thesis by simp
  qed
  ultimately show ?thesis by blast
qed

definition demo_fs :: fs where
  "demo_fs = \<lparr>fs_open = (\<lambda>p. FileData []), fs_writable = (\<lambda>_. True)\<rparr>"

definition demo_api :: admin_api_config where
  "demo_api = \<lparr>AdminAPI_Listen = [], AdminAPI_Token = ''s3cret'', AdminAPI_AllowUnauthenticatedReload = False\<rparr>"

definition demo_post :: http_request where
  "demo_post = \<lparr>http_Method = ''POST'', http_Authorization = ''Bearer s3cret''\<rparr>"

lemma demo_reload_changes: "snd (reload_apply reload_extras demo_reloader) \<noteq> demo_reloader"
proof
  assume same: "snd (reload_apply reload_extras demo_reloader) = demo_reloader"
  obtain r' where r: "reload_apply reload_extras demo_reloader = (None, r')"
    using demo_reload_ok by blast
  have "srv_reservations (entry_srv (rel_dhcpEntries r' ! 0)) = srv_reservations (SetReservations
      (mergedReservations (Some [(''cc'', ''10.0.0.8'')]) (Some [(''cc'', ''10.0.0.9''), (''dd'', ''10.0.7.9'')])) demo_leased)"
    using reload_apply_success [OF r] by (simp add: demo_reloader_def reload_entry_srv reload_extras_def)
  also have "\<dots> \<noteq> []" by code_simp
  finally show False
    using same r by (simp add: demo_reloader_def demo_leased_def demo_server_def)
qed

theorem reload_endpoint_guarded_witness:
  "\<exists>r' f'. reload_endpoint (\<lambda>b. Inr reload_extras) (\<lambda>e. Inr []) demo_api demo_post demo_reloader demo_fs = (200, r', f') \<and>
     AdminAPI_Token demo_api \<noteq> []"
proof -
  obtain code r' f' where e: "reload_endpoint (\<lambda>b. Inr reload_extras) (\<lambda>e. Inr []) demo_api demo_post demo_reloader demo_fs =
      (code, r', f')" by (metis prod_cases3)
  have a: "reload_authorized demo_api demo_post"
    by (simp add: reload_authorized_def demo_api_def demo_post_def ConstantTimeCompare_def)
  have l: "loadOrCreateExtras (\<lambda>b. Inr reload_extras) (\<lambda>e. Inr []) p c demo_fs = (Inr reload_extras, demo_fs)" for p c
    by (simp add: loadOrCreateExtras_def LoadExtras_def demo_fs_def)
  obtain x where x: "reload_apply reload_extras demo_reloader = (None, x)" using demo_reload_ok by blast
  have "rel_extrasPath demo_reloader \<noteq> []" by (simp add: demo_reloader_def)
  then have "Reload (\<lambda>b. Inr reload_extras) (\<lambda>e. Inr []) demo_reloader demo_fs = (None, x, demo_fs)"
    by (simp add: Reload_def l x)
  with e a have "r' = x" by (simp add: reload_endpoint_def demo_post_def)
  then have "r' \<noteq> demo_reloader" using demo_reload_changes x by auto
  from reload_endpoint_guarded [OF e] this have "code = 200" "AdminAPI_Token demo_api \<noteq> []"
    by (auto simp: demo_api_def)
  with e show ?thesis by auto
qed

subsection \<open>SMB users\<close>

definition plain_user :: "smb_user \<Rightarrow> bool" where
  "plain_user u \<longleftrightarrow> CHR '':'' \<notin> set (SMBUser_Name u) \<and> CHR 0x00 \<notin> set (SMBUser_Name u) \<and>
     CHR 0x00 \<notin> set (SMBUser_Password u)"

definition user_line :: "smb_user \<Rightarrow> string" where
  "user_line u = SMBUser_Name u @ '':'' @ SMBUser_Password u"

lemma user_line_inj:
  assumes "plain_user u" and "plain_user v" and "user_line u = user_line v"
  shows "u = v"
proof -
  have "SMBUser_Name u = SMBUser_Name v \<and> SMBUser_Password u = SMBUser_Password v"
    using assms by (intro append_sep_inj [of "CHR '':''"]) (auto simp: plain_user_def user_line_def)
  then show ?thesis by (cases u; cases v) simp
qed

lemma user_line_nul: "plain_user u \<Longrightarrow> CHR 0x00 \<notin> set (user_line u)"
  by (simp add: plain_user_def user_line_def)

lemma user_line_nonempty: "user_line u \<noteq> []"
  by (simp add: user_line_def)

lemma Join_lines_inj:
  assumes "\<forall>x \<in> set xs. c \<notin> set x \<and> x \<noteq> []" and "\<forall>y \<in> set ys. c \<notin> set y \<and> y \<noteq> []"
    and "Join xs [c] = Join ys [c]"
  shows "xs = ys"
proof (cases "xs = [] \<or> ys = []")
  case True
  have "Join zs [c] = [] \<Longrightarrow> \<forall>z \<in> set zs. z \<noteq> [] \<Longrightarrow> zs = []" for zs
    by (cases zs rule: Join.cases [of "(zs, [c])" for zs, simplified]) auto
  note empty = this [of xs] this [of ys]
  from True show ?thesis
  proof
    assume "xs = []"
    with assms empty(2) show ?thesis by simp
  next
    assume "ys = []"
    with assms empty(1) show ?thesis by simp
  qed
next
  case False
  have "Split c (Join xs [c]) = xs" using assms(1) False by (intro Split_Join) auto
  moreover have "Split c (Join ys [c]) = ys" using assms(2) False by (intro Split_Join) auto
  ultimately show ?thesis by (metis assms(3))
qed

text \<open>
  For users whose names hold no colon and that hold no NUL byte, the comparison that decides
  about a restart is equality of the user lists up to their order.
\<close>

lemma equalSMBUsers_iff:
  assumes "\<forall>u \<in> set a. plain_user u" and "\<forall>u \<in> set b. plain_user u"
  shows "equalSMBUsers a b \<longleftrightarrow> mset a = mset b"
proof
  assume "equalSMBUsers a b"
  then have "sort (map user_line a) = sort (map user_line b)"
    using assms user_line_nul user_line_nonempty
    unfolding equalSMBUsers_def smbUsersKey_def user_line_def [symmetric]
    by (intro Join_lines_inj [of _ "CHR 0x00"]) auto
  then have m: "image_mset user_line (mset a) = image_mset user_line (mset b)"
    by (metis mset_map mset_sort)
  show "mset a = mset b"
    by (rule multiset.inj_map_strong [OF _ m]) (use assms in \<open>auto intro: user_line_inj\<close>)
next
  assume "mset a = mset b"
  then have "sort (map user_line a) = sort (map user_line b)"
    by (metis mset_map properties_for_sort sorted_sort mset_sort)
  then show "equalSMBUsers a b"
    unfolding equalSMBUsers_def smbUsersKey_def user_line_def [symmetric] by simp
qed

definition demo_users :: "smb_user list" where
  "demo_users = [\<lparr>SMBUser_Name = ''ann'', SMBUser_Password = ''a:b''\<rparr>,
     \<lparr>SMBUser_Name = ''bob'', SMBUser_Password = ''pw''\<rparr>]"

lemma equalSMBUsers_iff_example:
  "equalSMBUsers demo_users (rev demo_users) \<and> \<not> equalSMBUsers demo_users (tl demo_users)"
proof -
  have p: "\<forall>u \<in> set demo_users. plain_user u" by code_simp
  then have "\<forall>u \<in> set (rev demo_users). plain_user u" "\<forall>u \<in> set (tl demo_users). plain_user u"
    by (auto simp: demo_users_def)
  from equalSMBUsers_iff [OF p this(1)] equalSMBUsers_iff [OF p this(2)] show ?thesis
    by (simp add: demo_users_def)
qed

subsection \<open>What a reload changes against the boot\<close>

text \<open>
  A DHCP scope with a boot file of its own (router.json, or \<open>pxeBootFile\<close> of the extras
  file, which \<open>ApplyExtras\<close> stores in every scope) advertises it after the start of the server. The
  next successful reload, even of the same extras file, replaces it by the global boot file, and a
  boot server configured for the scope by the address of the interface.
\<close>

lemma reload_forgets_scope_pxe:
  assumes "start_dhcp mon ifc addr d b (Services_PXE (Config_Services c)) = Some e"
    and "PXE_Enabled (Services_PXE (Config_Services c))"
    and "DHCP_PXEBootFile d \<noteq> []" and "DHCP_PXEBootServer d \<noteq> []"
    and "PXE_BootFile (Services_PXE (Config_Services c)) = global" and "global \<noteq> []"
  shows "srv_pxeBootFile (entry_srv e) = DHCP_PXEBootFile d \<and>
    srv_pxeBootServer (entry_srv e) = To4 (ParseIP (DHCP_PXEBootServer d)) \<and>
    srv_pxeBootFile (entry_srv (reload_entry c x e)) = global \<and>
    srv_pxeBootServer (entry_srv (reload_entry c x e)) =
      (if entry_tftpAddr e = [] then [] else To4 (ParseIP (ifaceIPFromCIDR addr)))"
proof -
  from assms(1,2) obtain s where e: "e = \<lparr>entry_srv = (if mon then OnLeaseExpired (OnLease s) else s),
      entry_tftpAddr = ifaceIPFromCIDR addr, entry_baseScope = b\<rparr>" and
    s: "\<exists>s0. s = applyDHCPOptions d True (ifaceIPFromCIDR addr)
      (PXE_MacImages (Services_PXE (Config_Services c))) (Services_PXE (Config_Services c)) s0"
    by (auto simp: start_dhcp_def Let_def split: sum.splits)
  then have "srv_pxeBootFile s = DHCP_PXEBootFile d"
    "srv_pxeBootServer s = To4 (ParseIP (DHCP_PXEBootServer d))"
    using assms(3,4) by (auto simp: applyDHCPOptions_def applyPXEBootOptions_def Let_def setting_defs or_default_def)
  with assms(2,5,6) show ?thesis
    by (simp add: e reload_entry_def applyPXEBootOptions_def Let_def setting_defs or_default_def)
qed

definition scope_config :: config where
  "scope_config = Default\<lparr>Config_Services := zero_services\<lparr>Services_PXE :=
     (Services_PXE zero_services)\<lparr>PXE_Enabled := True, PXE_BootFile := ''global.efi''\<rparr>\<rparr>\<rparr>"

definition scope_dhcp :: dhcp_config where
  "scope_dhcp = zero_dhcp\<lparr>DHCP_RangeStart := ''10.0.0.50'', DHCP_RangeEnd := ''10.0.0.51'',
     DHCP_LeaseDuration := ''1h'', DHCP_PXEBootFile := ''scope.efi'', DHCP_PXEBootServer := ''10.0.0.9''\<rparr>"

lemma reload_forgets_scope_pxe_example:
  "\<exists>e. srv_pxeBootFile (entry_srv e) = ''scope.efi'' \<and>
     srv_pxeBootFile (entry_srv (reload_entry scope_config zero_extras e)) = ''global.efi''"
proof -
  have "start_dhcp False ''lan'' ''10.0.0.1/24'' scope_dhcp zero_dhcp (Services_PXE (Config_Services scope_config)) \<noteq> None"
    by code_simp
  then obtain e where e: "start_dhcp False ''lan'' ''10.0.0.1/24'' scope_dhcp zero_dhcp
      (Services_PXE (Config_Services scope_config)) = Some e" by blast
  have "PXE_Enabled (Services_PXE (Config_Services scope_config))"
    "DHCP_PXEBootFile scope_dhcp \<noteq> []" "DHCP_PXEBootServer scope_dhcp \<noteq> []"
    "PXE_BootFile (Services_PXE (Config_Services scope_config)) = ''global.efi''"
    by (simp_all add: scope_config_def scope_dhcp_def)
  from reload_forgets_scope_pxe [OF e this] show ?thesis
    by (auto simp: scope_dhcp_def)
qed

definition base_reservation :: string_map where
  "base_reservation = Some [(''AA-BB'', ''10.0.0.5'')]"

definition extra_reservation :: string_map where
  "extra_reservation = Some [(''aa:bb'', ''10.0.0.9'')]"

text \<open>
  \<open>mergedReservations\<close> compares keys as they are written, and \<open>SetReservations\<close> normalises them
  afterwards: if router.json and the extras file spell a MAC address differently, which of the two
  reservations is in force depends on the iteration order of the merged map.
\<close>

lemma merged_reservations_order:
  "set (rev (mergedReservations base_reservation extra_reservation)) =
     set (mergedReservations base_reservation extra_reservation) \<and>
   glookup (srv_reservations (SetReservations (mergedReservations base_reservation extra_reservation) demo_server)) ''aa:bb'' =
     Some [10, 0, 0, 9] \<and>
   glookup (srv_reservations (SetReservations (rev (mergedReservations base_reservation extra_reservation)) demo_server)) ''aa:bb'' =
     Some [10, 0, 0, 5]"
proof (intro conjI)
  show "glookup (srv_reservations (SetReservations (mergedReservations base_reservation extra_reservation) demo_server)) ''aa:bb'' =
     Some [10, 0, 0, 9]" by code_simp
  show "glookup (srv_reservations (SetReservations (rev (mergedReservations base_reservation extra_reservation)) demo_server)) ''aa:bb'' =
     Some [10, 0, 0, 5]" by code_simp
qed simp

text \<open>
  A reload whose extras file cannot be read does not restore router.json: if no SMB users are
  in use it succeeds with empty extras, which clears every per-MAC image and the default image, and
  otherwise it is refused.
\<close>

lemma unreadable_extras:
  assumes "rel_extrasPath r \<noteq> []" and "fs_open f (rel_extrasPath r) = FileError"
  shows "(equalSMBUsers (rel_appliedSMBUsers r) [] \<longrightarrow>
      (\<exists>r'. Reload decode encode r f = (None, r', f) \<and>
        entries (PXE_MacImages (Services_PXE (Config_Services (rel_cfg r')))) = [] \<and>
        PXE_DefaultImage (Services_PXE (Config_Services (rel_cfg r'))) = [])) \<and>
    (\<not> equalSMBUsers (rel_appliedSMBUsers r) [] \<longrightarrow>
      Reload decode encode r f = (Some SMBUsersChanged, r, f))"
proof -
  have "loadOrCreateExtras decode encode (rel_extrasPath r) (rel_cfg r) f = (Inl ErrOpen, f)"
    using assms by (simp add: loadOrCreateExtras_def LoadExtras_def)
  moreover have "Extras_VLANAddresses zero_extras = None" "Extras_SMBUsers zero_extras = []"
    "Extras_MacImages zero_extras = None" "Extras_DefaultImage zero_extras = []"
    by (simp_all add: zero_extras_def)
  ultimately show ?thesis
    using assms(1) by (simp add: Reload_def reload_apply_def checkRestartRequired_def Let_def
        ApplyExtras_services apply_pxe_overrides_def config_cloneStringMap_def)
qed

lemma unreadable_extras_example:
  "\<exists>r'. Reload (\<lambda>b. Inr zero_extras) (\<lambda>e. Inr []) pxe_reloader \<lparr>fs_open = (\<lambda>p. FileError), fs_writable = (\<lambda>_. True)\<rparr> =
     (None, r', \<lparr>fs_open = (\<lambda>p. FileError), fs_writable = (\<lambda>_. True)\<rparr>)"
proof -
  have "rel_extrasPath pxe_reloader \<noteq> []" "equalSMBUsers (rel_appliedSMBUsers pxe_reloader) []"
    by (simp_all add: pxe_reloader_def demo_reloader_def equalSMBUsers_def)
  then show ?thesis
    using unreadable_extras [of pxe_reloader "\<lparr>fs_open = (\<lambda>p. FileError), fs_writable = (\<lambda>_. True)\<rparr>"
        "\<lambda>b. Inr zero_extras" "\<lambda>e. Inr []"] by auto
qed

end
