(* ===== verification/Macmap.thy ===== *)
theory Macmap
  imports Config
begin

section \<open>MAC-to-VLAN mapping (pkg/macmap)\<close>

text \<open>
  The mapping file of \<open>pkg/macmap/macmap.go\<close>: parsing and validation, lookups, the merge of two
  files, and the \<open>accept_mac_file\<close> that hostapd reads. The TOML codec is a parameter.
\<close>

subsection \<open>net.ParseMAC\<close>

definition xtoi2 :: "string \<Rightarrow> char \<Rightarrow> byte option" where
  "xtoi2 s e =
     (if 2 < length s \<and> s ! 2 \<noteq> e then None
      else (case s of
              a # b # _ \<Rightarrow> Option.bind (hex_val a) (\<lambda>x. Option.bind (hex_val b) (\<lambda>y.
                Some (word_of_nat (16 * x + y))))
            | _ \<Rightarrow> None))"

fun mac_pairs :: "nat \<Rightarrow> char \<Rightarrow> string \<Rightarrow> bytes option" where
  "mac_pairs 0 e s = Some []"
| "mac_pairs (Suc n) e s =
     Option.bind (xtoi2 s e) (\<lambda>b. map_option (Cons b) (mac_pairs n e (drop 3 s)))"

fun mac_quads :: "nat \<Rightarrow> string \<Rightarrow> bytes option" where
  "mac_quads 0 s = Some []"
| "mac_quads (Suc n) s =
     Option.bind (xtoi2 (take 2 s) CHR 0x00) (\<lambda>b. Option.bind (xtoi2 (drop 2 s) CHR ''.'') (\<lambda>c.
       map_option (\<lambda>bs. b # c # bs) (mac_quads n (drop 5 s))))"

definition ParseMAC :: "string \<Rightarrow> bytes option" where
  "ParseMAC s =
     (if length s < 14 then None
      else if s ! 2 = CHR '':'' \<or> s ! 2 = CHR ''-'' then
        (let n = (length s + 1) div 3 in
         if (length s + 1) mod 3 \<noteq> 0 then None
         else if n \<noteq> 6 \<and> n \<noteq> 8 \<and> n \<noteq> 20 then None
         else mac_pairs n (s ! 2) s)
      else if s ! 4 = CHR ''.'' then
        (let n = 2 * (length s + 1) div 5 in
         if (length s + 1) mod 5 \<noteq> 0 then None
         else if n \<noteq> 6 \<and> n \<noteq> 8 \<and> n \<noteq> 20 then None
         else mac_quads (n div 2) s)
      else None)"

subsection \<open>The file\<close>

record client =
  Client_MAC :: string
  Client_VLAN :: int
  Client_Name :: string
  Client_Hostname :: string

record map_file =
  MapFile_DefaultVLAN :: int
  MapFile_Clients :: "client list"

datatype macmap_error =
    MacmapRead | MacmapTOML string | MacmapInvalidMAC nat string | MacmapDuplicate string nat
  | MacmapVLANRange nat string int | MacmapDefaultRange int | MacmapMarshal string | MacmapWrite

definition macmap_normalizeMAC :: "string \<Rightarrow> string option" where
  "macmap_normalizeMAC s = map_option (\<lambda>hw. ToLower (HardwareAddr_String hw)) (ParseMAC s)"

fun normalize_clients :: "nat \<Rightarrow> client list \<Rightarrow> macmap_error + client list" where
  "normalize_clients i [] = Inr []"
| "normalize_clients i (c # cs) =
     (case macmap_normalizeMAC (Client_MAC c) of
        None \<Rightarrow> Inl (MacmapInvalidMAC i (Client_MAC c))
      | Some mac \<Rightarrow> (case normalize_clients (Suc i) cs of
                       Inl e \<Rightarrow> Inl e | Inr cs' \<Rightarrow> Inr (c\<lparr>Client_MAC := mac\<rparr> # cs')))"

text \<open>The loop of \<open>validate\<close> over the clients; \<open>macs\<close> is the set of addresses seen so far.\<close>

fun validate_clients :: "nat \<Rightarrow> string list \<Rightarrow> client list \<Rightarrow> macmap_error option" where
  "validate_clients i macs [] = None"
| "validate_clients i macs (c # cs) =
     (if Client_MAC c \<in> set macs then Some (MacmapDuplicate (Client_MAC c) i)
      else if Client_VLAN c < 0 \<or> Client_VLAN c > 4094
      then Some (MacmapVLANRange i (Client_MAC c) (Client_VLAN c))
      else validate_clients (Suc i) (Client_MAC c # macs) cs)"

definition macmap_validate :: "map_file \<Rightarrow> macmap_error option" where
  "macmap_validate mf =
     (case validate_clients 0 [] (MapFile_Clients mf) of
        Some e \<Rightarrow> Some e
      | None \<Rightarrow> if MapFile_DefaultVLAN mf < 0 \<or> MapFile_DefaultVLAN mf > 4094
                then Some (MacmapDefaultRange (MapFile_DefaultVLAN mf)) else None)"

definition macmap_Parse :: "(bytes \<Rightarrow> string + map_file) \<Rightarrow> bytes \<Rightarrow> macmap_error + map_file" where
  "macmap_Parse Unmarshal data =
     (case Unmarshal data of
        Inl e \<Rightarrow> Inl (MacmapTOML e)
      | Inr mf \<Rightarrow>
        (case normalize_clients 0 (MapFile_Clients mf) of
           Inl e \<Rightarrow> Inl e
         | Inr cs \<Rightarrow>
           (let mf' = mf\<lparr>MapFile_Clients := cs\<rparr> in
            (case macmap_validate mf' of Some e \<Rightarrow> Inl e | None \<Rightarrow> Inr mf'))))"

definition macmap_Load :: "(bytes \<Rightarrow> string + map_file) \<Rightarrow> string \<Rightarrow> fs \<Rightarrow> macmap_error + map_file" where
  "macmap_Load Unmarshal path f =
     (case fs_open f path of FileData b \<Rightarrow> macmap_Parse Unmarshal b | _ \<Rightarrow> Inl MacmapRead)"

definition macmap_Save ::
  "(map_file \<Rightarrow> string + bytes) \<Rightarrow> string \<Rightarrow> map_file \<Rightarrow> fs \<Rightarrow> macmap_error option \<times> fs" where
  "macmap_Save Marshal path mf f =
     (case Marshal mf of
        Inl e \<Rightarrow> (Some (MacmapMarshal e), f)
      | Inr b \<Rightarrow> (let (ok, f') = WriteFile path b f in (if ok then None else Some MacmapWrite, f')))"

definition macmap_Encode :: "(map_file \<Rightarrow> string + bytes) \<Rightarrow> map_file \<Rightarrow> string + bytes" where
  "macmap_Encode Marshal mf = Marshal mf"

subsection \<open>Queries\<close>

fun lookup_client :: "string \<Rightarrow> int \<Rightarrow> client list \<Rightarrow> int" where
  "lookup_client mac d [] = d"
| "lookup_client mac d (c # cs) = (if Client_MAC c = mac then Client_VLAN c else lookup_client mac d cs)"

definition macmap_Lookup :: "map_file \<Rightarrow> string \<Rightarrow> int" where
  "macmap_Lookup mf mac = lookup_client (ToLower mac) (MapFile_DefaultVLAN mf) (MapFile_Clients mf)"

text \<open>
  \<open>sortInts\<close>: \<open>sort_inner j a\<close> is the inner loop from index \<open>j\<close> down, in place.
\<close>

fun sort_inner :: "nat \<Rightarrow> int list \<Rightarrow> int list" where
  "sort_inner 0 a = a"
| "sort_inner (Suc j) a =
     (if a ! j > a ! Suc j then sort_inner j (a[j := a ! Suc j, Suc j := a ! j]) else a)"

definition sortInts :: "int list \<Rightarrow> int list" where
  "sortInts a = fold sort_inner [1..<length a] a"

definition seen_vlans :: "map_file \<Rightarrow> (int, bool) gomap" where
  "seen_vlans mf = fold (\<lambda>c m. gput (Client_VLAN c) True m) (MapFile_Clients mf) [(MapFile_DefaultVLAN mf, True)]"

definition macmap_VLANs :: "map_file \<Rightarrow> int list" where
  "macmap_VLANs mf = sortInts (map fst (seen_vlans mf))"

definition ClientsByVLAN :: "map_file \<Rightarrow> (int, client list) gomap" where
  "ClientsByVLAN mf =
     fold (\<lambda>c m. gput (Client_VLAN c)
             ((case glookup m (Client_VLAN c) of None \<Rightarrow> [] | Some cs \<Rightarrow> cs) @ [c]) m) (MapFile_Clients mf) []"

subsection \<open>Merge and export\<close>

text \<open>The loop of \<open>Merge\<close> over the clients of the other file, with the addresses that exist.\<close>

fun merge_clients :: "string list \<Rightarrow> client list \<Rightarrow> client list \<Rightarrow> client list" where
  "merge_clients existing cs [] = cs"
| "merge_clients existing cs (c # rest) =
     (let mac = ToLower (Client_MAC c) in
      if mac \<in> set existing then merge_clients existing cs rest
      else merge_clients (mac # existing) (cs @ [c]) rest)"

definition macmap_Merge :: "map_file \<Rightarrow> map_file \<Rightarrow> map_file" where
  "macmap_Merge mf other =
     mf\<lparr>MapFile_Clients :=
       merge_clients (map Client_MAC (MapFile_Clients mf)) (MapFile_Clients mf) (MapFile_Clients other)\<rparr>"

definition HostapdAcceptMACFile :: "map_file \<Rightarrow> string" where
  "HostapdAcceptMACFile mf =
     concat (map (\<lambda>c. if 0 < Client_VLAN c
                      then Client_MAC c @ '' '' @ Itoa (Client_VLAN c) @ [CHR 0x0A] else [])
               (MapFile_Clients mf))"

end
