(* ===== verification/Macmap_Props.thy ===== *)
theory Macmap_Props
  imports Macmap "HOL-Library.Multiset"
begin

section \<open>Properties of the MAC-to-VLAN mapping\<close>

text \<open>
  Parsing gives a well-formed file, whatever the spelling of the addresses; the list of VLANs is the
  sorted set of those in use; a merged file stays loadable; and hostapd reads from the generated
  list what \<open>Lookup\<close> answers.
\<close>

subsection \<open>Hardware addresses\<close>

lemma hex_val_digit [simp]: "n < 16 \<Longrightarrow> hex_val (hex_digit n) = Some n"
  by (auto simp: hex_val_def hex_digit_def Let_def of_char_of)

lemma byte_nibbles: "16 * word_of_nat (unat b div 16) + word_of_nat (unat b mod 16) = (b :: byte)"
proof -
  have "(word_of_nat (16 * (unat b div 16) + unat b mod 16) :: byte) = b" by simp
  then show ?thesis by (simp only: of_nat_add of_nat_mult of_nat_numeral)
qed

lemma length_hex_byte [simp]: "length (hex_byte b) = 2"
  by (simp add: hex_byte_def)

lemma hex_val_lt: "hex_val c = Some n \<Longrightarrow> n < 16"
  by (auto simp: hex_val_def Let_def split: if_splits)

lemma xtoi2_hex_byte [simp]: "r = [] \<or> hd r = e \<Longrightarrow> xtoi2 (hex_byte b @ r) e = Some b"
proof -
  assume "r = [] \<or> hd r = e"
  then have "\<not> (2 < length (hex_byte b @ r) \<and> (hex_byte b @ r) ! 2 \<noteq> e)"
    by (cases r) (auto simp: nth_append)
  moreover have "unat b div 16 < 16"
    using unat_byte_lt [of b] by simp
  ultimately show ?thesis
    by (simp add: xtoi2_def hex_byte_def byte_nibbles)
qed

lemma HardwareAddr_String_Cons:
  "HardwareAddr_String (b # bs) = hex_byte b @ (if bs = [] then [] else CHR '':'' # HardwareAddr_String bs)"
  by (cases bs) (simp_all add: HardwareAddr_String_def)

lemma HardwareAddr_String_Nil [simp]: "HardwareAddr_String [] = []"
  by (simp add: HardwareAddr_String_def)

lemma length_HardwareAddr_String: "length (HardwareAddr_String bs) = 3 * length bs - 1"
  by (induction bs) (auto simp: HardwareAddr_String_Cons neq_Nil_conv)

lemma mac_pairs_String: "mac_pairs (length bs) CHR '':'' (HardwareAddr_String bs) = Some bs"
  by (induction bs) (auto simp: HardwareAddr_String_Cons)

text \<open>The printed form of an address of 6, 8 or 20 bytes is parsed back.\<close>

lemma ParseMAC_String:
  assumes "length bs \<in> {6, 8, 20}"
  shows "ParseMAC (HardwareAddr_String bs) = Some bs"
proof -
  have len: "length (HardwareAddr_String bs) = 3 * length bs - 1"
    by (rule length_HardwareAddr_String)
  obtain b c cs where "bs = b # c # cs"
    using assms by (cases bs; cases "tl bs") auto
  then have "HardwareAddr_String bs ! 2 = CHR '':''"
    by (simp add: HardwareAddr_String_Cons nth_append)
  then show ?thesis
    using assms mac_pairs_String [of bs] by (auto simp: ParseMAC_def len)
qed

lemma length_mac_pairs: "mac_pairs n e s = Some bs \<Longrightarrow> length bs = n"
  by (induction n arbitrary: s bs) (auto simp: bind_eq_Some_conv)

lemma length_mac_quads: "mac_quads n s = Some bs \<Longrightarrow> length bs = 2 * n"
  by (induction n arbitrary: s bs) (auto simp: bind_eq_Some_conv)

lemma length_ParseMAC: "ParseMAC s = Some bs \<Longrightarrow> length bs \<in> {6, 8, 20}"
  by (auto simp: ParseMAC_def Let_def dest!: length_mac_pairs length_mac_quads split: if_splits)

definition mac_char :: "char \<Rightarrow> bool" where
  "mac_char c \<longleftrightarrow> lower_char c = c \<and> c \<noteq> CHR '' '' \<and> c \<noteq> CHR 0x0A"

lemma hex_digit_lower: "n < 16 \<Longrightarrow> mac_char (hex_digit n)"
proof -
  assume "n < 16"
  then have code: "code_of (hex_digit n) = (if n < 10 then 48 + n else 87 + n)"
    by (simp add: hex_digit_def of_char_of)
  then have "hex_digit n \<noteq> CHR '' ''" "hex_digit n \<noteq> CHR 0x0A"
    by (auto split: if_splits)
  with code \<open>n < 16\<close> show ?thesis
    by (auto simp: mac_char_def lower_char_def Let_def split: if_splits)
qed

lemma hex_byte_lower: "c \<in> set (hex_byte b) \<Longrightarrow> mac_char c"
proof -
  assume "c \<in> set (hex_byte b)"
  moreover have "unat b div 16 < 16"
    using unat_byte_lt [of b] by simp
  ultimately show ?thesis
    by (auto simp: hex_byte_def intro: hex_digit_lower)
qed

lemma HardwareAddr_chars: "c \<in> set (HardwareAddr_String bs) \<Longrightarrow> mac_char c"
proof (induction bs)
  case (Cons b bs)
  have "mac_char CHR '':''" unfolding mac_char_def by code_simp
  with Cons show ?case
    by (auto simp: HardwareAddr_String_Cons hex_byte_lower split: if_splits)
qed simp

lemma ToLower_HardwareAddr [simp]: "ToLower (HardwareAddr_String bs) = HardwareAddr_String bs"
  using HardwareAddr_chars [of _ bs] by (auto simp: ToLower_def mac_char_def intro: map_idI)

text \<open>A normalised address is normal, lower case, and holds no separator of the hostapd file.\<close>

lemma normalizeMAC_idem:
  "macmap_normalizeMAC s = Some m \<Longrightarrow> macmap_normalizeMAC m = Some m"
  using length_ParseMAC ParseMAC_String by (fastforce simp: macmap_normalizeMAC_def)

lemma normalized_chars: "macmap_normalizeMAC s = Some m \<Longrightarrow> c \<in> set m \<Longrightarrow> mac_char c"
  by (auto simp: macmap_normalizeMAC_def HardwareAddr_chars)

lemma normalized_lower: "macmap_normalizeMAC s = Some m \<Longrightarrow> ToLower m = m"
  by (auto simp: macmap_normalizeMAC_def)

subsection \<open>Well-formed files\<close>

definition client_wf :: "client \<Rightarrow> bool" where
  "client_wf c \<longleftrightarrow> macmap_normalizeMAC (Client_MAC c) = Some (Client_MAC c) \<and>
     0 \<le> Client_VLAN c \<and> Client_VLAN c \<le> 4094"

definition map_wf :: "map_file \<Rightarrow> bool" where
  "map_wf mf \<longleftrightarrow> distinct (map Client_MAC (MapFile_Clients mf)) \<and>
     (\<forall>c \<in> set (MapFile_Clients mf). client_wf c) \<and>
     0 \<le> MapFile_DefaultVLAN mf \<and> MapFile_DefaultVLAN mf \<le> 4094"

lemma normalize_clients_ok:
  "normalize_clients i cs = Inr cs' \<Longrightarrow>
   \<forall>c \<in> set cs'. macmap_normalizeMAC (Client_MAC c) = Some (Client_MAC c)"
  by (induction i cs arbitrary: cs' rule: normalize_clients.induct)
    (auto split: option.splits sum.splits simp: normalizeMAC_idem)

lemma normalize_clients_id:
  "\<forall>c \<in> set cs. macmap_normalizeMAC (Client_MAC c) = Some (Client_MAC c) \<Longrightarrow> normalize_clients i cs = Inr cs"
  by (induction cs arbitrary: i) auto

lemma validate_clients_iff:
  "validate_clients i macs cs = None \<longleftrightarrow>
     distinct (map Client_MAC cs) \<and> set (map Client_MAC cs) \<inter> set macs = {} \<and>
     (\<forall>c \<in> set cs. 0 \<le> Client_VLAN c \<and> Client_VLAN c \<le> 4094)"
  by (induction cs arbitrary: i macs) auto

lemma macmap_validate_iff:
  "macmap_validate mf = None \<longleftrightarrow>
     distinct (map Client_MAC (MapFile_Clients mf)) \<and>
     (\<forall>c \<in> set (MapFile_Clients mf). 0 \<le> Client_VLAN c \<and> Client_VLAN c \<le> 4094) \<and>
     0 \<le> MapFile_DefaultVLAN mf \<and> MapFile_DefaultVLAN mf \<le> 4094"
  using validate_clients_iff [of 0 "[]" "MapFile_Clients mf"]
  by (cases "validate_clients 0 [] (MapFile_Clients mf)") (auto simp: macmap_validate_def)

lemma Parse_wf: "macmap_Parse U data = Inr mf \<Longrightarrow> map_wf mf"
  by (auto simp: macmap_Parse_def map_wf_def client_wf_def macmap_validate_iff Let_def
      dest!: normalize_clients_ok split: sum.splits option.splits)

lemma wf_Parse: "map_wf mf \<Longrightarrow> U data = Inr mf \<Longrightarrow> macmap_Parse U data = Inr mf"
proof -
  assume wf: "map_wf mf" and U: "U data = Inr mf"
  have "normalize_clients 0 (MapFile_Clients mf) = Inr (MapFile_Clients mf)"
    using wf by (intro normalize_clients_id) (simp add: map_wf_def client_wf_def)
  moreover have "macmap_validate mf = None"
    using wf by (simp add: macmap_validate_iff map_wf_def client_wf_def)
  ultimately show ?thesis
    using U by (simp add: macmap_Parse_def)
qed

lemma lookup_client_in:
  "distinct (map Client_MAC cs) \<Longrightarrow> c \<in> set cs \<Longrightarrow> lookup_client (Client_MAC c) d cs = Client_VLAN c"
  by (induction cs) (auto simp: image_iff)

lemma lookup_client_out: "mac \<notin> Client_MAC ` set cs \<Longrightarrow> lookup_client mac d cs = d"
  by (induction cs) auto

lemma lookup_client_append:
  "lookup_client mac d (xs @ ys) = lookup_client mac (lookup_client mac d ys) xs"
  by (induction xs) auto

text \<open>
  C20: A file that \<open>Parse\<close> accepts has distinct, normalised addresses and VLAN ids in 0-4094, and
  \<open>Lookup\<close> answers the VLAN of the client for every capitalisation of its address, and the default
  VLAN for every address not listed.
\<close>

theorem Parse_wellformed:
  assumes "macmap_Parse Unmarshal data = Inr mf"
  shows "map_wf mf \<and>
    (\<forall>c s. c \<in> set (MapFile_Clients mf) \<and> ToLower s = Client_MAC c \<longrightarrow> macmap_Lookup mf s = Client_VLAN c) \<and>
    (\<forall>s. ToLower s \<notin> Client_MAC ` set (MapFile_Clients mf) \<longrightarrow> macmap_Lookup mf s = MapFile_DefaultVLAN mf)"
proof (intro conjI allI impI)
  show wf: "map_wf mf" by (rule Parse_wf [OF assms])
  show "macmap_Lookup mf s = Client_VLAN c"
    if "c \<in> set (MapFile_Clients mf) \<and> ToLower s = Client_MAC c" for c s
    using that wf by (auto simp: macmap_Lookup_def map_wf_def lookup_client_in)
qed (simp add: macmap_Lookup_def lookup_client_out)

definition demo_client :: "string \<Rightarrow> int \<Rightarrow> client" where
  "demo_client mac v = \<lparr>Client_MAC = mac, Client_VLAN = v, Client_Name = ''laptop'', Client_Hostname = []\<rparr>"

definition demo_map :: map_file where
  "demo_map = \<lparr>MapFile_DefaultVLAN = 30, MapFile_Clients =
     [demo_client ''AABB.CCDD.EEFF'' 10, demo_client ''11-22-33-44-55-66'' 20]\<rparr>"

definition demo_parsed :: map_file where
  "demo_parsed = \<lparr>MapFile_DefaultVLAN = 30, MapFile_Clients =
     [demo_client ''aa:bb:cc:dd:ee:ff'' 10, demo_client ''11:22:33:44:55:66'' 20]\<rparr>"

lemma demo_parse: "macmap_Parse (\<lambda>_. Inr demo_map) [] = Inr demo_parsed"
  by code_simp

theorem Parse_wellformed_witness:
  "map_wf demo_parsed \<and> macmap_Lookup demo_parsed ''AA:BB:cc:DD:ee:ff'' = 10 \<and>
   macmap_Lookup demo_parsed ''00:00:00:00:00:01'' = 30"
proof (intro conjI)
  note p = Parse_wellformed [OF demo_parse]
  let ?c = "demo_client ''aa:bb:cc:dd:ee:ff'' 10"
  show "map_wf demo_parsed" by (rule p [THEN conjunct1])
  have "ToLower ''AA:BB:cc:DD:ee:ff'' = Client_MAC ?c" by code_simp
  moreover have "?c \<in> set (MapFile_Clients demo_parsed)" by (simp add: demo_parsed_def)
  ultimately have "macmap_Lookup demo_parsed ''AA:BB:cc:DD:ee:ff'' = Client_VLAN ?c"
    using p by blast
  then show "macmap_Lookup demo_parsed ''AA:BB:cc:DD:ee:ff'' = 10" by (simp add: demo_client_def)
  have "ToLower ''00:00:00:00:00:01'' \<notin> Client_MAC ` set (MapFile_Clients demo_parsed)" by code_simp
  then have "macmap_Lookup demo_parsed ''00:00:00:00:00:01'' = MapFile_DefaultVLAN demo_parsed"
    using p by blast
  then show "macmap_Lookup demo_parsed ''00:00:00:00:00:01'' = 30" by (simp add: demo_parsed_def)
qed

subsection \<open>The list of VLANs\<close>

lemma length_sort_inner [simp]: "length (sort_inner j a) = length a"
  by (induction j a rule: sort_inner.induct) auto

text \<open>The inner loop inserts the element at index \<open>j\<close> into the sorted elements below it.\<close>

lemma insort_last:
  assumes "sorted (zs @ [z])" and "z \<le> (x :: int)"
  shows "insort x (zs @ [z]) = zs @ [z, x]"
proof -
  have "sorted (zs @ [z, x])"
    using assms by (auto simp: sorted_append)
  then have "sort (insort x (zs @ [z])) = zs @ [z, x]"
    by (intro properties_for_sort) auto
  then show ?thesis
    using assms(1) by (simp add: sorted_sort_id sorted_insort)
qed

lemma insort_before:
  "sorted (zs @ [z]) \<Longrightarrow> (x :: int) < z \<Longrightarrow> insort x (zs @ [z]) = insort x zs @ [z]"
  by (induction zs) auto

lemma sort_inner_insort:
  "sorted xs \<Longrightarrow> sort_inner (length xs) (xs @ x # ys) = insort x xs @ ys"
proof (induction xs arbitrary: ys rule: rev_induct)
  case (snoc z zs)
  have z: "(zs @ [z, x] @ ys) ! length zs = z" "(zs @ [z, x] @ ys) ! Suc (length zs) = x"
    by (simp_all add: nth_append)
  have swap: "(zs @ [z, x] @ ys)[length zs := x, Suc (length zs) := z] = zs @ x # z # ys"
    by (simp add: list_update_append)
  show ?case
  proof (cases "x < z")
    case True
    then have "sort_inner (length (zs @ [z])) ((zs @ [z]) @ x # ys) = sort_inner (length zs) (zs @ x # z # ys)"
      using z swap by simp
    also have "\<dots> = insort x zs @ z # ys"
      using snoc by (simp add: sorted_append)
    finally show ?thesis
      using True snoc.prems by (simp add: insort_before)
  next
    case False
    then show ?thesis
      using z snoc.prems by (simp add: insort_last)
  qed
qed simp

lemma sortInts_prefix:
  "n \<le> length a \<Longrightarrow> 0 < n \<Longrightarrow> fold sort_inner [1..<n] a = sort (take n a) @ drop n a"
proof (induction n)
  case (Suc n)
  show ?case
  proof (cases "n = 0")
    case True
    with Suc.prems show ?thesis by (cases a) auto
  next
    case False
    have "length (sort (take n a)) = n" using Suc.prems by simp
    moreover have "drop n a = a ! n # drop (Suc n) a"
      using Suc.prems by (simp add: Cons_nth_drop_Suc)
    ultimately have "sort_inner n (sort (take n a) @ drop n a) = insort (a ! n) (sort (take n a)) @ drop (Suc n) a"
      using sort_inner_insort [of "sort (take n a)" "a ! n" "drop (Suc n) a"] by simp
    moreover have "insort (a ! n) (sort (take n a)) = sort (take (Suc n) a)"
    proof (rule properties_for_sort [symmetric])
      show "mset (insort (a ! n) (sort (take n a))) = mset (take (Suc n) a)"
        using Suc.prems by (simp add: take_Suc_conv_app_nth)
    qed (simp add: sorted_insort)
    ultimately show ?thesis
      using Suc False by simp
  qed
qed simp

lemma sortInts_sort: "sortInts a = sort a"
proof (cases "a = []")
  case False
  then show ?thesis
    using sortInts_prefix [of "length a" a] by (simp add: sortInts_def)
qed (simp add: sortInts_def)

lemma keys_fold_put:
  "fst ` set (fold (\<lambda>c m. gput (f c) v m) cs m) = f ` set cs \<union> fst ` set m"
  by (induction cs arbitrary: m) (auto simp: dom_update)

lemma gwf_fold_put: "gwf m \<Longrightarrow> gwf (fold (\<lambda>c m. gput (f c) v m) cs m)"
  by (induction cs arbitrary: m) (auto intro: go_wf)

definition used_vlans :: "map_file \<Rightarrow> int set" where
  "used_vlans mf = insert (MapFile_DefaultVLAN mf) (Client_VLAN ` set (MapFile_Clients mf))"

lemma sort_distinct_set:
  "distinct (xs :: int list) \<Longrightarrow> set xs = A \<Longrightarrow> sort xs = sorted_list_of_set A"
  by (metis sorted_list_of_set.idem_if_sorted_distinct sorted_sort distinct_sort set_sort)

lemma macmap_VLANs_set: "macmap_VLANs mf = sorted_list_of_set (used_vlans mf)"
proof -
  have "gwf (seen_vlans mf)"
    unfolding seen_vlans_def by (rule gwf_fold_put) simp
  moreover have "fst ` set (seen_vlans mf) = used_vlans mf"
    by (simp add: seen_vlans_def keys_fold_put used_vlans_def)
  ultimately show ?thesis
    unfolding macmap_VLANs_def sortInts_sort by (intro sort_distinct_set) auto
qed

lemma finite_used_vlans [simp]: "finite (used_vlans mf)"
  by (simp add: used_vlans_def)

text \<open>
  C24: \<open>VLANs\<close> is the strictly sorted list of the VLANs in use, for every order in which the map of
  the ids is iterated: the hand-written insertion sort agrees with sorting.
\<close>

theorem VLANs_sorted_set:
  "macmap_VLANs mf = sorted_list_of_set (used_vlans mf) \<and>
   (\<forall>ids. mset ids = mset (map fst (seen_vlans mf)) \<longrightarrow> sortInts ids = macmap_VLANs mf) \<and>
   (\<forall>a. sortInts a = sort a)"
proof (intro conjI allI impI)
  show "macmap_VLANs mf = sorted_list_of_set (used_vlans mf)" by (rule macmap_VLANs_set)
  show "sortInts ids = macmap_VLANs mf" if "mset ids = mset (map fst (seen_vlans mf))" for ids
    using that unfolding macmap_VLANs_def sortInts_sort by (intro properties_for_sort) simp_all
qed (rule sortInts_sort)

theorem VLANs_sorted_set_witness:
  "sortInts [30, 10, 20] = macmap_VLANs demo_parsed \<and> macmap_VLANs demo_parsed = [10, 20, 30]"
proof
  have "seen_vlans demo_parsed = [(30, True), (10, True), (20, True)]" by code_simp
  then have "mset [30, 10, 20] = mset (map fst (seen_vlans demo_parsed))" by simp
  then show "sortInts [30, 10, 20] = macmap_VLANs demo_parsed"
    using VLANs_sorted_set [of demo_parsed] by blast
  show "macmap_VLANs demo_parsed = [10, 20, 30]" by code_simp
qed

subsection \<open>Merging\<close>

text \<open>The clients that a merge appends.\<close>

lemma merge_clients_append: "merge_clients ex (as @ cs) rest = as @ merge_clients ex cs rest"
  by (induction rest arbitrary: ex cs) (simp_all add: Let_def)

lemmas merge_clients_front = merge_clients_append [of _ _ "[]", simplified]

lemma merge_clients_Cons:
  "merge_clients ex [] (c # rest) =
     (if ToLower (Client_MAC c) \<in> set ex then merge_clients ex [] rest
      else c # merge_clients (ToLower (Client_MAC c) # ex) [] rest)"
  using merge_clients_front [of _ "[c]"] by (simp add: Let_def)

lemma merged_clients:
  assumes "\<forall>c \<in> set rest. ToLower (Client_MAC c) = Client_MAC c"
  shows "distinct (map Client_MAC (merge_clients ex [] rest)) \<and>
    Client_MAC ` set (merge_clients ex [] rest) \<inter> set ex = {} \<and> set (merge_clients ex [] rest) \<subseteq> set rest"
  using assms
proof (induction rest arbitrary: ex)
  case (Cons c rest)
  from Cons.prems Cons.IH [of ex] Cons.IH [of "Client_MAC c # ex"] show ?case
    by (auto simp: merge_clients_Cons simp del: merge_clients.simps(2))
qed simp

lemma lookup_merged:
  assumes "\<forall>c \<in> set rest. ToLower (Client_MAC c) = Client_MAC c" and "mac \<notin> set ex"
  shows "lookup_client mac d (merge_clients ex [] rest) = lookup_client mac d rest"
  using assms
proof (induction rest arbitrary: ex)
  case (Cons c rest)
  from Cons.prems Cons.IH [of ex] Cons.IH [of "Client_MAC c # ex"] show ?case
    by (auto simp: merge_clients_Cons simp del: merge_clients.simps(2))
qed simp

lemma merge_has:
  "c \<in> set rest \<Longrightarrow> ToLower (Client_MAC c) = Client_MAC c \<Longrightarrow> set ex \<subseteq> Client_MAC ` set cs \<Longrightarrow>
   \<forall>c \<in> set rest. ToLower (Client_MAC c) = Client_MAC c \<Longrightarrow>
   Client_MAC c \<in> Client_MAC ` set (merge_clients ex cs rest)"
proof (induction rest arbitrary: ex cs)
  case (Cons x rest)
  have keep: "set cs \<subseteq> set (merge_clients ex cs rs)" for ex cs rs
    by (subst merge_clients_front) simp
  show ?case
  proof (cases "c = x")
    case True
    show ?thesis
    proof (cases "Client_MAC x \<in> set ex")
      case True
      then have "Client_MAC x \<in> Client_MAC ` set (merge_clients ex cs rest)"
        using Cons.prems(3) keep [of cs ex rest] by blast
      with True Cons.prems \<open>c = x\<close> show ?thesis by (simp add: Let_def)
    next
      case False
      then show ?thesis
        using Cons.prems keep [of "cs @ [x]" "Client_MAC x # ex" rest] \<open>c = x\<close> by (simp add: Let_def)
    qed
  next
    case False
    with Cons.prems have "c \<in> set rest" by simp
    then show ?thesis
      using Cons.prems Cons.IH [of ex cs] Cons.IH [of "Client_MAC x # ex" "cs @ [x]"]
      by (auto simp: Let_def)
  qed
qed simp

lemma lookup_client_default:
  "mac \<in> Client_MAC ` set cs \<Longrightarrow> lookup_client mac d cs = lookup_client mac d' cs"
  by (induction cs) auto

lemma Merge_wf:
  assumes "map_wf mf" and "\<forall>c \<in> set (MapFile_Clients other). client_wf c"
  shows "map_wf (macmap_Merge mf other)"
proof -
  let ?ex = "map Client_MAC (MapFile_Clients mf)"
  let ?new = "merge_clients ?ex [] (MapFile_Clients other)"
  have "\<forall>c \<in> set (MapFile_Clients other). ToLower (Client_MAC c) = Client_MAC c"
    using assms(2) normalized_lower by (auto simp: client_wf_def)
  from merged_clients [OF this, of ?ex]
  have "distinct (map Client_MAC ?new)" "Client_MAC ` set ?new \<inter> set ?ex = {}"
    "set ?new \<subseteq> set (MapFile_Clients other)" by auto
  then show ?thesis
    using assms unfolding map_wf_def macmap_Merge_def
    by (subst (1 2) merge_clients_front) auto
qed

lemma Save_Load:
  assumes "map_wf mf" and "Marshal mf = Inr b" and "Unmarshal b = Inr mf" and "fs_writable f path"
    and "macmap_Save Marshal path mf f = (e, f')"
  shows "e = None \<and> macmap_Load Unmarshal path f' = Inr mf"
  using assms wf_Parse [of mf Unmarshal b]
  by (auto simp: macmap_Save_def macmap_Load_def WriteFile_def Let_def)

text \<open>
  C36: Merging a file of normalised clients (which need not be distinct) into a loaded one keeps the
  clients of the first file in front, with their VLANs; every other address gets the VLAN of its
  first entry in the second file; and the result is well-formed, so that, saved with a codec that
  reads back what it wrote, it loads as it was.
\<close>

theorem Merge_roundtrip:
  assumes "macmap_Parse Unmarshal data = Inr mf" and "\<forall>c \<in> set (MapFile_Clients other). client_wf c"
    and "Marshal (macmap_Merge mf other) = Inr b" and "Unmarshal b = Inr (macmap_Merge mf other)"
    and "fs_writable f path" and "macmap_Save Marshal path (macmap_Merge mf other) f = (e, f')"
  shows "macmap_Load Unmarshal path f' = Inr (macmap_Merge mf other) \<and> e = None \<and>
    take (length (MapFile_Clients mf)) (MapFile_Clients (macmap_Merge mf other)) = MapFile_Clients mf \<and>
    (\<forall>s. macmap_Lookup (macmap_Merge mf other) s =
       (if ToLower s \<in> Client_MAC ` set (MapFile_Clients mf) then macmap_Lookup mf s
        else lookup_client (ToLower s) (MapFile_DefaultVLAN mf) (MapFile_Clients other)))"
proof -
  let ?ex = "map Client_MAC (MapFile_Clients mf)"
  let ?new = "merge_clients ?ex [] (MapFile_Clients other)"
  have clients: "MapFile_Clients (macmap_Merge mf other) = MapFile_Clients mf @ ?new"
    unfolding macmap_Merge_def by (subst merge_clients_front) simp
  have wf: "map_wf (macmap_Merge mf other)"
    by (rule Merge_wf [OF Parse_wf [OF assms(1)] assms(2)])
  have lower: "\<forall>c \<in> set (MapFile_Clients other). ToLower (Client_MAC c) = Client_MAC c"
    using assms(2) normalized_lower by (auto simp: client_wf_def)
  have "macmap_Lookup (macmap_Merge mf other) s =
      (if ToLower s \<in> Client_MAC ` set (MapFile_Clients mf) then macmap_Lookup mf s
       else lookup_client (ToLower s) (MapFile_DefaultVLAN mf) (MapFile_Clients other))" for s
  proof -
    let ?l = "lookup_client (ToLower s)"
    have "macmap_Lookup (macmap_Merge mf other) s = ?l (?l (MapFile_DefaultVLAN mf) ?new) (MapFile_Clients mf)"
      by (simp add: macmap_Lookup_def clients lookup_client_append) (simp add: macmap_Merge_def)
    then show ?thesis
      using lookup_merged [OF lower, of "ToLower s" ?ex]
        lookup_client_default [of "ToLower s" "MapFile_Clients mf"] lookup_client_out
      by (auto simp: macmap_Lookup_def)
  qed
  then show ?thesis
    using Save_Load [where Marshal = Marshal and Unmarshal = Unmarshal, OF wf assms(3-6)] clients by simp
qed

theorem Merge_roundtrip_witness:
  "\<exists>f'. macmap_Load (\<lambda>b. if b = [1] then Inr (macmap_Merge demo_parsed demo_parsed) else Inr demo_map) ''m'' f' =
     Inr (macmap_Merge demo_parsed demo_parsed)"
proof -
  let ?U = "\<lambda>b. if b = [1] then Inr (macmap_Merge demo_parsed demo_parsed) else Inr demo_map"
  let ?f = "\<lparr>fs_open = (\<lambda>_. FileNotExist), fs_writable = (\<lambda>_. True)\<rparr>"
  have parse: "macmap_Parse ?U [] = Inr demo_parsed"
    using demo_parse by (simp add: macmap_Parse_def)
  then have wf: "\<forall>c \<in> set (MapFile_Clients demo_parsed). client_wf c"
    using Parse_wf by (auto simp: map_wf_def)
  obtain e f' where s: "macmap_Save (\<lambda>_. Inr [1]) ''m'' (macmap_Merge demo_parsed demo_parsed) ?f = (e, f')"
    by fastforce
  show ?thesis
    using Merge_roundtrip [OF parse wf _ _ _ s] by auto
qed

subsection \<open>The list hostapd reads\<close>

text \<open>The lines of an \<open>accept_mac_file\<close>: an address and a VLAN id, separated by a space.\<close>

definition accept_entries :: "string \<Rightarrow> (string \<times> int option) list" where
  "accept_entries file' =
     map (\<lambda>l. case Cut CHR '' '' l of (m, v, _) \<Rightarrow> (m, Atoi 32 v)) (butlast (Split CHR 0x0A file'))"

lemma accept_file_lines:
  "HostapdAcceptMACFile mf = concat (map (\<lambda>l. l @ [CHR 0x0A])
     (map (\<lambda>c. Client_MAC c @ '' '' @ Itoa (Client_VLAN c))
       (filter (\<lambda>c. 0 < Client_VLAN c) (MapFile_Clients mf))))"
proof -
  have "concat (map (\<lambda>c. if 0 < Client_VLAN c then Client_MAC c @ '' '' @ Itoa (Client_VLAN c) @ [CHR 0x0A] else []) cs) =
    concat (map (\<lambda>l. l @ [CHR 0x0A])
     (map (\<lambda>c. Client_MAC c @ '' '' @ Itoa (Client_VLAN c)) (filter (\<lambda>c. 0 < Client_VLAN c) cs)))" for cs
    by (induction cs) auto
  then show ?thesis by (simp add: HostapdAcceptMACFile_def)
qed

text \<open>
  The file lists exactly the clients with a VLAN, one per line and in order, and reading it back
  gives for each the VLAN id that \<open>Lookup\<close> answers.
\<close>

lemma accept_file_entries:
  assumes wf: "map_wf mf"
  shows "accept_entries (HostapdAcceptMACFile mf) =
      map (\<lambda>c. (Client_MAC c, Some (Client_VLAN c))) (filter (\<lambda>c. 0 < Client_VLAN c) (MapFile_Clients mf)) \<and>
    (\<forall>(m, v) \<in> set (accept_entries (HostapdAcceptMACFile mf)). v = Some (macmap_Lookup mf m))"
proof -
  let ?cs = "filter (\<lambda>c. 0 < Client_VLAN c) (MapFile_Clients mf)"
  let ?line = "\<lambda>c. Client_MAC c @ '' '' @ Itoa (Client_VLAN c)"
  have c: "mac_char x" if "c \<in> set ?cs" "x \<in> set (Client_MAC c)" for c x
    using that wf by (auto simp: map_wf_def client_wf_def intro: normalized_chars)
  then have "\<forall>l \<in> set (map ?line ?cs). CHR 0x0A \<notin> set l"
    by (auto simp: not_in_Itoa mac_char_def)
  then have "butlast (Split CHR 0x0A (HostapdAcceptMACFile mf)) = map ?line ?cs"
    unfolding accept_file_lines by (subst Split_lines) simp_all
  moreover have "(case Cut CHR '' '' (?line c) of (m, v, _) \<Rightarrow> (m, Atoi 32 v)) = (Client_MAC c, Some (Client_VLAN c))"
    if "c \<in> set ?cs" for c
  proof -
    have "CHR '' '' \<notin> set (Client_MAC c)" using c [OF that] by (auto simp: mac_char_def)
    moreover have "Atoi 32 (Itoa (Client_VLAN c)) = Some (Client_VLAN c)"
      using that wf by (intro Atoi_Itoa) (auto simp: map_wf_def client_wf_def)
    ultimately show ?thesis by (simp add: Cut_append)
  qed
  ultimately have e: "accept_entries (HostapdAcceptMACFile mf) =
      map (\<lambda>c. (Client_MAC c, Some (Client_VLAN c))) ?cs"
    by (simp add: accept_entries_def)
  have "macmap_Lookup mf (Client_MAC c) = Client_VLAN c" if "c \<in> set ?cs" for c
    using that wf normalized_lower [of "Client_MAC c" "Client_MAC c"]
    by (auto simp: macmap_Lookup_def map_wf_def client_wf_def lookup_client_in)
  then show ?thesis
    unfolding e by auto
qed

end
