(* ===== verification/Network.thy ===== *)
theory Network
  imports Firewall
begin

section \<open>Bridges and VLANs (pkg/netsetup, pkg/vlan)\<close>

text \<open>
  The set-up of bridges, ports and addresses in \<open>pkg/netsetup/netsetup.go\<close> and
  \<open>pkg/vlan/vlan.go\<close>. The netlink library is a parameter: a record of its operations on a state
  \<open>'s\<close>, with addresses of type \<open>'a\<close>; a link handle is its name. The locale \<open>netlink_laws\<close> states
  what the operations do to the table of links.
\<close>

datatype netlink_error = NlExist | NlOther

record ('s, 'a) netlink =
  nl_ParseAddr :: "string \<Rightarrow> 'a option"
  nl_LinkByName :: "string \<Rightarrow> 's \<Rightarrow> bool"
  nl_LinkAdd :: "string \<Rightarrow> 's \<Rightarrow> netlink_error option \<times> 's"
  nl_LinkSetMaster :: "string \<Rightarrow> string \<Rightarrow> 's \<Rightarrow> netlink_error option \<times> 's"
  nl_LinkSetUp :: "string \<Rightarrow> 's \<Rightarrow> netlink_error option \<times> 's"
  nl_AddrAdd :: "string \<Rightarrow> 'a \<Rightarrow> 's \<Rightarrow> netlink_error option \<times> 's"

datatype net_error =
    ParseAddress string | CreateBridge string | GetBridge string | GetInterface string
  | Enslave string string | BringUp string | AssignAddress string string | ForwardingFailed

text \<open>The loop over the ports: one that does not exist is skipped.\<close>

fun enslave_ports :: "('s, 'a) netlink \<Rightarrow> string \<Rightarrow> string list \<Rightarrow> 's \<Rightarrow> net_error option \<times> 's" where
  "enslave_ports nl bridge [] s = (None, s)"
| "enslave_ports nl bridge (p # ps) s =
     (if \<not> nl_LinkByName nl p s then enslave_ports nl bridge ps s
      else (case nl_LinkSetMaster nl p bridge s of
              (Some e, s1) \<Rightarrow> (Some (Enslave p bridge), s1)
            | (None, s1) \<Rightarrow>
              (case nl_LinkSetUp nl p s1 of
                 (Some e, s2) \<Rightarrow> (Some (BringUp p), s2)
               | (None, s2) \<Rightarrow> enslave_ports nl bridge ps s2)))"

definition netsetup_Setup ::
  "('s, 'a) netlink \<Rightarrow> string \<Rightarrow> string list \<Rightarrow> string \<Rightarrow> 's \<Rightarrow> net_error option \<times> 's" where
  "netsetup_Setup nl bridgeName lanIfaces addr s =
     (case nl_ParseAddr nl addr of
        None \<Rightarrow> (Some (ParseAddress addr), s)
      | Some a \<Rightarrow>
        (case nl_LinkAdd nl bridgeName s of (e1, s1) \<Rightarrow>
         if e1 \<noteq> None \<and> e1 \<noteq> Some NlExist then (Some (CreateBridge bridgeName), s1)
         else if \<not> nl_LinkByName nl bridgeName s1 then (Some (GetBridge bridgeName), s1)
         else (case enslave_ports nl bridgeName lanIfaces s1 of
             (Some e, s2) \<Rightarrow> (Some e, s2)
           | (None, s2) \<Rightarrow>
             (case nl_AddrAdd nl bridgeName a s2 of (e3, s3) \<Rightarrow>
              if e3 \<noteq> None \<and> e3 \<noteq> Some NlExist then (Some (AssignAddress addr bridgeName), s3)
              else (case nl_LinkSetUp nl bridgeName s3 of
                  (Some e, s4) \<Rightarrow> (Some (BringUp bridgeName), s4)
                | (None, s4) \<Rightarrow> (None, s4))))))"

definition EnableForwarding :: "fs \<Rightarrow> net_error option \<times> fs" where
  "EnableForwarding f =
     (let (ok, f') = WriteFile ''/proc/sys/net/ipv4/ip_forward'' (bytes_of_string ''1'') f
      in (if ok then None else Some ForwardingFailed, f'))"

text \<open>\<open>netsetup.BridgeAddIface\<close>, and \<open>vlan.AddInterface\<close> for the bridge of a VLAN.\<close>

definition BridgeAddIface :: "('s, 'a) netlink \<Rightarrow> string \<Rightarrow> string \<Rightarrow> 's \<Rightarrow> net_error option \<times> 's" where
  "BridgeAddIface nl bridgeName ifaceName s =
     (if \<not> nl_LinkByName nl bridgeName s then (Some (GetBridge bridgeName), s)
      else if \<not> nl_LinkByName nl ifaceName s then (Some (GetInterface ifaceName), s)
      else (case nl_LinkSetMaster nl ifaceName bridgeName s of
          (Some e, s1) \<Rightarrow> (Some (Enslave ifaceName bridgeName), s1)
        | (None, s1) \<Rightarrow>
          (case nl_LinkSetUp nl ifaceName s1 of
             (Some e, s2) \<Rightarrow> (Some (BringUp ifaceName), s2)
           | (None, s2) \<Rightarrow> (None, s2))))"

definition vlan_AddInterface :: "('s, 'a) netlink \<Rightarrow> int \<Rightarrow> string \<Rightarrow> 's \<Rightarrow> net_error option \<times> 's" where
  "vlan_AddInterface nl vlanID ifaceName s = BridgeAddIface nl (''br-vlan'' @ Itoa vlanID) ifaceName s"

text \<open>\<open>assignIP\<close> of the daemon (main.go).\<close>

definition assignIP :: "('s, 'a) netlink \<Rightarrow> string \<Rightarrow> string \<Rightarrow> 's \<Rightarrow> net_error option \<times> 's" where
  "assignIP nl ifaceName cidr s =
     (if \<not> nl_LinkByName nl ifaceName s then (Some (GetInterface ifaceName), s)
      else (case nl_ParseAddr nl cidr of
          None \<Rightarrow> (Some (ParseAddress cidr), s)
        | Some a \<Rightarrow>
          (case nl_AddrAdd nl ifaceName a s of (e1, s1) \<Rightarrow>
           if e1 \<noteq> None \<and> e1 \<noteq> Some NlExist then (Some (AssignAddress cidr ifaceName), s1)
           else (case nl_LinkSetUp nl ifaceName s1 of
               (Some e, s2) \<Rightarrow> (Some (BringUp ifaceName), s2)
             | (None, s2) \<Rightarrow> (None, s2)))))"

subsection \<open>VLANs\<close>

record vlan_bridge =
  VB_ID :: int
  VB_Name :: string
  VB_Bridge :: string
  VB_Subnet :: "ipnet option"

definition setupOne :: "('s, 'a) netlink \<Rightarrow> vlan_config \<Rightarrow> 's \<Rightarrow> (net_error + vlan_bridge) \<times> 's" where
  "setupOne nl vc s =
     (let bridgeName = ''br-vlan'' @ Itoa (VLAN_ID vc) in
      case nl_ParseAddr nl (VLAN_Address vc) of
        None \<Rightarrow> (Inl (ParseAddress (VLAN_Address vc)), s)
      | Some a \<Rightarrow>
        (case nl_LinkAdd nl bridgeName s of (e1, s1) \<Rightarrow>
         if e1 \<noteq> None \<and> e1 \<noteq> Some NlExist then (Inl (CreateBridge bridgeName), s1)
         else if \<not> nl_LinkByName nl bridgeName s1 then (Inl (GetBridge bridgeName), s1)
         else (case enslave_ports nl bridgeName (VLAN_Ports vc) s1 of
             (Some e, s2) \<Rightarrow> (Inl e, s2)
           | (None, s2) \<Rightarrow>
             (case nl_AddrAdd nl bridgeName a s2 of (e3, s3) \<Rightarrow>
              if e3 \<noteq> None \<and> e3 \<noteq> Some NlExist then (Inl (AssignAddress (VLAN_Address vc) bridgeName), s3)
              else (case nl_LinkSetUp nl bridgeName s3 of
                  (Some e, s4) \<Rightarrow> (Inl (BringUp bridgeName), s4)
                | (None, s4) \<Rightarrow>
                  (Inr \<lparr>VB_ID = VLAN_ID vc, VB_Name = VLAN_Name vc, VB_Bridge = bridgeName,
                     VB_Subnet = map_option snd (ParseCIDR (VLAN_Address vc))\<rparr>, s4))))))"

fun vlan_setup_loop ::
  "('s, 'a) netlink \<Rightarrow> vlan_config list \<Rightarrow> vlan_bridge list \<Rightarrow> 's \<Rightarrow> (net_error + vlan_bridge list) \<times> 's" where
  "vlan_setup_loop nl [] result s = (Inr result, s)"
| "vlan_setup_loop nl (vc # vcs) result s =
     (case setupOne nl vc s of
        (Inl e, s') \<Rightarrow> (Inl e, s')
      | (Inr vb, s') \<Rightarrow> vlan_setup_loop nl vcs (result @ [vb]) s')"

definition vlan_Setup :: "('s, 'a) netlink \<Rightarrow> vlan_config list \<Rightarrow> 's \<Rightarrow> (net_error + vlan_bridge list) \<times> 's" where
  "vlan_Setup nl vlans s = vlan_setup_loop nl vlans [] s"

end
