(* ===== verification/Network_Props.thy ===== *)
theory Network_Props
  imports Network
begin

section \<open>Properties of the bridges\<close>

text \<open>
  After a successful set-up every VLAN has its bridge, up and with its address, and every port is
  attached to the bridge of the last VLAN that lists it. The laws of the netlink operations are the
  assumptions of the locale \<open>netlink_laws\<close>.
\<close>

record 'a link =
  link_master :: "string option"
  link_up :: bool
  link_addrs :: "'a set"

definition new_link :: "'a link" where
  "new_link = \<lparr>link_master = None, link_up = False, link_addrs = {}\<rparr>"

definition upd_link :: "string \<Rightarrow> ('a link \<Rightarrow> 'a link) \<Rightarrow> (string \<Rightarrow> 'a link option) \<Rightarrow> string \<Rightarrow> 'a link option" where
  "upd_link n g v = v(n := map_option g (v n))"

text \<open>
  \<open>view\<close> is the table of links. A successful operation has its documented effect and a failed one
  none; \<open>EEXIST\<close> means that the link or the address is there already.
\<close>

locale netlink_laws =
  fixes nl :: "('s, 'a) netlink" and view :: "'s \<Rightarrow> string \<Rightarrow> 'a link option"
  assumes by_name: "nl_LinkByName nl n s \<longleftrightarrow> view s n \<noteq> None"
    and add_ok: "nl_LinkAdd nl n s = (None, s') \<Longrightarrow> view s n = None \<and> view s' = (view s)(n \<mapsto> new_link)"
    and add_err: "nl_LinkAdd nl n s = (Some e, s') \<Longrightarrow> view s' = view s"
    and master_ok: "nl_LinkSetMaster nl p b s = (None, s') \<Longrightarrow>
      view s' = upd_link p (\<lambda>l. l\<lparr>link_master := Some b\<rparr>) (view s)"
    and master_err: "nl_LinkSetMaster nl p b s = (Some e, s') \<Longrightarrow> view s' = view s"
    and up_ok: "nl_LinkSetUp nl p s = (None, s') \<Longrightarrow> view s' = upd_link p (\<lambda>l. l\<lparr>link_up := True\<rparr>) (view s)"
    and up_err: "nl_LinkSetUp nl p s = (Some e, s') \<Longrightarrow> view s' = view s"
    and addr_ok: "nl_AddrAdd nl p a s = (None, s') \<Longrightarrow>
      view s' = upd_link p (\<lambda>l. l\<lparr>link_addrs := insert a (link_addrs l)\<rparr>) (view s)"
    and addr_err: "nl_AddrAdd nl p a s = (Some e, s') \<Longrightarrow>
      view s' = view s \<and> (e = NlExist \<longrightarrow> (\<exists>l. view s p = Some l \<and> a \<in> link_addrs l))"
begin

text \<open>What the port loop does to the table, as a function.\<close>

definition attach :: "string \<Rightarrow> string list \<Rightarrow> (string \<Rightarrow> 'a link option) \<Rightarrow> string \<Rightarrow> 'a link option" where
  "attach b ps v = (\<lambda>n. if n \<in> set ps then map_option (\<lambda>l. l\<lparr>link_master := Some b, link_up := True\<rparr>) (v n) else v n)"

lemma enslave_view:
  "enslave_ports nl b ps s = (None, s') \<Longrightarrow> view s' = attach b ps (view s)"
proof (induction ps arbitrary: s)
  case (Cons p ps)
  show ?case
  proof (cases "view s p")
    case None
    with Cons have "view s' = attach b ps (view s)" by (simp add: by_name)
    with None show ?thesis by (auto simp: attach_def)
  next
    case (Some l)
    with Cons.prems obtain s1 s2 where 1: "nl_LinkSetMaster nl p b s = (None, s1)"
      and 2: "nl_LinkSetUp nl p s1 = (None, s2)" and 3: "enslave_ports nl b ps s2 = (None, s')"
      by (auto simp: by_name split: prod.splits option.splits)
    show ?thesis
      unfolding Cons.IH [OF 3] up_ok [OF 2] master_ok [OF 1]
      using Some by (auto simp: attach_def upd_link_def)
  qed
qed (simp add: attach_def)

text \<open>
  The effect of setting up one bridge, shared by the flat and the VLAN mode: the bridge is created if
  needed, the ports are attached, the address is assigned and the bridge is brought up.
\<close>

definition bridged :: "string \<Rightarrow> string list \<Rightarrow> 'a \<Rightarrow> (string \<Rightarrow> 'a link option) \<Rightarrow> string \<Rightarrow> 'a link option" where
  "bridged b ps a v =
     (let v1 = (if v b = None then v(b \<mapsto> new_link) else v)
      in upd_link b (\<lambda>l. l\<lparr>link_addrs := insert a (link_addrs l), link_up := True\<rparr>) (attach b ps v1))"

lemma add_view:
  assumes "nl_LinkAdd nl b s = (e, s1)" and "nl_LinkByName nl b s1"
  shows "view s1 = (if view s b = None then (view s)(b \<mapsto> new_link) else view s)"
  using assms add_ok [of b s s1] add_err [of b s _ s1] by (cases e) (auto simp: by_name)

lemma addr_up_view:
  assumes "nl_AddrAdd nl b a s = (e, s1)" and "e = None \<or> e = Some NlExist" and "nl_LinkSetUp nl b s1 = (None, s2)"
  shows "view s2 = upd_link b (\<lambda>l. l\<lparr>link_addrs := insert a (link_addrs l), link_up := True\<rparr>) (view s)"
proof (cases e)
  case None
  then show ?thesis
    using assms up_ok [OF assms(3)] addr_ok [of b a s s1]
    by (simp add: upd_link_def option.map_comp comp_def)
next
  case (Some x)
  then obtain l where "view s1 = view s" "view s b = Some l" "a \<in> link_addrs l"
    using assms(1,2) addr_err [of b a s x s1] by auto
  then show ?thesis
    using up_ok [OF assms(3)] by (simp add: upd_link_def insert_absorb)
qed

lemma setupOne_view:
  assumes "setupOne nl vc s = (Inr vb, s')"
  shows "\<exists>a. nl_ParseAddr nl (VLAN_Address vc) = Some a \<and> VB_ID vb = VLAN_ID vc \<and>
    VB_Bridge vb = BridgeName (VLAN_ID vc) \<and>
    view s' = bridged (BridgeName (VLAN_ID vc)) (VLAN_Ports vc) a (view s)"
proof -
  let ?b = "BridgeName (VLAN_ID vc)"
  from assms obtain a e1 s1 s2 e3 s3 where p: "nl_ParseAddr nl (VLAN_Address vc) = Some a"
    and 1: "nl_LinkAdd nl ?b s = (e1, s1)" "nl_LinkByName nl ?b s1"
    and 2: "enslave_ports nl ?b (VLAN_Ports vc) s1 = (None, s2)"
    and 3: "nl_AddrAdd nl ?b a s2 = (e3, s3)" "e3 = None \<or> e3 = Some NlExist"
    and 4: "nl_LinkSetUp nl ?b s3 = (None, s')" and vb: "VB_ID vb = VLAN_ID vc" "VB_Bridge vb = ?b"
    by (auto simp: setupOne_def BridgeName_def Let_def split: option.splits prod.splits if_splits)
  show ?thesis
    using p vb addr_up_view [OF 3 4] enslave_view [OF 2] add_view [OF 1]
    by (auto simp: bridged_def Let_def)
qed

lemma netsetup_view:
  assumes "netsetup_Setup nl b ps addr s = (None, s')"
  shows "\<exists>a. nl_ParseAddr nl addr = Some a \<and> view s' = bridged b ps a (view s)"
proof -
  from assms obtain a e1 s1 s2 e3 s3 where p: "nl_ParseAddr nl addr = Some a"
    and 1: "nl_LinkAdd nl b s = (e1, s1)" "nl_LinkByName nl b s1"
    and 2: "enslave_ports nl b ps s1 = (None, s2)"
    and 3: "nl_AddrAdd nl b a s2 = (e3, s3)" "e3 = None \<or> e3 = Some NlExist"
    and 4: "nl_LinkSetUp nl b s3 = (None, s')"
    by (auto simp: netsetup_Setup_def split: option.splits prod.splits if_splits)
  show ?thesis
    using p addr_up_view [OF 3 4] enslave_view [OF 2] add_view [OF 1]
    by (auto simp: bridged_def Let_def)
qed

end

text \<open>The table after all VLANs: the bridges are folded in order.\<close>

context netlink_laws
begin

definition vlans_view :: "vlan_config list \<Rightarrow> (string \<Rightarrow> 'a link option) \<Rightarrow> string \<Rightarrow> 'a link option" where
  "vlans_view vcs v = fold (\<lambda>vc v. bridged (BridgeName (VLAN_ID vc)) (VLAN_Ports vc)
     (the (nl_ParseAddr nl (VLAN_Address vc))) v) vcs v"

lemma vlan_loop_view:
  "vlan_setup_loop nl vcs acc s = (Inr res, s') \<Longrightarrow>
   view s' = vlans_view vcs (view s) \<and>
   map (\<lambda>b. (VB_ID b, VB_Bridge b)) res =
     map (\<lambda>b. (VB_ID b, VB_Bridge b)) acc @ map (\<lambda>vc. (VLAN_ID vc, BridgeName (VLAN_ID vc))) vcs \<and>
   (\<forall>vc \<in> set vcs. nl_ParseAddr nl (VLAN_Address vc) \<noteq> None)"
proof (induction vcs arbitrary: acc s)
  case (Cons vc vcs)
  from Cons.prems obtain vb s1 where one: "setupOne nl vc s = (Inr vb, s1)"
    and rest: "vlan_setup_loop nl vcs (acc @ [vb]) s1 = (Inr res, s')"
    by (auto split: prod.splits sum.splits)
  from setupOne_view [OF one] Cons.IH [OF rest] show ?case
    by (auto simp: vlans_view_def)
qed (simp add: vlans_view_def)

text \<open>A bridge set up once stays a link that is up and has its address.\<close>

definition bridge_ready :: "'a \<Rightarrow> 'a link option \<Rightarrow> bool" where
  "bridge_ready a lo \<longleftrightarrow> (\<exists>l. lo = Some l \<and> link_up l \<and> a \<in> link_addrs l)"

lemma bridged_ready: "bridge_ready a (bridged b ps a v b)"
  by (auto simp: bridge_ready_def bridged_def upd_link_def attach_def Let_def)

lemma bridged_keeps_ready: "bridge_ready a (v n) \<Longrightarrow> bridge_ready a (bridged b ps a' v n)"
  by (auto simp: bridge_ready_def bridged_def upd_link_def attach_def Let_def)

lemma vlans_keep_ready: "bridge_ready a (v n) \<Longrightarrow> bridge_ready a (vlans_view vcs v n)"
  unfolding vlans_view_def by (induction vcs arbitrary: v) (auto intro: bridged_keeps_ready)

lemma vlans_ready:
  "vc \<in> set vcs \<Longrightarrow>
   bridge_ready (the (nl_ParseAddr nl (VLAN_Address vc))) (vlans_view vcs v (BridgeName (VLAN_ID vc)))"
proof (induction vcs arbitrary: v)
  case (Cons x vcs)
  have eq: "vlans_view (x # vcs) v = vlans_view vcs (bridged (BridgeName (VLAN_ID x)) (VLAN_Ports x)
      (the (nl_ParseAddr nl (VLAN_Address x))) v)"
    by (simp add: vlans_view_def)
  show ?case
  proof (cases "vc = x")
    case True
    show ?thesis
      unfolding eq True by (rule vlans_keep_ready) (rule bridged_ready)
  next
    case False
    with Cons show ?thesis by (simp add: eq)
  qed
qed simp

text \<open>A link that is no VLAN bridge: only its master changes, and its state if it is a port.\<close>

lemma bridged_port:
  "n \<noteq> b \<Longrightarrow> bridged b ps a v n =
     (if n \<in> set ps then map_option (\<lambda>l. l\<lparr>link_master := Some b, link_up := True\<rparr>) (v n) else v n)"
  by (simp add: bridged_def upd_link_def attach_def Let_def)

lemma vlans_port:
  assumes "\<forall>vc \<in> set vcs. n \<noteq> BridgeName (VLAN_ID vc)"
  shows "vlans_view vcs v n =
    (case find (\<lambda>vc. n \<in> set (VLAN_Ports vc)) (rev vcs) of
       None \<Rightarrow> v n
     | Some vc \<Rightarrow> map_option (\<lambda>l. l\<lparr>link_master := Some (BridgeName (VLAN_ID vc)), link_up := True\<rparr>) (v n))"
  using assms
proof (induction vcs rule: rev_induct)
  case (snoc vc vcs)
  then have "vlans_view (vcs @ [vc]) v n =
      (if n \<in> set (VLAN_Ports vc)
       then map_option (\<lambda>l. l\<lparr>link_master := Some (BridgeName (VLAN_ID vc)), link_up := True\<rparr>) (vlans_view vcs v n)
       else vlans_view vcs v n)"
    by (simp add: vlans_view_def bridged_port)
  with snoc show ?case
    by (auto simp: option.map_comp comp_def split: option.splits)
qed (simp add: vlans_view_def)

end

text \<open>
  C18: If \<open>vlan.Setup\<close> succeeds, every VLAN has its bridge, which exists, is up and has the address of
  the VLAN. Every other link that existed is attached to the bridge of the last VLAN that lists it,
  and is up; a link that no VLAN lists is as it was.
\<close>

theorem vlan_bridges:
  assumes "netlink_laws nl view" and "vlan_Setup nl vcs s = (Inr res, s')"
    and "\<forall>vc \<in> set vcs. n \<noteq> BridgeName (VLAN_ID vc)"
  shows "(\<forall>vc \<in> set vcs. \<exists>a l. nl_ParseAddr nl (VLAN_Address vc) = Some a \<and>
      view s' (BridgeName (VLAN_ID vc)) = Some l \<and> link_up l \<and> a \<in> link_addrs l) \<and>
    view s' n = (case find (\<lambda>vc. n \<in> set (VLAN_Ports vc)) (rev vcs) of
       None \<Rightarrow> view s n
     | Some vc \<Rightarrow> map_option (\<lambda>l. l\<lparr>link_master := Some (BridgeName (VLAN_ID vc)), link_up := True\<rparr>) (view s n)) \<and>
    map VB_ID res = map VLAN_ID vcs"
proof (intro conjI ballI)
  note v = netlink_laws.vlan_loop_view [OF assms(1) assms(2) [unfolded vlan_Setup_def]]
  show "view s' n = (case find (\<lambda>vc. n \<in> set (VLAN_Ports vc)) (rev vcs) of
       None \<Rightarrow> view s n
     | Some vc \<Rightarrow> map_option (\<lambda>l. l\<lparr>link_master := Some (BridgeName (VLAN_ID vc)), link_up := True\<rparr>) (view s n))"
    using v netlink_laws.vlans_port [OF assms(1,3)] by simp
  have "map fst (map (\<lambda>b. (VB_ID b, VB_Bridge b)) res) =
      map fst (map (\<lambda>vc. (VLAN_ID vc, BridgeName (VLAN_ID vc))) vcs)"
    using v by simp
  then show "map VB_ID res = map VLAN_ID vcs" by (simp add: comp_def)
  fix vc assume "vc \<in> set vcs"
  then show "\<exists>a l. nl_ParseAddr nl (VLAN_Address vc) = Some a \<and>
      view s' (BridgeName (VLAN_ID vc)) = Some l \<and> link_up l \<and> a \<in> link_addrs l"
    using v netlink_laws.vlans_ready [OF assms(1), of vc vcs "view s"]
    by (fastforce simp: netlink_laws.bridge_ready_def [OF assms(1)])
qed

text \<open>The laws hold of a table of links in which every operation on an existing link succeeds.\<close>

definition link_table :: "(string \<Rightarrow> string option) \<Rightarrow> ((string \<Rightarrow> string link option), string) netlink" where
  "link_table parse =
     \<lparr>nl_ParseAddr = parse,
      nl_LinkByName = (\<lambda>n v. v n \<noteq> None),
      nl_LinkAdd = (\<lambda>n v. if v n \<noteq> None then (Some NlExist, v) else (None, v(n \<mapsto> new_link))),
      nl_LinkSetMaster = (\<lambda>p b v. if v p = None \<or> v b = None then (Some NlOther, v)
        else (None, upd_link p (\<lambda>l. l\<lparr>link_master := Some b\<rparr>) v)),
      nl_LinkSetUp = (\<lambda>p v. if v p = None then (Some NlOther, v)
        else (None, upd_link p (\<lambda>l. l\<lparr>link_up := True\<rparr>) v)),
      nl_AddrAdd = (\<lambda>p a v. case v p of None \<Rightarrow> (Some NlOther, v)
        | Some l \<Rightarrow> if a \<in> link_addrs l then (Some NlExist, v)
            else (None, upd_link p (\<lambda>l. l\<lparr>link_addrs := insert a (link_addrs l)\<rparr>) v))\<rparr>"

interpretation nlt: netlink_laws "link_table parse" "\<lambda>v. v" for parse
  by unfold_locales (auto simp: link_table_def split: option.splits if_splits)

definition demo_vlans :: "vlan_config list" where
  "demo_vlans = map (\<lambda>(i, ps). \<lparr>VLAN_ID = i, VLAN_Name = [], VLAN_Ports = ps, VLAN_Address = ''10.0.0.1/24'',
     VLAN_DHCP = zero_dhcp, VLAN_NAT = True, VLAN_Isolated = False\<rparr>)
     [(10, [''lan1'', ''lan9'']), (20, [''lan2'', ''lan1''])]"

definition demo_links :: "string \<Rightarrow> string link option" where
  "demo_links = [''lan1'' \<mapsto> new_link, ''lan2'' \<mapsto> new_link]"

theorem vlan_bridges_witness:
  "\<exists>res s'. vlan_Setup (link_table Some) demo_vlans demo_links = (Inr res, s') \<and>
     map_option link_master (s' ''lan1'') = Some (Some ''br-vlan20'') \<and> s' ''lan9'' = None"
proof -
  obtain r s' where run: "vlan_Setup (link_table Some) demo_vlans demo_links = (r, s')" by fastforce
  have "\<not> isl (fst (vlan_Setup (link_table Some) demo_vlans demo_links))" by code_simp
  with run obtain res where r: "vlan_Setup (link_table Some) demo_vlans demo_links = (Inr res, s')"
    by (cases r) auto
  have ids: "map VLAN_ID demo_vlans = [10, 20]" "map VLAN_Ports demo_vlans = [[''lan1'', ''lan9''], [''lan2'', ''lan1'']]"
    by (simp_all add: demo_vlans_def)
  have "BridgeName 10 = ''br-vlan10''" "BridgeName 20 = ''br-vlan20''" by code_simp+
  then have "\<forall>vc \<in> set demo_vlans. ''lan1'' \<noteq> BridgeName (VLAN_ID vc)"
    "\<forall>vc \<in> set demo_vlans. ''lan9'' \<noteq> BridgeName (VLAN_ID vc)" "BridgeName 20 = ''br-vlan20''"
    by (simp_all add: demo_vlans_def)
  then show ?thesis
    using r vlan_bridges [OF nlt.netlink_laws_axioms r, of "''lan1''"]
      vlan_bridges [OF nlt.netlink_laws_axioms r, of "''lan9''"]
    by (simp add: demo_vlans_def demo_links_def new_link_def)
qed

end
