(* ===== verification/Mount.thy ===== *)
theory Mount
  imports Config
begin

section \<open>The volume of the services (pkg/mount)\<close>

text \<open>
  Waiting for a device, reading \<open>/proc/mounts\<close>, and the commands that \<open>pkg/mount/mount.go\<close> runs.
  The environment answers the system calls: the clock and the \<open>Stat\<close> of the device at the \<open>i\<close>-th
  iteration of the polling loop, and whether a command succeeds.
\<close>

text \<open>
  The polling loop of \<open>waitForDevice\<close> (and of \<open>waitForInterface\<close> in both daemons): \<open>None\<close> is a loop
  that does not end, \<open>Some False\<close> the time-out.
\<close>

partial_function (option) poll_loop :: "(nat \<Rightarrow> instant) \<Rightarrow> (nat \<Rightarrow> bool) \<Rightarrow> instant \<Rightarrow> nat \<Rightarrow> bool option" where
  "poll_loop now ready deadline i =
     (if now i < deadline then (if ready i then Some True else poll_loop now ready deadline (Suc i))
      else Some False)"

declare poll_loop.simps [code]

record mount_env =
  env_start :: instant
  env_now :: "nat \<Rightarrow> instant"
  env_stat :: "string \<Rightarrow> nat \<Rightarrow> bool"
  env_mkdir :: "string \<Rightarrow> bool"
  env_mounts :: "string option"
  env_run :: "string list \<Rightarrow> bool"

datatype mount_error =
    MountNoDevice | MountNoTarget | MountNotReady | MountMkdir | MountCheck | MountFailed | UmountFailed

definition waitForDevice :: "mount_env \<Rightarrow> string \<Rightarrow> duration \<Rightarrow> bool option" where
  "waitForDevice w device timeout = poll_loop (env_now w) (env_stat w device) (env_start w + timeout) 0"

fun mounts_line :: "string \<Rightarrow> string list \<Rightarrow> bool" where
  "mounts_line target [] = False"
| "mounts_line target (l # ls) =
     (let fields = Fields l in
      if 2 < length fields \<and> fields ! 1 = target then True else mounts_line target ls)"

text \<open>\<open>None\<close> is the error of reading \<open>/proc/mounts\<close>.\<close>

definition isMounted :: "mount_env \<Rightarrow> string \<Rightarrow> bool option" where
  "isMounted w target = map_option (\<lambda>d. mounts_line target (Split CHR 0x0A d)) (env_mounts w)"

definition mount_args :: "mount_config \<Rightarrow> string list" where
  "mount_args cfg =
     [''mount'', ''-t'', (if Mount_FsType cfg = [] then ''auto'' else Mount_FsType cfg)] @
     (if Mount_Options cfg \<noteq> [] then [''-o'', Mount_Options cfg] else []) @ [Mount_Device cfg, Mount_Target cfg]"

text \<open>The result of a call and the commands it ran; \<open>None\<close> if it does not return.\<close>

definition mount_Mount :: "mount_env \<Rightarrow> mount_config \<Rightarrow> (mount_error option \<times> string list list) option" where
  "mount_Mount w cfg =
     (if \<not> Mount_Enabled cfg then Some (None, [])
      else if Mount_Device cfg = [] then Some (Some MountNoDevice, [])
      else if Mount_Target cfg = [] then Some (Some MountNoTarget, [])
      else Option.bind (waitForDevice w (Mount_Device cfg) (30 * Second)) (\<lambda>ready.
        if \<not> ready then Some (Some MountNotReady, [])
        else if \<not> env_mkdir w (Mount_Target cfg) then Some (Some MountMkdir, [])
        else (case isMounted w (Mount_Target cfg) of
            None \<Rightarrow> Some (Some MountCheck, [])
          | Some True \<Rightarrow> Some (None, [])
          | Some False \<Rightarrow>
            Some (if env_run w (mount_args cfg) then None else Some MountFailed, [mount_args cfg]))))"

definition mount_Unmount :: "mount_env \<Rightarrow> mount_config \<Rightarrow> mount_error option \<times> string list list" where
  "mount_Unmount w cfg =
     (if \<not> Mount_Enabled cfg \<or> Mount_Target cfg = [] then (None, [])
      else if isMounted w (Mount_Target cfg) \<noteq> Some True then (None, [])
      else (if env_run w [''umount'', Mount_Target cfg] then None else Some UmountFailed,
            [[''umount'', Mount_Target cfg]]))"

end
