(* ===== verification/Mount_Props.thy ===== *)
theory Mount_Props
  imports Mount
begin

section \<open>Properties of the mount\<close>

text \<open>
  The polling loop ends; which command \<open>Mount\<close> runs and when it succeeds; and the targets that the
  mount table never shows.
\<close>

subsection \<open>The polling loop ends\<close>

text \<open>
  If the clock advances by at least \<open>d > 0\<close> between two polls (the code sleeps), the loop returns, and
  it returns true exactly if the thing waited for is there at a poll before the deadline.
\<close>

lemma poll_loop_ends:
  assumes "\<And>i. now i + d \<le> now (Suc i)" and "0 < d"
  shows "poll_loop now ready deadline i =
    Some (\<exists>j\<ge>i. ready j \<and> (\<forall>k. i \<le> k \<and> k \<le> j \<longrightarrow> now k < deadline))"
proof (induction "nat (deadline - now i)" arbitrary: i rule: less_induct)
  case less
  let ?R = "\<lambda>i. \<exists>j\<ge>i. ready j \<and> (\<forall>k. i \<le> k \<and> k \<le> j \<longrightarrow> now k < deadline)"
  have step: "?R i \<longleftrightarrow> now i < deadline \<and> (ready i \<or> ?R (Suc i))"
  proof
    assume "?R i"
    then obtain j where j: "i \<le> j" "ready j" "\<And>k. i \<le> k \<Longrightarrow> k \<le> j \<Longrightarrow> now k < deadline" by blast
    then show "now i < deadline \<and> (ready i \<or> ?R (Suc i))"
      by (cases "j = i") (auto intro!: exI [of _ j])
  next
    assume a: "now i < deadline \<and> (ready i \<or> ?R (Suc i))"
    then show "?R i"
    proof (cases "ready i")
      case False
      with a obtain j where "Suc i \<le> j" "ready j" "\<And>k. Suc i \<le> k \<Longrightarrow> k \<le> j \<Longrightarrow> now k < deadline"
        by blast
      with a show ?thesis
        by (intro exI [of _ j]) (metis Suc_leD Suc_leI order_le_imp_less_or_eq)
    qed (use a in auto)
  qed
  show ?case
  proof (cases "now i < deadline")
    case True
    have "nat (deadline - now (Suc i)) < nat (deadline - now i)"
      using assms(1) [of i] assms(2) True by linarith
    then have "poll_loop now ready deadline (Suc i) = Some (?R (Suc i))"
      by (rule less)
    then show ?thesis
      using True by (subst poll_loop.simps) (cases "ready i"; simp only: step if_True if_False simp_thms)
  next
    case False
    then show ?thesis
      by (subst poll_loop.simps) (simp only: step if_False simp_thms)
  qed
qed

definition device_appears :: "mount_env \<Rightarrow> string \<Rightarrow> duration \<Rightarrow> bool" where
  "device_appears w device timeout \<longleftrightarrow>
     (\<exists>j. env_stat w device j \<and> (\<forall>k\<le>j. env_now w k < env_start w + timeout))"

lemma waitForDevice_iff:
  assumes "\<And>i. env_now w i + d \<le> env_now w (Suc i)" and "0 < d"
  shows "waitForDevice w device timeout = Some (device_appears w device timeout)"
  using poll_loop_ends [where now = "env_now w", OF assms] by (simp add: waitForDevice_def device_appears_def)


definition demo_mount :: mount_config where
  "demo_mount = \<lparr>Mount_Enabled = True, Mount_Device = ''/dev/sda1'', Mount_FsType = [],
     Mount_Target = ''/mnt/data'', Mount_Options = ''ro''\<rparr>"

definition demo_env :: "string option \<Rightarrow> mount_env" where
  "demo_env mounts = \<lparr>env_start = 0, env_now = (\<lambda>i. int i * Second), env_stat = (\<lambda>_ i. 4 \<le> i),
     env_mkdir = (\<lambda>_. True), env_mounts = mounts, env_run = (\<lambda>_. True)\<rparr>"


lemma mounts_line_blank:
  assumes "c \<in> set target" and "is_space c"
  shows "\<not> mounts_line target ls"
proof (induction ls)
  case (Cons l ls)
  have "Fields l ! 1 \<noteq> target" if "2 < length (Fields l)"
    using Fields_parts [of "Fields l ! 1" l] that assms by auto
  with Cons show ?case by (auto simp: Let_def)
qed simp

text \<open>
  A target with a blank in its name is never found in the mount table, whatever it contains (the
  kernel writes the blank as an octal escape, which is not decoded): such a volume is mounted again on
  every start and never unmounted.
\<close>

lemma blank_target_never_mounted:
  assumes "c \<in> set (Mount_Target cfg)" and "is_space c"
  shows "isMounted w (Mount_Target cfg) \<noteq> Some True \<and> mount_Unmount w cfg = (None, [])"
  using mounts_line_blank [OF assms] by (auto simp: isMounted_def mount_Unmount_def)

lemma blank_target_never_mounted_example:
  "mount_Unmount (demo_env (Some (''/dev/sda1 /mnt/my'' @ [CHR 0x5C] @ ''040data ext4 rw''))) (demo_mount\<lparr>Mount_Target := ''/mnt/my data''\<rparr>) = (None, [])"
proof -
  have "is_space CHR '' ''" by code_simp
  then show ?thesis
    using blank_target_never_mounted [of "CHR '' ''" "demo_mount\<lparr>Mount_Target := ''/mnt/my data''\<rparr>"] by simp
qed

end
