(* ===== verification/SMB.thy ===== *)
theory SMB
  imports Config Go_Path
begin

section \<open>The SMB server (pkg/smb)\<close>

text \<open>
  The validation of names, passwords and paths, the smb.conf that is generated, and the commands
  that \<open>pkg/smb/smb.go\<close> runs, in order. The environment answers the system calls; a call returns
  its error, if any, with the effects it had.
\<close>

subsection \<open>net.SplitHostPort\<close>

definition SplitHostPort :: "string \<Rightarrow> (string \<times> string) option" where
  "SplitHostPort hostport =
     (if CHR '':'' \<notin> set hostport then None
      else
        (let port = rev (takeWhile (\<lambda>c. c \<noteq> CHR '':'') (rev hostport));
             front = take (length hostport - length port - 1) hostport
         in if hostport ! 0 = CHR ''['' then
              (if CHR '']'' \<notin> set hostport then None
               else
                 (let j = length (takeWhile (\<lambda>c. c \<noteq> CHR '']'') hostport);
                      host = take (j - 1) (drop 1 hostport)
                  in if j + 1 \<noteq> length front then None
                     else if CHR ''['' \<in> set (drop 1 hostport) \<or> CHR '']'' \<in> set (drop (j + 1) hostport) then None
                     else Some (host, port)))
            else if CHR '':'' \<in> set front then None
            else if CHR ''['' \<in> set hostport \<or> CHR '']'' \<in> set hostport then None
            else Some (front, port)))"

subsection \<open>Validation\<close>

datatype smb_error =
    SmbNoCredentials | SmbNoPath | SmbEmptyName string | SmbLongName string | SmbInvalidName string
  | SmbEmptyPassword | SmbLongPassword | SmbControlPassword | SmbControlPath | SmbInvalidInterface
  | SmbMkdir | SmbNoBinary | SmbExtraPortable | SmbListen | SmbPort | SmbWriteConfig
  | SmbCreateUser string | SmbStart | SmbNotSamba

text \<open>
  The loops range over runes; a byte from 128 on belongs to a rune from 128 on (or stands for
  U+FFFD), so that they decide as the same loop over bytes does.
\<close>

definition is_alnum :: "char \<Rightarrow> bool" where
  "is_alnum c = (let n = code_of c in
     97 \<le> n \<and> n \<le> 122 \<or> 65 \<le> n \<and> n \<le> 90 \<or> 48 \<le> n \<and> n \<le> 57)"

fun simple_name_loop :: "nat \<Rightarrow> string \<Rightarrow> bool" where
  "simple_name_loop i [] = True"
| "simple_name_loop i (r # rs) =
     (let ok = r = CHR ''.'' \<or> r = CHR ''_'' \<or> r = CHR ''-'';
          ok1 = (if i = 0 \<and> (r = CHR ''.'' \<or> r = CHR ''_'' \<or> r = CHR ''-'') then False else ok)
      in if \<not> ok1 \<and> \<not> is_alnum r then False else simple_name_loop (Suc i) rs)"

definition validateSimpleName :: "string \<Rightarrow> string \<Rightarrow> smb_error option" where
  "validateSimpleName name what =
     (if name = [] then Some (SmbEmptyName what)
      else if length name > 32 then Some (SmbLongName what)
      else if \<not> simple_name_loop 0 name then Some (SmbInvalidName what) else None)"

definition control_char :: "char \<Rightarrow> bool" where
  "control_char r = (r = CHR 0x0A \<or> r = CHR 0x0D \<or> code_of r < 32 \<and> r \<noteq> CHR 0x09 \<or> code_of r = 127)"

definition validateUser :: "string \<Rightarrow> string \<Rightarrow> smb_error option" where
  "validateUser name password =
     (case validateSimpleName name ''user name'' of
        Some e \<Rightarrow> Some e
      | None \<Rightarrow>
        if password = [] then Some SmbEmptyPassword
        else if length password > 128 then Some SmbLongPassword
        else if list_ex control_char password then Some SmbControlPassword else None)"

definition validatePath :: "string \<Rightarrow> smb_error option" where
  "validatePath p =
     (if p = [] then Some SmbNoPath else if list_ex control_char p then Some SmbControlPath else None)"

definition validateInterface :: "string \<Rightarrow> smb_error option" where
  "validateInterface host =
     (if list_ex (\<lambda>r. r = CHR 0x0A \<or> r = CHR 0x0D \<or> r = CHR '';'' \<or> r = CHR ''['' \<or> r = CHR '']'' \<or>
          code_of r < 32 \<or> code_of r = 127) host then Some SmbInvalidInterface else None)"

subsection \<open>Effects\<close>

datatype run_result = RunNotStarted | RunFails | RunOk

text \<open>\<open>senv_int\<close> is the width of \<open>int\<close> on the platform.\<close>

record smb_env =
  senv_int :: nat
  senv_mkdir :: "string \<Rightarrow> bool"
  senv_stat :: "string \<Rightarrow> bool"
  senv_write :: "string \<Rightarrow> bytes \<Rightarrow> bool"
  senv_run :: "string list \<Rightarrow> string \<Rightarrow> run_result"
  senv_spawn :: "string list \<Rightarrow> bool"

text \<open>A file written, a command run to its end with its standard input, a server started.\<close>

datatype smb_effect =
    WroteFile string string | RanCommand "string list" string | Spawned "string list" | Interrupted

text \<open>\<open>smb_cmd\<close>: the server process has been started.\<close>

record smb_server =
  smb_cfg :: smb_config
  smb_cmd :: bool
  smb_isSamba :: bool
  smb_extraUsers :: "smb_user list"

definition smb_New :: "smb_config \<Rightarrow> smb_server" where
  "smb_New cfg = \<lparr>smb_cfg = cfg, smb_cmd = False, smb_isSamba = False, smb_extraUsers = []\<rparr>"

definition SetExtraUsers :: "smb_user list \<Rightarrow> smb_server \<Rightarrow> smb_server" where
  "SetExtraUsers users s = s\<lparr>smb_extraUsers := users\<rparr>"

definition createUser :: "smb_env \<Rightarrow> string \<Rightarrow> string \<Rightarrow> smb_error option \<times> smb_effect list" where
  "createUser w user password =
     (let input = password @ [CHR 0x0A] @ password @ [CHR 0x0A];
          add = [''smbpasswd'', ''-s'', ''-a'', user]; upd = [''smbpasswd'', ''-s'', user]
      in case senv_run w add input of
           RunNotStarted \<Rightarrow> (Some (SmbCreateUser user), [])
         | RunOk \<Rightarrow> (None, [RanCommand add input])
         | RunFails \<Rightarrow>
           (case senv_run w upd input of
              RunNotStarted \<Rightarrow> (Some (SmbCreateUser user), [RanCommand add input])
            | RunFails \<Rightarrow> (Some (SmbCreateUser user), [RanCommand add input, RanCommand upd input])
            | RunOk \<Rightarrow> (None, [RanCommand add input, RanCommand upd input])))"

fun create_users :: "smb_env \<Rightarrow> smb_user list \<Rightarrow> smb_error option \<times> smb_effect list" where
  "create_users w [] = (None, [])"
| "create_users w (u # us) =
     (case createUser w (SMBUser_Name u) (SMBUser_Password u) of
        (Some e, fx) \<Rightarrow> (Some e, fx)
      | (None, fx) \<Rightarrow> (case create_users w us of (e, fx') \<Rightarrow> (e, fx @ fx')))"

text \<open>The template of smb.conf, one string per line.\<close>

definition smb_conf_lines :: "string \<Rightarrow> string \<Rightarrow> string \<Rightarrow> string \<Rightarrow> string list" where
  "smb_conf_lines iface share path users =
     [''[global]'', ''workgroup = WORKGROUP'', ''server role = standalone server'', ''security = user'',
      ''map to guest = never'', ''min protocol = SMB2'', ''passdb backend = tdbsam:/tmp/smbpassdb.tdb'',
      ''pid directory = /tmp'', ''lock directory = /tmp'', ''state directory = /tmp'',
      ''cache directory = /tmp'', ''private dir = /tmp''] @
     (if iface \<noteq> [] then [''interfaces = '' @ iface, ''bind interfaces only = yes''] else []) @
     [''server min protocol = SMB2_10'', ''server max protocol = SMB3_11'', '''',
      ''['' @ share @ '']'', ''path = '' @ path, ''valid users = '' @ users, ''read only = no'',
      ''browsable = yes'', ''guest ok = no'']"

definition smb_conf :: "string \<Rightarrow> string \<Rightarrow> string \<Rightarrow> string \<Rightarrow> string" where
  "smb_conf iface share path users = concat (map (\<lambda>l. l @ [CHR 0x0A]) (smb_conf_lines iface share path users))"

definition smb_confPath :: string where "smb_confPath = ''/tmp/smb.conf''"

definition share_name :: "smb_config \<Rightarrow> string" where
  "share_name cfg = (if SMB_ShareName cfg = [] then ''data'' else SMB_ShareName cfg)"

definition startPortable ::
  "smb_env \<Rightarrow> string \<Rightarrow> string \<Rightarrow> smb_server \<Rightarrow> smb_error option \<times> smb_server \<times> smb_effect list" where
  "startPortable w bin listen s =
     (let cfg = smb_cfg s; fail = (\<lambda>e. (Some e, s, [])) in
      if 0 < length (smb_extraUsers s) then fail SmbExtraPortable
      else (case SplitHostPort listen of
          None \<Rightarrow> fail SmbListen
        | Some (host, portStr) \<Rightarrow>
          (case Atoi (senv_int w) portStr of
             None \<Rightarrow> fail SmbPort
           | Some port \<Rightarrow>
             (case validateSimpleName (share_name cfg) ''share name'' of
                Some e \<Rightarrow> fail e
              | None \<Rightarrow>
                (case validatePath (SMB_SharePath cfg) of
                   Some e \<Rightarrow> fail e
                 | None \<Rightarrow>
                   (let cmd = [bin, ''-ip'', host, ''-port'', Itoa port, ''-user'', SMB_User cfg,
                               ''-pass'', SMB_Password cfg, ''-folder'', SMB_SharePath cfg,
                               ''-share'', share_name cfg]
                    in if \<not> senv_spawn w cmd then fail SmbStart
                       else (None, s\<lparr>smb_cmd := True\<rparr>, [Spawned cmd])))))))"

definition samba_host :: "string \<Rightarrow> string option" where
  "samba_host listen =
     (case SplitHostPort listen of
        None \<Rightarrow> None
      | Some (host, _) \<Rightarrow> Some (if host \<noteq> [] \<and> (host = ''0.0.0.0'' \<or> host = ''::'') then [] else host))"

definition startSamba ::
  "smb_env \<Rightarrow> string \<Rightarrow> string \<Rightarrow> smb_server \<Rightarrow> smb_error option \<times> smb_server \<times> smb_effect list" where
  "startSamba w bin listen s =
     (let cfg = smb_cfg s; fail = (\<lambda>e. (Some e, s, [])) in
      case samba_host listen of
        None \<Rightarrow> fail SmbListen
      | Some host \<Rightarrow>
        (case validateSimpleName (share_name cfg) ''share name'' of
           Some e \<Rightarrow> fail e
         | None \<Rightarrow>
           (case validatePath (SMB_SharePath cfg) of
              Some e \<Rightarrow> fail e
            | None \<Rightarrow>
              (case (if host \<noteq> [] then validateInterface host else None) of
                 Some e \<Rightarrow> fail e
               | None \<Rightarrow>
                 (let validUsers = SMB_User cfg # map SMBUser_Name (smb_extraUsers s);
                      conf = smb_conf host (share_name cfg) (SMB_SharePath cfg) (Join validUsers '' '');
                      wrote = [WroteFile smb_confPath conf];
                      cmd = [bin, ''--foreground'', ''--no-process-group'', ''-s'', smb_confPath]
                  in if \<not> senv_write w smb_confPath (bytes_of_string conf) then fail SmbWriteConfig
                     else (case createUser w (SMB_User cfg) (SMB_Password cfg) of
                         (Some e, fx) \<Rightarrow> (Some e, s, wrote @ fx)
                       | (None, fx) \<Rightarrow>
                         (case create_users w (smb_extraUsers s) of
                            (Some e, fx') \<Rightarrow> (Some e, s, wrote @ fx @ fx')
                          | (None, fx') \<Rightarrow>
                            (if \<not> senv_spawn w cmd then (Some SmbStart, s, wrote @ fx @ fx')
                             else (None, s\<lparr>smb_cmd := True, smb_isSamba := True\<rparr>,
                                   wrote @ fx @ fx' @ [Spawned cmd])))))))))"

fun validate_users :: "smb_user list \<Rightarrow> smb_error option" where
  "validate_users [] = None"
| "validate_users (u # us) =
     (case validateUser (SMBUser_Name u) (SMBUser_Password u) of Some e \<Rightarrow> Some e | None \<Rightarrow> validate_users us)"

definition smb_Start :: "smb_env \<Rightarrow> smb_server \<Rightarrow> smb_error option \<times> smb_server \<times> smb_effect list" where
  "smb_Start w s =
     (let cfg = smb_cfg s; fail = (\<lambda>e. (Some e, s, []));
          bin = (if SMB_BinPath cfg = [] then ''/usr/local/bin/smbd'' else SMB_BinPath cfg);
          listen = (if SMB_Listen cfg = [] then ''0.0.0.0:445'' else SMB_Listen cfg) in
      if \<not> SMB_Enabled cfg then (None, s, [])
      else if SMB_User cfg = [] \<or> SMB_Password cfg = [] then fail SmbNoCredentials
      else if SMB_SharePath cfg = [] then fail SmbNoPath
      else (case validateUser (SMB_User cfg) (SMB_Password cfg) of
          Some e \<Rightarrow> fail e
        | None \<Rightarrow>
          (case validate_users (smb_extraUsers s) of
             Some e \<Rightarrow> fail e
           | None \<Rightarrow>
             if \<not> senv_mkdir w (SMB_SharePath cfg) then fail SmbMkdir
             else if \<not> senv_stat w bin then fail SmbNoBinary
             else if SMB_UsePortableServer cfg \<or> path_Base bin = ''portable-smb-server''
             then startPortable w bin listen s
             else startSamba w bin listen s)))"

definition AddUser :: "smb_env \<Rightarrow> string \<Rightarrow> string \<Rightarrow> smb_server \<Rightarrow> smb_error option \<times> smb_effect list" where
  "AddUser w user password s =
     (if \<not> smb_isSamba s then (Some SmbNotSamba, [])
      else (case validateUser user password of
              Some e \<Rightarrow> (Some e, []) | None \<Rightarrow> createUser w user password))"

definition smb_Stop :: "smb_server \<Rightarrow> smb_effect list" where
  "smb_Stop s = (if smb_cmd s then [Interrupted] else [])"

end
