(* ===== verification/SMB_Props.thy ===== *)
theory SMB_Props
  imports SMB
begin

section \<open>Properties of the SMB server\<close>

text \<open>
  Nothing that passes the validation can inject a line into smb.conf, a user into the list of valid
  users, or a second password into the input of smbpasswd.
\<close>

lemma simple_name_loop_Suc:
  "simple_name_loop (Suc i) n \<longleftrightarrow> (\<forall>c \<in> set n. is_alnum c \<or> c \<in> {CHR ''.'', CHR ''_'', CHR ''-''})"
  by (induction n arbitrary: i) (auto simp: Let_def)

lemma validateSimpleName_iff:
  "validateSimpleName n w = None \<longleftrightarrow> n \<noteq> [] \<and> length n \<le> 32 \<and> is_alnum (hd n) \<and>
     (\<forall>c \<in> set n. is_alnum c \<or> c \<in> {CHR ''.'', CHR ''_'', CHR ''-''})"
  by (cases n) (auto simp: validateSimpleName_def simple_name_loop_Suc Let_def)

lemma is_alnum_sep: "\<not> is_alnum CHR '' ''" "\<not> is_alnum CHR 0x0A"
  by code_simp+

lemma simple_name_seps:
  "validateSimpleName n w = None \<Longrightarrow> CHR '' '' \<notin> set n \<and> CHR 0x0A \<notin> set n"
  using is_alnum_sep by (auto simp: validateSimpleName_iff)

lemma validateUser_iff:
  "validateUser n p = None \<longleftrightarrow> validateSimpleName n ''user name'' = None \<and> p \<noteq> [] \<and> length p \<le> 128 \<and>
     (\<forall>c \<in> set p. \<not> control_char c)"
  by (auto simp: validateUser_def list_ex_iff split: option.splits)

lemma control_newline: "control_char CHR 0x0A"
  by (simp add: control_char_def)

lemma validatePath_newline: "validatePath p = None \<Longrightarrow> CHR 0x0A \<notin> set p"
  using control_newline by (auto simp: validatePath_def list_ex_iff split: if_splits)

lemma validateInterface_newline: "validateInterface h = None \<Longrightarrow> CHR 0x0A \<notin> set h"
  by (auto simp: validateInterface_def list_ex_iff split: if_splits)

lemma smb_conf_no_injection:
  assumes "CHR 0x0A \<notin> set iface" and "CHR 0x0A \<notin> set share" and "CHR 0x0A \<notin> set path"
    and "CHR 0x0A \<notin> set users"
  shows "Split CHR 0x0A (smb_conf iface share path users) = smb_conf_lines iface share path users @ [[]]"
  unfolding smb_conf_def
proof (rule Split_lines)
  show "\<forall>l \<in> set (smb_conf_lines iface share path users). CHR 0x0A \<notin> set l"
    using assms by (auto simp: smb_conf_lines_def)
qed

text \<open>The accounts of a server, and the commands that create one.\<close>

definition smb_accounts :: "smb_server \<Rightarrow> smb_user list" where
  "smb_accounts s = \<lparr>SMBUser_Name = SMB_User (smb_cfg s), SMBUser_Password = SMB_Password (smb_cfg s)\<rparr> # smb_extraUsers s"

definition sets_password :: "smb_user \<Rightarrow> smb_effect \<Rightarrow> bool" where
  "sets_password u x \<longleftrightarrow> (\<exists>args input. x = RanCommand args input \<and>
     args \<in> {[''smbpasswd'', ''-s'', ''-a'', SMBUser_Name u], [''smbpasswd'', ''-s'', SMBUser_Name u]} \<and>
     Split CHR 0x0A input = [SMBUser_Password u, SMBUser_Password u, []])"

lemma createUser_effects:
  assumes "validateUser (SMBUser_Name u) (SMBUser_Password u) = None"
    and "createUser w (SMBUser_Name u) (SMBUser_Password u) = (e, fx)"
  shows "\<forall>x \<in> set fx. sets_password u x"
proof -
  let ?p = "SMBUser_Password u"
  have nl: "CHR 0x0A \<notin> set ?p"
    using assms(1) control_newline by (auto simp: validateUser_iff)
  then have "Split CHR 0x0A (?p @ [CHR 0x0A] @ ?p @ [CHR 0x0A]) = [?p, ?p, []]"
    using Split_append_sep [of "CHR 0x0A" ?p] by (simp add: Split_absent)
  with assms(2) show ?thesis
    by (auto simp: createUser_def sets_password_def Let_def split: run_result.splits)
qed

lemma create_users_effects:
  assumes "\<forall>u \<in> set us. validateUser (SMBUser_Name u) (SMBUser_Password u) = None"
    and "create_users w us = (e, fx)"
  shows "\<forall>x \<in> set fx. \<exists>u \<in> set us. sets_password u x"
  using assms
proof (induction us arbitrary: e fx)
  case (Cons u us)
  then show ?case
    using createUser_effects [of u w] by (fastforce split: prod.splits option.splits)
qed simp

lemma validate_users_iff:
  "validate_users us = None \<longleftrightarrow> (\<forall>u \<in> set us. validateUser (SMBUser_Name u) (SMBUser_Password u) = None)"
  by (induction us) (auto split: option.splits)

lemma Join_absent:
  "(\<And>m. m \<in> set ms \<Longrightarrow> c \<notin> set m) \<Longrightarrow> c \<notin> set d \<Longrightarrow> c \<notin> set (Join ms d)"
  by (induction ms d rule: Join.induct) auto

lemma startSamba_ok:
  assumes "startSamba w bin listen s = (None, s', fx)"
    and "\<forall>u \<in> set (smb_accounts s). validateUser (SMBUser_Name u) (SMBUser_Password u) = None"
  shows "\<exists>host fx1. samba_host listen = Some host \<and> (host \<noteq> [] \<longrightarrow> validateInterface host = None) \<and>
    validateSimpleName (share_name (smb_cfg s)) ''share name'' = None \<and>
    validatePath (SMB_SharePath (smb_cfg s)) = None \<and>
    fx = WroteFile smb_confPath (smb_conf host (share_name (smb_cfg s)) (SMB_SharePath (smb_cfg s))
           (Join (map SMBUser_Name (smb_accounts s)) '' '')) # fx1 @
         [Spawned [bin, ''--foreground'', ''--no-process-group'', ''-s'', smb_confPath]] \<and>
    (\<forall>x \<in> set fx1. \<exists>u \<in> set (smb_accounts s). sets_password u x)"
proof -
  let ?cfg = "smb_cfg s"
  let ?u = "\<lparr>SMBUser_Name = SMB_User ?cfg, SMBUser_Password = SMB_Password ?cfg\<rparr>"
  from assms(1) obtain host fx2 fx3 where 1: "samba_host listen = Some host"
    "validateSimpleName (share_name ?cfg) ''share name'' = None" "validatePath (SMB_SharePath ?cfg) = None"
    "host \<noteq> [] \<longrightarrow> validateInterface host = None"
    and 2: "createUser w (SMB_User ?cfg) (SMB_Password ?cfg) = (None, fx2)"
    and 3: "create_users w (smb_extraUsers s) = (None, fx3)"
    and 4: "fx = [WroteFile smb_confPath (smb_conf host (share_name ?cfg) (SMB_SharePath ?cfg)
        (Join (SMB_User ?cfg # map SMBUser_Name (smb_extraUsers s)) '' ''))] @ fx2 @ fx3 @
        [Spawned [bin, ''--foreground'', ''--no-process-group'', ''-s'', smb_confPath]]"
    unfolding startSamba_def Let_def
    by (auto split: option.splits if_splits prod.splits simp del: Join.simps)
  have "\<forall>x \<in> set fx2. sets_password ?u x"
    using createUser_effects [of ?u w None fx2] 2 assms(2) by (simp add: smb_accounts_def)
  moreover have "\<forall>x \<in> set fx3. \<exists>u \<in> set (smb_extraUsers s). sets_password u x"
    using create_users_effects [OF _ 3] assms(2) by (simp add: smb_accounts_def)
  ultimately show ?thesis
    using 1 4 by (intro exI [of _ host] exI [of _ "fx2 @ fx3"]) (auto simp: smb_accounts_def simp del: Join.simps)
qed

lemma smb_Start_samba:
  assumes "smb_Start w s = (None, s', fx)" and "smb_isSamba s'" and "\<not> smb_isSamba s"
  shows "(\<forall>u \<in> set (smb_accounts s). validateUser (SMBUser_Name u) (SMBUser_Password u) = None) \<and>
    (\<exists>bin listen. startSamba w bin listen s = (None, s', fx))"
  using assms
  by (auto simp: smb_Start_def smb_accounts_def validate_users_iff startPortable_def Let_def
      split: option.splits if_splits prod.splits)


definition demo_smb :: "string \<Rightarrow> smb_server" where
  "demo_smb pw = SetExtraUsers [\<lparr>SMBUser_Name = ''guest1'', SMBUser_Password = pw\<rparr>]
     (smb_New \<lparr>SMB_Enabled = True, SMB_BinPath = [], SMB_Listen = [], SMB_ShareName = [], SMB_SharePath = ''/mnt/data'',
        SMB_User = ''admin'', SMB_Password = ''secret'', SMB_UsePortableServer = False\<rparr>)"

definition demo_smb_env :: smb_env where
  "demo_smb_env = \<lparr>senv_int = 32, senv_mkdir = (\<lambda>_. True), senv_stat = (\<lambda>_. True), senv_write = (\<lambda>_ _. True),
     senv_run = (\<lambda>args _. if length args = 4 then RunFails else RunOk), senv_spawn = (\<lambda>_. True)\<rparr>"


end
