(* ===== verification/Go_Float.thy ===== *)
theory Go_Float
  imports Go_Prelude
begin

section \<open>Floating-point numbers\<close>

text \<open>
  What the sources do with \<open>float64\<close>: conversion from an integer, division and multiplication by an
  integer, \<open>strconv.ParseFloat\<close> of a decimal number, the conversion to an integer, and the verbs \<open>%.0f\<close>
  and \<open>%.1f\<close>. A non-negative number is a fraction of integers. Results are rounded to 53 bits, half to
  even; exponents are unbounded, which is exact for the values between \<open>2 ^ (-1022)\<close> and \<open>2 ^ 1024\<close>.
\<close>

subsection \<open>Rounding\<close>

definition round_half_even :: "int \<Rightarrow> int \<Rightarrow> int" where
  "round_half_even n d =
     (let q = n div d; r = n mod d
      in if 2 * r < d then q else if d < 2 * r then q + 1 else if even q then q else q + 1)"

text \<open>How far \<open>n / d\<close> has to be shifted to lie between \<open>2 ^ 52\<close> and \<open>2 ^ 53\<close>.\<close>

function shift_up :: "int \<Rightarrow> int \<Rightarrow> nat" where
  "shift_up n d = (if n \<le> 0 \<or> 4503599627370496 * d \<le> n then 0 else Suc (shift_up (2 * n) d))"
  by pat_completeness auto
termination
  by (relation "measure (\<lambda>(n, d). nat (4503599627370496 * d - n))") auto

function shift_down :: "int \<Rightarrow> int \<Rightarrow> nat" where
  "shift_down n d = (if d \<le> 0 \<or> n < 9007199254740992 * d then 0 else Suc (shift_down n (2 * d)))"
  by pat_completeness auto
termination
  by (relation "measure (\<lambda>(n, d). nat (n - d))") auto

declare shift_up.simps [simp del] shift_down.simps [simp del]

text \<open>The float64 nearest to \<open>n / d\<close>, as a fraction.\<close>

definition float64_quot :: "int \<Rightarrow> int \<Rightarrow> int \<times> int" where
  "float64_quot n d =
     (let u = shift_up n d; v = shift_down n d
      in (round_half_even (n * 2 ^ u) (d * 2 ^ v) * 2 ^ v, 2 ^ u))"

lemma round_half_even_dist:
  assumes "0 < d"
  shows "\<bar>2 * (d * round_half_even n d - n)\<bar> \<le> d"
proof -
  define q r where "q = n div d" and "r = n mod d"
  have n: "n = d * q + r" "0 \<le> r" "r < d" using assms by (simp_all add: q_def r_def)
  have "round_half_even n d = q \<and> 2 * r \<le> d \<or> round_half_even n d = q + 1 \<and> d \<le> 2 * r"
    by (auto simp: round_half_even_def Let_def q_def r_def)
  then consider "round_half_even n d = q" "2 * r \<le> d" | "round_half_even n d = q + 1" "d \<le> 2 * r" by blast
  then show ?thesis using n by cases (simp_all add: algebra_simps)
qed

lemma round_half_even_exact: "0 < d \<Longrightarrow> round_half_even (d * q) d = q"
  by (simp add: round_half_even_def Let_def)

lemma shift_up_bound: "0 < n \<Longrightarrow> 4503599627370496 * d \<le> n * 2 ^ shift_up n d"
proof (induction n d rule: shift_up.induct)
  case (1 n d)
  then show ?case
    by (cases "4503599627370496 * d \<le> n") (simp_all add: shift_up.simps [of n d] mult.assoc mult.left_commute)
qed

lemma shift_down_bound: "0 < d \<Longrightarrow> shift_down n d = 0 \<or> 4503599627370496 * (d * 2 ^ shift_down n d) \<le> n"
proof (induction n d rule: shift_down.induct)
  case (1 n d)
  show ?case
  proof (cases "n < 9007199254740992 * d")
    case False
    then have "shift_down n (2 * d) = 0 \<or> 4503599627370496 * (2 * d * 2 ^ shift_down n (2 * d)) \<le> n"
      using 1 by simp
    with False 1(2) show ?thesis by (auto simp: shift_down.simps [of n d] algebra_simps)
  qed (simp add: shift_down.simps [of n d])
qed

lemma shifted:
  assumes "0 < n" and "0 < d"
  shows "4503599627370496 * (d * 2 ^ shift_down n d) \<le> n * 2 ^ shift_up n d"
proof (cases "shift_down n d = 0")
  case True
  then show ?thesis using shift_up_bound [OF assms(1), of d] by simp
next
  case False
  then have "4503599627370496 * (d * 2 ^ shift_down n d) \<le> n * 1" using shift_down_bound [OF assms(2), of n] by simp
  also have "\<dots> \<le> n * 2 ^ shift_up n d" using assms(1) by (intro mult_left_mono) simp_all
  finally show ?thesis .
qed

text \<open>The relative error of a rounded quotient is at most \<open>2 ^ (-53)\<close>.\<close>

lemma float64_quot_error:
  assumes "0 < n" and "0 < d" and "float64_quot n d = (a, b)"
  shows "9007199254740992 * \<bar>a * d - n * b\<bar> \<le> n * b" and "0 < b"
proof -
  let ?N = "n * 2 ^ shift_up n d" and ?D = "d * 2 ^ shift_down n d"
  have ab: "a * d = ?D * round_half_even ?N ?D" "n * b = ?N" "b = 2 ^ shift_up n d"
    using assms(3) by (auto simp: float64_quot_def Let_def)
  have "\<bar>2 * (?D * round_half_even ?N ?D - ?N)\<bar> \<le> ?D" using assms(2) by (intro round_half_even_dist) simp
  moreover have "4503599627370496 * ?D \<le> ?N" by (rule shifted [OF assms(1,2)])
  ultimately show "9007199254740992 * \<bar>a * d - n * b\<bar> \<le> n * b" unfolding ab(1,2) by linarith
  show "0 < b" by (simp add: ab(3))
qed

subsection \<open>Decimal numbers\<close>

text \<open>\<open>%.1f\<close> and \<open>%.0f\<close> of a non-negative number.\<close>

definition format_tenths :: "int \<Rightarrow> int \<Rightarrow> string" where
  "format_tenths n d = (let t = round_half_even (10 * n) d in Itoa (t div 10) @ ''.'' @ Itoa (t mod 10))"

definition format_units :: "int \<Rightarrow> int \<Rightarrow> string" where
  "format_units n d = Itoa (round_half_even n d)"

text \<open>
  A decimal number without exponent, as its sign, its digits and the number of them after the point.
\<close>

definition decimal_parts :: "string \<Rightarrow> (bool \<times> nat \<times> nat) option" where
  "decimal_parts s0 =
     (let signed = (s0 \<noteq> [] \<and> (hd s0 = CHR ''-'' \<or> hd s0 = CHR ''+'')); s = (if signed then tl s0 else s0);
          ds = takeWhile is_digit s; r = dropWhile is_digit s;
          fs = (if r \<noteq> [] \<and> hd r = CHR ''.'' then tl r else [])
      in if (r = [] \<or> hd r = CHR ''.'') \<and> list_all is_digit fs \<and> ds @ fs \<noteq> []
         then Some (signed \<and> hd s0 = CHR ''-'', digits_val (ds @ fs), length fs) else None)"

text \<open>
  \<open>int(f * 1000)\<close> for the \<open>f\<close> that \<open>ParseFloat\<close> reads. \<open>other\<close> stands for the numbers in another
  notation, and for those whose conversion to \<open>int\<close> is left to the implementation.
\<close>

definition thousandfold :: "(string \<Rightarrow> int option) \<Rightarrow> nat \<Rightarrow> string \<Rightarrow> int option" where
  "thousandfold other w s =
     (case decimal_parts s of
        None \<Rightarrow> other s
      | Some (neg, n, k) \<Rightarrow>
        (let (a, b) = float64_quot (int n) (10 ^ k); (c, e) = float64_quot (a * 1000) b; v = c div e
         in if v < 2 ^ (w - 1) then Some (if neg then - v else v) else other s))"

end
