(* ===== verification/WiFi.thy ===== *)
theory WiFi
  imports Macmap Go_Float
begin

section \<open>The WiFi access point (pkg/wifi)\<close>

text \<open>
  \<open>wifi.go\<close>: validation and defaults, the files generated for hostapd, the events read from its
  output, and the supervision with exponential back-off. \<open>hostapd_ctrl.go\<close>: the control protocol
  that lists the stations. The answers of the operating system and of the hostapd process are
  parameters.
\<close>

subsection \<open>The access point\<close>

text \<open>
  \<open>ap_cmd\<close> is \<open>None\<close> before the first launch; then it tells whether the current command has a process.
  \<open>ap_onClient\<close> and \<open>ap_stopped\<close>: a callback is registered, the channel \<open>stopCh\<close> is closed.
\<close>

record ap =
  ap_cfg :: wifi_config
  ap_bridge :: string
  ap_macMap :: "map_file option"
  ap_cmd :: "bool option"
  ap_onClient :: bool
  ap_clients :: "(string, bool) gomap"
  ap_stopped :: bool

datatype wifi_error =
    WifiNoSSID | WifiNoPassphrase | WifiPassphraseLength | WifiMacMap macmap_error
  | WifiCreateConfig | WifiVLANFile | WifiAcceptFile | WifiCtrlDir | WifiStdoutPipe | WifiStartHostapd

definition wifi_defaults :: "wifi_config \<Rightarrow> wifi_config" where
  "wifi_defaults c =
     c\<lparr>WiFi_Interface := (if WiFi_Interface c = [] then ''wlan0'' else WiFi_Interface c),
       WiFi_HWMode := (if WiFi_HWMode c = [] then ''g'' else WiFi_HWMode c),
       WiFi_Channel := (if WiFi_Channel c = 0 then 6 else WiFi_Channel c),
       WiFi_WPA := (if WiFi_WPA c = 0 then 2 else WiFi_WPA c)\<rparr>"

definition wifi_New ::
  "(bytes \<Rightarrow> string + map_file) \<Rightarrow> fs \<Rightarrow> wifi_config \<Rightarrow> string \<Rightarrow> wifi_error + ap" where
  "wifi_New Unmarshal f cfg bridge =
     (if WiFi_SSID cfg = [] then Inl WifiNoSSID
      else if WiFi_Passphrase cfg = [] then Inl WifiNoPassphrase
      else if length (WiFi_Passphrase cfg) < 8 \<or> length (WiFi_Passphrase cfg) > 63 then Inl WifiPassphraseLength
      else
        (let c = wifi_defaults cfg; mk = (\<lambda>mm. \<lparr>ap_cfg = c, ap_bridge = bridge, ap_macMap = mm, ap_cmd = None, ap_onClient = False,
            ap_clients = [], ap_stopped = False\<rparr>)
         in if WiFi_MacMapFile c = [] then Inr (mk None)
            else (case macmap_Load Unmarshal (WiFi_MacMapFile c) f of
                    Inl e \<Rightarrow> Inl (WifiMacMap e)
                  | Inr mm \<Rightarrow> Inr (mk (Some mm)))))"

subsection \<open>The files of hostapd\<close>

definition confPath :: string where "confPath = ''/tmp/hostapd.conf''"
definition acceptMACPath :: string where "acceptMACPath = ''/tmp/hostapd.accept''"
definition vlanFilePath :: string where "vlanFilePath = ''/tmp/hostapd.vlan''"
definition ctrlPath :: string where "ctrlPath = ''/tmp/hostapd''"

definition vlan_file :: "ap \<Rightarrow> string" where
  "vlan_file a =
     (case ap_macMap a of
        None \<Rightarrow> []
      | Some mm \<Rightarrow> concat (map (\<lambda>vid. if vid = 0 then []
          else Itoa vid @ '' '' @ WiFi_Interface (ap_cfg a) @ ''.'' @ Itoa vid @ [CHR 0x0A]) (macmap_VLANs mm)))"

definition accept_file :: "ap \<Rightarrow> string" where
  "accept_file a = (case ap_macMap a of None \<Rightarrow> [] | Some mm \<Rightarrow> HostapdAcceptMACFile mm)"

text \<open>The template of hostapd.conf, one string per line.\<close>

definition hostapd_conf_lines :: "wifi_config \<Rightarrow> string \<Rightarrow> bool \<Rightarrow> string list" where
  "hostapd_conf_lines c bridge dynamicVLAN =
     [''# Generated by gokrazy-router'', ''interface='' @ WiFi_Interface c] @
     (if bridge \<noteq> [] then [''bridge='' @ bridge] else []) @
     [''driver=nl80211'', ''ctrl_interface='' @ ctrlPath, ''ssid='' @ WiFi_SSID c,
      ''hw_mode='' @ WiFi_HWMode c, ''channel='' @ Itoa (WiFi_Channel c)] @
     (if WiFi_CountryCode c \<noteq> [] then [''country_code='' @ WiFi_CountryCode c, ''ieee80211d=1''] else []) @
     (if WiFi_HTCapab c \<noteq> [] then [''ieee80211n=1'', ''ht_capab='' @ WiFi_HTCapab c] else [''ieee80211n=1'']) @
     [''wmm_enabled=1'', '''', ''# WPA2-PSK'', ''wpa='' @ Itoa (WiFi_WPA c), ''wpa_passphrase='' @ WiFi_Passphrase c,
      ''wpa_key_mgmt=WPA-PSK'', ''rsn_pairwise=CCMP''] @
     (if dynamicVLAN
      then ['''', ''# Dynamic VLAN assignment based on MAC address'', ''dynamic_vlan=1'',
            ''vlan_file='' @ vlanFilePath, ''accept_mac_file='' @ acceptMACPath, ''vlan_bridge=br-vlan'']
      else []) @
     ['''', ''# Logging: enable all module messages to stdout'', ''logger_stdout=-1'', ''logger_stdout_level=2'']"

definition hostapd_conf :: "ap \<Rightarrow> string" where
  "hostapd_conf a = concat (map (\<lambda>l. l @ [CHR 0x0A])
     (hostapd_conf_lines (ap_cfg a) (ap_bridge a) (ap_macMap a \<noteq> None)))"

definition writeVLANFile :: "ap \<Rightarrow> fs \<Rightarrow> wifi_error option \<times> fs" where
  "writeVLANFile a f =
     (let (ok, f') = WriteFile vlanFilePath (bytes_of_string (vlan_file a)) f
      in (if ok then None else Some WifiVLANFile, f'))"

definition writeAcceptMACFile :: "ap \<Rightarrow> fs \<Rightarrow> wifi_error option \<times> fs" where
  "writeAcceptMACFile a f =
     (let (ok, f') = WriteFile acceptMACPath (bytes_of_string (accept_file a)) f
      in (if ok then None else Some WifiAcceptFile, f'))"

definition writeConfig :: "ap \<Rightarrow> fs \<Rightarrow> wifi_error option \<times> fs" where
  "writeConfig a f =
     (let vlan = (if ap_macMap a \<noteq> None then writeVLANFile a f else (None, f)) in
      case vlan of
        (Some e, f1) \<Rightarrow> (Some e, f1)
      | (None, f1) \<Rightarrow>
        (case (if ap_macMap a \<noteq> None then writeAcceptMACFile a f1 else (None, f1)) of
           (Some e, f2) \<Rightarrow> (Some e, f2)
         | (None, f2) \<Rightarrow>
           (let (ok, f3) = WriteFile confPath (bytes_of_string (hostapd_conf a)) f2
            in (if ok then None else Some WifiCreateConfig, f3))))"

subsection \<open>The process\<close>

text \<open>Whether the directory, the pipe and the process can be created.\<close>

record launch_env =
  le_mkdir :: bool
  le_pipe :: bool
  le_start :: bool

definition launch :: "launch_env \<Rightarrow> ap \<Rightarrow> wifi_error option \<times> ap" where
  "launch w a =
     (if \<not> le_mkdir w then (Some WifiCtrlDir, a)
      else if \<not> le_pipe w then (Some WifiStdoutPipe, a\<lparr>ap_cmd := Some False\<rparr>)
      else if \<not> le_start w then (Some WifiStartHostapd, a\<lparr>ap_cmd := Some False\<rparr>)
      else (None, a\<lparr>ap_cmd := Some True\<rparr>))"

definition ap_Start :: "launch_env \<Rightarrow> ap \<Rightarrow> fs \<Rightarrow> wifi_error option \<times> ap \<times> fs" where
  "ap_Start w a f =
     (case writeConfig a f of
        (Some e, f') \<Rightarrow> (Some e, a, f')
      | (None, f') \<Rightarrow> (case launch w a of (e, a') \<Rightarrow> (e, a', f')))"

definition OnClient :: "ap \<Rightarrow> ap" where
  "OnClient a = a\<lparr>ap_onClient := True\<rparr>"

text \<open>\<open>Stop\<close>, and whether it sends a signal to the process.\<close>

definition ap_Stop :: "ap \<Rightarrow> ap \<times> bool" where
  "ap_Stop a = (a\<lparr>ap_stopped := True\<rparr>, ap_cmd a = Some True)"

subsection \<open>Events\<close>

record client_event =
  ev_MAC :: string
  ev_Associated :: bool

text \<open>
  The regular expressions have the form \<open>prefix([0-9a-f:]{17}).*suffix\<close>: the leftmost match decides.
\<close>

definition mac_class :: "char \<Rightarrow> bool" where
  "mac_class c = (let n = code_of c in 48 \<le> n \<and> n \<le> 58 \<or> 97 \<le> n \<and> n \<le> 102)"

fun find_sta :: "string \<Rightarrow> string \<Rightarrow> string \<Rightarrow> string option" where
  "find_sta pre suf [] = None"
| "find_sta pre suf (c # cs) =
     (let m = take 17 (drop (length pre) (c # cs)) in
      if HasPrefix (c # cs) pre \<and> length m = 17 \<and> list_all mac_class m \<and>
         Contains (drop (length pre + 17) (c # cs)) suf
      then Some m else find_sta pre suf cs)"

abbreviation "reConnected \<equiv> find_sta ''AP-STA-CONNECTED '' []"
abbreviation "reDisconnected \<equiv> find_sta ''AP-STA-DISCONNECTED '' []"
abbreviation "reAssociated \<equiv> find_sta ''STA '' ''associated''"
abbreviation "reDisassociated \<equiv> find_sta ''STA '' ''disassociated''"

definition line_events :: "string \<Rightarrow> client_event list" where
  "line_events line =
     (let ev = (\<lambda>m b. \<lparr>ev_MAC = ToLower m, ev_Associated = b\<rparr>) in
      (case reConnected line of
         Some m \<Rightarrow> [ev m True]
       | None \<Rightarrow>
         (case reDisconnected line of
            Some m \<Rightarrow> [ev m False]
          | None \<Rightarrow>
            (case reAssociated line of
               Some m \<Rightarrow> if reDisassociated line = None then [ev m True] else []
             | None \<Rightarrow> []))) @
      (case reDisassociated line of Some m \<Rightarrow> [ev m False] | None \<Rightarrow> []))"

definition handleEvent :: "client_event \<Rightarrow> ap \<Rightarrow> ap" where
  "handleEvent ev a = a\<lparr>ap_clients := gput (ev_MAC ev) (ev_Associated ev) (ap_clients a)\<rparr>"

text \<open>The lines of the output, with the events passed to the callback.\<close>

definition parseOutput :: "string list \<Rightarrow> ap \<Rightarrow> ap \<times> client_event list" where
  "parseOutput ls a =
     (let evs = concat (map line_events ls) in (fold handleEvent evs a, if ap_onClient a then evs else []))"

definition wifi_Clients :: "ap \<Rightarrow> string list" where
  "wifi_Clients a = map fst (filter snd (ap_clients a))"

subsection \<open>Supervision\<close>

definition initialBackoff :: duration where "initialBackoff = 1 * Second"
definition maxBackoff :: duration where "maxBackoff = 30 * Second"
definition stableRunTime :: duration where "stableRunTime = 10 * Second"

text \<open>
  One iteration of \<open>supervise\<close>: how long \<open>Wait\<close> took, whether \<open>Stop\<close> had been called by then, or is
  called during the pause, and whether the launch succeeds (a failed launch makes the next \<open>Wait\<close>
  return at once).
\<close>

record sup_iter =
  sup_ran :: duration
  sup_stopped :: bool
  sup_stopped_waiting :: bool
  sup_launches :: bool

datatype sup_action = ClearClients | Pause duration | Launched bool | Returned

fun supervise :: "duration \<Rightarrow> sup_iter list \<Rightarrow> sup_action list" where
  "supervise backoff [] = []"
| "supervise backoff (it # its) =
     (if sup_stopped it then [Returned]
      else
        (let b = (if stableRunTime \<le> sup_ran it then initialBackoff else backoff) in
         if sup_stopped_waiting it then [ClearClients, Pause b, Returned]
         else
           (let b2 = b * 2; b3 = (if b2 > maxBackoff then maxBackoff else b2)
            in [ClearClients, Pause b, Launched (sup_launches it)] @ supervise b3 its)))"

subsection \<open>The control socket\<close>

record station_info =
  sta_MAC :: string
  sta_Signal :: int
  sta_TxBitrate :: int
  sta_RxBitrate :: int
  sta_Connected :: duration

text \<open>
  \<open>v, _ = strconv.Atoi(s)\<close>: 0 on a syntax error, and the nearest representable number if \<open>s\<close> is out
  of range. Arithmetic on the result wraps around at the width \<open>w\<close> of \<open>int\<close>.
\<close>

definition Atoi_value :: "nat \<Rightarrow> string \<Rightarrow> int" where
  "Atoi_value w s =
     (case Atoi w s of
        Some v \<Rightarrow> v
      | None \<Rightarrow>
        (let signed = (s \<noteq> [] \<and> (hd s = CHR ''-'' \<or> hd s = CHR ''+'')); ds = (if signed then tl s else s)
         in if ds = [] \<or> \<not> list_all is_digit ds then 0
            else if hd s = CHR ''-'' then - (2 ^ (w - 1)) else 2 ^ (w - 1) - 1))"

definition wrap_int :: "nat \<Rightarrow> int \<Rightarrow> int" where
  "wrap_int w i = (i + 2 ^ (w - 1)) mod 2 ^ w - 2 ^ (w - 1)"

text \<open>\<open>other\<close> is \<open>int(f * 1000)\<close> for numbers that are not plain decimals, or too large.\<close>

definition parseBitrate :: "(string \<Rightarrow> int option) \<Rightarrow> nat \<Rightarrow> string \<Rightarrow> int option" where
  "parseBitrate other w s0 =
     (let s = TrimSpace s0;
          plain = (\<lambda>s. case Atoi w s of None \<Rightarrow> 0 | Some v \<Rightarrow> wrap_int w (v * 100))
      in if Contains s ''MBit/s''
         then (case Fields (TrimSuffix s '' MBit/s'') of
                 [] \<Rightarrow> None
               | t # _ \<Rightarrow> (case thousandfold other w t of Some kbps \<Rightarrow> Some kbps | None \<Rightarrow> Some (plain t)))
         else Some (plain s))"

text \<open>One line of a station response; \<open>None\<close> is the panic of \<open>Fields(s)[0]\<close> on an empty slice.\<close>

definition station_line :: "(string \<Rightarrow> int option) \<Rightarrow> nat \<Rightarrow> station_info option \<Rightarrow> string \<Rightarrow> station_info option" where
  "station_line other w so line =
     Option.bind so (\<lambda>si.
       case Cut CHR ''='' line of (key, val, found) \<Rightarrow>
         if \<not> found then Some si
         else if key = ''signal'' then Some (si\<lparr>sta_Signal := Atoi_value w val\<rparr>)
         else if key = ''tx_bitrate'' then map_option (\<lambda>b. si\<lparr>sta_TxBitrate := b\<rparr>) (parseBitrate other w val)
         else if key = ''rx_bitrate'' then map_option (\<lambda>b. si\<lparr>sta_RxBitrate := b\<rparr>) (parseBitrate other w val)
         else if key = ''connected_time''
         then Some (si\<lparr>sta_Connected := wrap_int 64 (Atoi_value w val * Second)\<rparr>)
         else Some si)"

definition parseStationResponse :: "(string \<Rightarrow> int option) \<Rightarrow> nat \<Rightarrow> string \<Rightarrow> station_info option" where
  "parseStationResponse other w resp =
     (case Split CHR 0x0A resp of
        [] \<Rightarrow> None
      | l # ls \<Rightarrow> foldl (station_line other w)
          (Some \<lparr>sta_MAC = TrimSpace l, sta_Signal = 0, sta_TxBitrate = 0, sta_RxBitrate = 0, sta_Connected = 0\<rparr>) ls)"

text \<open>\<open>request\<close>: the answer of the daemon, of which at most 4096 bytes are read.\<close>

definition ctrl_request :: "(string \<Rightarrow> 's \<Rightarrow> (string \<times> 's) option) \<Rightarrow> string \<Rightarrow> 's \<Rightarrow> (string \<times> 's) option" where
  "ctrl_request daemon cmd s = map_option (\<lambda>(r, s'). (take 4096 r, s')) (daemon cmd s)"

text \<open>
  The loop of \<open>Stations\<close>. \<open>None\<close> means that it does not return: the loop does not end, or a
  response makes the parser panic, which is proved impossible.
\<close>

partial_function (option) stations_loop ::
  "(string \<Rightarrow> int option) \<Rightarrow> nat \<Rightarrow> (string \<Rightarrow> 's \<Rightarrow> (string \<times> 's) option) \<Rightarrow> string \<Rightarrow> 's \<Rightarrow>
   station_info list \<Rightarrow> station_info list option" where
  "stations_loop other w daemon resp0 s acc =
     (let resp = TrimSpace resp0 in
      if resp = [] \<or> resp = ''FAIL'' then Some acc
      else
        (case parseStationResponse other w resp of
           None \<Rightarrow> None
         | Some si \<Rightarrow>
           (let acc' = (if sta_MAC si \<noteq> [] then acc @ [si] else acc) in
            case ctrl_request daemon (''STA-NEXT '' @ sta_MAC si) s of
              None \<Rightarrow> Some acc'
            | Some (r, s') \<Rightarrow> stations_loop other w daemon r s' acc')))"

declare stations_loop.simps [code]

datatype ctrl_error = CtrlRequest

definition Stations ::
  "(string \<Rightarrow> int option) \<Rightarrow> nat \<Rightarrow> (string \<Rightarrow> 's \<Rightarrow> (string \<times> 's) option) \<Rightarrow> 's \<Rightarrow>
   (ctrl_error + station_info list) option" where
  "Stations other w daemon s =
     (case ctrl_request daemon ''STA-FIRST'' s of
        None \<Rightarrow> Some (Inl CtrlRequest)
      | Some (r, s') \<Rightarrow> map_option Inr (stations_loop other w daemon r s' []))"

text \<open>
  The client end: a datagram socket with a name of its own in the file system, of which \<open>socks\<close> are
  the socket files. \<open>bound\<close> tells whether a failing \<open>DialUnix\<close> had created the file.
\<close>

record ctrl_env =
  ctl_pid :: int
  ctl_dial :: "string \<Rightarrow> string \<Rightarrow> bool"
  ctl_bound :: bool

definition ctrl_localPath :: "ctrl_env \<Rightarrow> string" where
  "ctrl_localPath w = ''/tmp/hostapd_ctrl_'' @ Itoa (ctl_pid w)"

definition NewCtrlClient :: "ctrl_env \<Rightarrow> string \<Rightarrow> string set \<Rightarrow> bool \<times> string set" where
  "NewCtrlClient w iface socks =
     (let remotePath = ''/tmp/hostapd/'' @ iface; local = ctrl_localPath w; socks1 = socks - {local}
      in if ctl_dial w local remotePath then (True, insert local socks1)
         else (False, (if ctl_bound w then insert local socks1 else socks1) - {local}))"

definition ctrl_Close :: "ctrl_env \<Rightarrow> string set \<Rightarrow> string set" where
  "ctrl_Close w socks = socks - {ctrl_localPath w}"

text \<open>\<open>StationInfoAll\<close>: no socket is no error. \<open>None\<close> if \<open>Stations\<close> does not return.\<close>

definition ap_StationInfoAll ::
  "(string \<Rightarrow> int option) \<Rightarrow> nat \<Rightarrow> ctrl_env \<Rightarrow> (string \<Rightarrow> 's \<Rightarrow> (string \<times> 's) option) \<Rightarrow> ap \<Rightarrow> 's \<Rightarrow> string set \<Rightarrow>
   ((ctrl_error + station_info list) \<times> string set) option" where
  "ap_StationInfoAll other w ce daemon a s socks =
     (case NewCtrlClient ce (WiFi_Interface (ap_cfg a)) socks of
        (False, socks') \<Rightarrow> Some (Inr [], socks')
      | (True, socks') \<Rightarrow> map_option (\<lambda>r. (r, ctrl_Close ce socks')) (Stations other w daemon s))"

end
