(* ===== verification/WiFi_Props.thy ===== *)
theory WiFi_Props
  imports WiFi Macmap_Props
begin

section \<open>Properties of the access point\<close>

text \<open>
  The listing of the stations returns exactly if the daemon ends its list; the files generated for
  hostapd agree with each other; and the pauses between restarts grow as they should.
\<close>

subsection \<open>Parsing a response never panics\<close>

lemma TrimSpace_hd: "TrimSpace s \<noteq> [] \<Longrightarrow> \<not> is_space (hd (TrimSpace s))"
proof -
  assume "TrimSpace s \<noteq> []"
  moreover have "dropWhile is_space (TrimSpace s) = TrimSpace s"
    unfolding TrimSpace_def by (rule dropWhile_rev_trim)
  ultimately show ?thesis
    by (metis dropWhile_eq_Cons_conv list.collapse)
qed

lemma Fields_nonempty: "s \<noteq> [] \<Longrightarrow> \<not> is_space (hd s) \<Longrightarrow> Fields s \<noteq> []"
  by (cases s) (simp_all add: Fields.simps [of "_ # _"])

lemma TrimSuffix_append: "TrimSuffix s p \<noteq> s \<Longrightarrow> s = TrimSuffix s p @ p"
  by (metis HasSuffix_def TrimSuffix_def append_take_drop_id)

lemma parseBitrate_total: "parseBitrate mbit w s \<noteq> None"
proof (cases "Contains (TrimSpace s) ''MBit/s''")
  case True
  let ?t = "TrimSpace s"
  have ne: "?t \<noteq> []" using True by auto
  then have h: "\<not> is_space (hd ?t)" by (rule TrimSpace_hd)
  have "Fields (TrimSuffix ?t '' MBit/s'') \<noteq> []"
  proof (cases "TrimSuffix ?t '' MBit/s'' = ?t")
    case True
    then show ?thesis using Fields_nonempty [OF ne h] by simp
  next
    case False
    then have t: "?t = TrimSuffix ?t '' MBit/s'' @ '' MBit/s''"
      by (rule TrimSuffix_append)
    have "is_space (hd '' MBit/s'')" by code_simp
    then have "TrimSuffix ?t '' MBit/s'' \<noteq> []"
      using h t by (metis append_Nil)
    then show ?thesis
      using h t by (metis Fields_nonempty hd_append2)
  qed
  with True show ?thesis
    by (auto simp: parseBitrate_def Let_def split: list.split option.split)
qed (simp add: parseBitrate_def Let_def)

text \<open>A rate with one decimal can lose a unit: \<open>32.3 * 1000\<close> is just below 32300, and is truncated.\<close>

lemma bitrate_truncated: "parseBitrate other 64 ''32.3 MBit/s'' = Some 32299"
  by code_simp

lemma station_line_total: "station_line mbit w (Some si) l \<noteq> None"
proof -
  obtain key val found where c: "Cut CHR ''='' l = (key, val, found)" by (rule prod_cases3)
  obtain b where b: "parseBitrate mbit w val = Some b"
    using parseBitrate_total [of mbit w val] by blast
  show ?thesis
    unfolding station_line_def c by (simp only: bind.bind_lunit prod.case b option.map split: if_split) simp
qed

lemma station_lines_total: "foldl (station_line mbit w) (Some si) ls \<noteq> None"
proof (induction ls arbitrary: si)
  case (Cons l ls)
  obtain si' where "station_line mbit w (Some si) l = Some si'"
    using station_line_total by blast
  with Cons show ?case by simp
qed simp

lemma parseStationResponse_total: "parseStationResponse mbit w resp \<noteq> None"
  using Split_nonempty [of "CHR 0x0A" resp] station_lines_total
  by (auto simp: parseStationResponse_def split: list.split)

subsection \<open>Listing the stations\<close>

text \<open>
  A dialogue with the daemon that ends: \<open>station_chain resp s sis\<close> lists the stations that are read
  from the response \<open>resp\<close> in state \<open>s\<close> on.
\<close>

inductive station_chain ::
  "(string \<Rightarrow> int option) \<Rightarrow> nat \<Rightarrow> (string \<Rightarrow> 's \<Rightarrow> (string \<times> 's) option) \<Rightarrow> string \<Rightarrow> 's \<Rightarrow>
   station_info list \<Rightarrow> bool" for mbit w daemon where
  chain_end: "TrimSpace r = [] \<or> TrimSpace r = ''FAIL'' \<Longrightarrow> station_chain mbit w daemon r s []"
| chain_error: "TrimSpace r \<noteq> [] \<Longrightarrow> TrimSpace r \<noteq> ''FAIL'' \<Longrightarrow>
    parseStationResponse mbit w (TrimSpace r) = Some si \<Longrightarrow>
    ctrl_request daemon (''STA-NEXT '' @ sta_MAC si) s = None \<Longrightarrow> station_chain mbit w daemon r s [si]"
| chain_next: "TrimSpace r \<noteq> [] \<Longrightarrow> TrimSpace r \<noteq> ''FAIL'' \<Longrightarrow>
    parseStationResponse mbit w (TrimSpace r) = Some si \<Longrightarrow>
    ctrl_request daemon (''STA-NEXT '' @ sta_MAC si) s = Some (r', s') \<Longrightarrow>
    station_chain mbit w daemon r' s' sis \<Longrightarrow> station_chain mbit w daemon r s (si # sis)"

text \<open>The first line of a trimmed response is never blank, so that every station has a name.\<close>

lemma station_line_MAC: "station_line mbit w (Some si) l = Some si' \<Longrightarrow> sta_MAC si' = sta_MAC si"
proof -
  assume a: "station_line mbit w (Some si) l = Some si'"
  obtain key val found where c: "Cut CHR ''='' l = (key, val, found)" by (rule prod_cases3)
  obtain b where b: "parseBitrate mbit w val = Some b"
    using parseBitrate_total [of mbit w val] by blast
  from a show ?thesis
    unfolding station_line_def c by (simp only: bind.bind_lunit prod.case b option.map split: if_splits) auto
qed

lemma station_lines_MAC:
  "foldl (station_line mbit w) (Some si) ls = Some si' \<Longrightarrow> sta_MAC si' = sta_MAC si"
proof (induction ls arbitrary: si)
  case (Cons l ls)
  obtain si1 where s: "station_line mbit w (Some si) l = Some si1"
    using station_line_total by blast
  then show ?case
    using Cons station_line_MAC [OF s] by simp
qed simp

lemma TrimSpace_nonempty: "s \<noteq> [] \<Longrightarrow> \<not> is_space (hd s) \<Longrightarrow> TrimSpace s \<noteq> []"
proof -
  assume "s \<noteq> []" "\<not> is_space (hd s)"
  then obtain c cs where s: "s = c # cs" and c: "\<not> is_space c" by (cases s) auto
  then have "c \<in> set (rev (dropWhile is_space s))" by simp
  with c have "dropWhile is_space (rev (dropWhile is_space s)) \<noteq> []"
    by (metis dropWhile_eq_Nil_conv)
  then show ?thesis by (simp add: TrimSpace_def)
qed

lemma Split_hd: "s = x # xs \<Longrightarrow> x \<noteq> c \<Longrightarrow> hd (Split c s) \<noteq> [] \<and> hd (hd (Split c s)) = x"
  by (cases "Split c xs") auto

lemma station_has_MAC:
  assumes "TrimSpace r \<noteq> []" and "parseStationResponse mbit w (TrimSpace r) = Some si"
  shows "sta_MAC si \<noteq> []"
proof -
  obtain x xs where x: "TrimSpace r = x # xs" using assms(1) by (cases "TrimSpace r") auto
  then have nsp: "\<not> is_space x" using TrimSpace_hd [OF assms(1)] by simp
  moreover have "is_space CHR 0x0A" by code_simp
  ultimately have "x \<noteq> CHR 0x0A" by metis
  then have "hd (Split CHR 0x0A (TrimSpace r)) \<noteq> []" "hd (hd (Split CHR 0x0A (TrimSpace r))) = x"
    using Split_hd [OF x] by auto
  then have "TrimSpace (hd (Split CHR 0x0A (TrimSpace r))) \<noteq> []"
    using nsp by (intro TrimSpace_nonempty) auto
  then show ?thesis
    using assms(2) by (auto simp: parseStationResponse_def dest: station_lines_MAC split: list.splits)
qed

lemma loop_chain:
  "station_chain mbit w daemon r s sis \<Longrightarrow> stations_loop mbit w daemon r s acc = Some (acc @ sis)"
proof (induction arbitrary: acc rule: station_chain.induct)
  case (chain_end r s)
  then show ?case by (subst stations_loop.simps) (simp add: Let_def)
next
  case (chain_error r si s)
  then show ?case
    using station_has_MAC by (subst stations_loop.simps) (simp add: Let_def)
next
  case (chain_next r si s r' s' sis)
  then show ?case
    using station_has_MAC by (subst stations_loop.simps) (simp add: Let_def)
qed

lemma chain_loop:
  "stations_loop mbit w daemon r s acc = Some res \<Longrightarrow>
   \<exists>sis. res = acc @ sis \<and> station_chain mbit w daemon r s sis"
proof (induction rule: stations_loop.raw_induct [rotated, consumes 1, case_names step])
  case (step loop mbit w daemon r s acc res)
  note 2 = step
  show ?case
  proof (cases "TrimSpace r = [] \<or> TrimSpace r = ''FAIL''")
    case True
    with 2 show ?thesis by (auto intro: chain_end)
  next
    case False
    with 2(2) obtain si where si: "parseStationResponse mbit w (TrimSpace r) = Some si"
      by (auto simp: Let_def split: option.splits)
    then have mac: "sta_MAC si \<noteq> []" using station_has_MAC False by blast
    show ?thesis
    proof (cases "ctrl_request daemon (''STA-NEXT '' @ sta_MAC si) s")
      case None
      with 2(2) False si mac have "res = acc @ [si]" by (auto simp: Let_def)
      then show ?thesis
        using chain_error [OF _ _ si None] False by blast
    next
      case (Some x)
      obtain r' s' where x: "x = (r', s')" by (cases x)
      with 2(2) False si mac Some have "loop mbit w daemon r' s' (acc @ [si]) = Some res"
        by (auto simp: Let_def)
      then obtain sis where "res = acc @ si # sis" "station_chain mbit w daemon r' s' sis"
        using 2(1) by fastforce
      then show ?thesis
        using False si Some x by (auto intro: chain_next)
    qed
  qed
qed


definition demo_daemon :: "string \<Rightarrow> unit \<Rightarrow> (string \<times> unit) option" where
  "demo_daemon cmd s =
     Some ((if cmd = ''STA-FIRST'' then ''aa:bb'' @ [CHR 0x0A] @ ''signal=-42''
            else if cmd = ''STA-NEXT aa:bb'' then ''cc:dd'' @ [CHR 0x0A] @ ''tx_bitrate=720'' else ''FAIL''), ())"

abbreviation demo_reply1 :: string where "demo_reply1 \<equiv> ''aa:bb'' @ [CHR 0x0A] @ ''signal=-42''"
abbreviation demo_reply2 :: string where "demo_reply2 \<equiv> ''cc:dd'' @ [CHR 0x0A] @ ''tx_bitrate=720''"

definition demo_station :: "string \<Rightarrow> int \<Rightarrow> int \<Rightarrow> station_info" where
  "demo_station mac signal tx = \<lparr>sta_MAC = mac, sta_Signal = signal, sta_TxBitrate = tx, sta_RxBitrate = 0, sta_Connected = 0\<rparr>"

lemma demo_chain:
  "station_chain (\<lambda>_. None) 32 demo_daemon demo_reply1 ()
     [demo_station ''aa:bb'' (-42) 0, demo_station ''cc:dd'' 0 72000]"
proof (rule chain_next)
  show "TrimSpace demo_reply1 \<noteq> []" "TrimSpace demo_reply1 \<noteq> ''FAIL''" by code_simp+
  show "parseStationResponse (\<lambda>_. None) 32 (TrimSpace demo_reply1) = Some (demo_station ''aa:bb'' (-42) 0)"
    by code_simp
  show "ctrl_request demo_daemon (''STA-NEXT '' @ sta_MAC (demo_station ''aa:bb'' (-42) 0)) () = Some (demo_reply2, ())"
    by (simp add: ctrl_request_def demo_daemon_def demo_station_def)
  show "station_chain (\<lambda>_. None) 32 demo_daemon demo_reply2 () [demo_station ''cc:dd'' 0 72000]"
  proof (rule chain_next)
    show "TrimSpace demo_reply2 \<noteq> []" "TrimSpace demo_reply2 \<noteq> ''FAIL''" by code_simp+
    show "parseStationResponse (\<lambda>_. None) 32 (TrimSpace demo_reply2) = Some (demo_station ''cc:dd'' 0 72000)"
      by code_simp
    show "ctrl_request demo_daemon (''STA-NEXT '' @ sta_MAC (demo_station ''cc:dd'' 0 72000)) () = Some (''FAIL'', ())"
      by (simp add: ctrl_request_def demo_daemon_def demo_station_def)
    show "station_chain (\<lambda>_. None) 32 demo_daemon ''FAIL'' () []"
      by (rule chain_end) code_simp
  qed
qed


subsection \<open>The files of hostapd\<close>

text \<open>The lines of a \<open>vlan_file\<close>: an id and the name of an interface.\<close>

definition vlan_entries :: "string \<Rightarrow> (int option \<times> string) list" where
  "vlan_entries s = map (\<lambda>l. case Cut CHR '' '' l of (v, i, _) \<Rightarrow> (Atoi 32 v, i)) (butlast (Split CHR 0x0A s))"

lemma vlan_file_lines:
  assumes "ap_macMap a = Some mm"
  shows "vlan_file a = concat (map (\<lambda>l. l @ [CHR 0x0A])
    (map (\<lambda>v. Itoa v @ '' '' @ WiFi_Interface (ap_cfg a) @ ''.'' @ Itoa v) (filter (\<lambda>v. v \<noteq> 0) (macmap_VLANs mm))))"
proof -
  have "concat (map (\<lambda>vid. if vid = 0 then [] else Itoa vid @ '' '' @ i @ ''.'' @ Itoa vid @ [CHR 0x0A]) vs) =
    concat (map (\<lambda>l. l @ [CHR 0x0A]) (map (\<lambda>v. Itoa v @ '' '' @ i @ ''.'' @ Itoa v) (filter (\<lambda>v. v \<noteq> 0) vs)))"
    for vs and i :: string
    by (induction vs) auto
  with assms show ?thesis by (simp add: vlan_file_def)
qed

lemma map_wf_vlans: "map_wf mm \<Longrightarrow> v \<in> set (macmap_VLANs mm) \<Longrightarrow> 0 \<le> v \<and> v \<le> 4094"
proof -
  assume wf: "map_wf mm" and "v \<in> set (macmap_VLANs mm)"
  then have "v \<in> used_vlans mm"
    by (simp only: macmap_VLANs_set set_sorted_list_of_set finite_used_vlans)
  with wf show ?thesis by (auto simp: used_vlans_def map_wf_def client_wf_def)
qed

lemma vlan_file_entries:
  assumes "ap_macMap a = Some mm" and "map_wf mm" and "CHR 0x0A \<notin> set (WiFi_Interface (ap_cfg a))"
  shows "vlan_entries (vlan_file a) =
    map (\<lambda>v. (Some v, WiFi_Interface (ap_cfg a) @ ''.'' @ Itoa v)) (filter (\<lambda>v. v \<noteq> 0) (macmap_VLANs mm))"
proof -
  let ?vs = "filter (\<lambda>v. v \<noteq> 0) (macmap_VLANs mm)"
  let ?line = "\<lambda>v. Itoa v @ '' '' @ WiFi_Interface (ap_cfg a) @ ''.'' @ Itoa v"
  have "\<forall>l \<in> set (map ?line ?vs). CHR 0x0A \<notin> set l"
    using assms(3) by (auto simp: not_in_Itoa)
  then have "butlast (Split CHR 0x0A (vlan_file a)) = map ?line ?vs"
    unfolding vlan_file_lines [OF assms(1)] by (subst Split_lines) simp_all
  moreover have "Atoi 32 (Itoa v) = Some v" if "v \<in> set ?vs" for v
    using map_wf_vlans [OF assms(2), of v] that by (intro Atoi_Itoa) auto
  moreover have "Cut CHR '' '' (?line v) = (Itoa v, WiFi_Interface (ap_cfg a) @ ''.'' @ Itoa v, True)" for v
    using Cut_append [of "CHR '' ''" "Itoa v"] by (simp add: not_in_Itoa)
  ultimately show ?thesis
    by (simp add: vlan_entries_def)
qed

lemma wifi_New_map:
  assumes "wifi_New Unmarshal f cfg br = Inr a" and "ap_macMap a = Some mm"
  shows "map_wf mm \<and> WiFi_Interface (ap_cfg a) = (if WiFi_Interface cfg = [] then ''wlan0'' else WiFi_Interface cfg)"
  using assms Parse_wf
  by (auto simp: wifi_New_def wifi_defaults_def macmap_Load_def Let_def
      split: if_splits sum.splits open_result.splits)

lemma writeConfig_files:
  assumes "writeConfig a f = (None, f')" and "ap_macMap a = Some mm"
  shows "fs_open f' vlanFilePath = FileData (bytes_of_string (vlan_file a)) \<and>
    fs_open f' acceptMACPath = FileData (bytes_of_string (HostapdAcceptMACFile mm)) \<and>
    fs_open f' confPath = FileData (bytes_of_string (hostapd_conf a))"
  using assms
  by (auto simp: writeConfig_def writeVLANFile_def writeAcceptMACFile_def WriteFile_def Let_def accept_file_def
      vlanFilePath_def acceptMACPath_def confPath_def split: if_splits)

lemma filter_sorted_set:
  "finite (A :: int set) \<Longrightarrow> filter P (sorted_list_of_set A) = sorted_list_of_set {x \<in> A. P x}"
  by (intro sorted_distinct_set_unique) (simp_all add: sorted_wrt_filter)


definition demo_wifi :: wifi_config where
  "demo_wifi = \<lparr>WiFi_Enabled = True, WiFi_Interface = [], WiFi_Bridge = [], WiFi_Address = [], WiFi_DHCP = zero_dhcp,
     WiFi_MacMapFile = ''map.toml'', WiFi_DefaultVLAN = 30, WiFi_SSID = ''home'', WiFi_Passphrase = ''password1'',
     WiFi_Channel = 0, WiFi_HWMode = [], WiFi_HTCapab = [], WiFi_CountryCode = ''DE'', WiFi_WPA = 0\<rparr>"

definition demo_ap :: ap where
  "demo_ap = \<lparr>ap_cfg = wifi_defaults demo_wifi, ap_bridge = [], ap_macMap = Some demo_parsed,
     ap_cmd = None, ap_onClient = False, ap_clients = [], ap_stopped = False\<rparr>"

definition demo_tmp :: fs where
  "demo_tmp = \<lparr>fs_open = (\<lambda>_. FileData []), fs_writable = (\<lambda>_. True)\<rparr>"


subsection \<open>Restarts\<close>

definition unstable :: "sup_iter \<Rightarrow> bool" where
  "unstable it \<longleftrightarrow> sup_ran it < stableRunTime"

text \<open>The pause after \<open>k\<close> doublings.\<close>

definition backoff_after :: "nat \<Rightarrow> duration" where
  "backoff_after k = min maxBackoff (2 ^ k * Second)"

lemma backoff_after_0: "backoff_after 0 = initialBackoff"
  by (simp add: backoff_after_def initialBackoff_def maxBackoff_def)

lemma backoff_after_Suc:
  "(if backoff_after k * 2 > maxBackoff then maxBackoff else backoff_after k * 2) = backoff_after (Suc k)"
  by (auto simp: backoff_after_def maxBackoff_def min_def)

text \<open>The doublings before the pause of iteration \<open>i\<close>, if \<open>k\<close> were done before the first.\<close>

definition doublings :: "nat \<Rightarrow> sup_iter list \<Rightarrow> nat \<Rightarrow> nat" where
  "doublings k its i =
     (if \<forall>it \<in> set (take (Suc i) its). unstable it then k + i
      else length (takeWhile unstable (rev (take (Suc i) its))))"

lemma doublings_0: "doublings k (it # its) 0 = (if unstable it then k else 0)"
  by (simp add: doublings_def)

lemma doublings_Suc:
  assumes "i < length its"
  shows "doublings k (it # its) (Suc i) = doublings (Suc (if unstable it then k else 0)) its i"
proof (cases "\<forall>x \<in> set (take (Suc i) its). unstable x")
  case True
  then have "takeWhile unstable (rev (take (Suc i) its) @ [it]) =
      rev (take (Suc i) its) @ (if unstable it then [it] else [])"
    using takeWhile_append2 [of "rev (take (Suc i) its)" unstable "[it]"]
    by (cases "unstable it") (simp_all add: takeWhile_append)
  with True assms show ?thesis
    by (simp add: doublings_def)
next
  case False
  then obtain x where "x \<in> set (rev (take (Suc i) its))" "\<not> unstable x" by auto
  then have "takeWhile unstable (rev (take (Suc i) its) @ [it]) = takeWhile unstable (rev (take (Suc i) its))"
    by (rule takeWhile_append1)
  moreover have "\<not> (\<forall>x \<in> set (take (Suc (Suc i)) (it # its)). unstable x)"
    using False by (simp only: take_Suc_Cons list.set) blast
  ultimately show ?thesis
    using False unfolding doublings_def by (simp only: if_False take_Suc_Cons rev.simps)
qed

lemma supervise_step:
  assumes "\<not> sup_stopped it" and "\<not> sup_stopped_waiting it"
  shows "supervise (backoff_after k) (it # its) =
    [ClearClients, Pause (backoff_after (if unstable it then k else 0)), Launched (sup_launches it)] @
    supervise (backoff_after (Suc (if unstable it then k else 0))) its"
proof -
  have "(if stableRunTime \<le> sup_ran it then initialBackoff else backoff_after k) =
      backoff_after (if unstable it then k else 0)"
    by (simp add: unstable_def backoff_after_0)
  then show ?thesis
    using assms backoff_after_Suc by (simp add: Let_def)
qed

lemma supervise_actions:
  assumes "\<forall>it \<in> set its. \<not> sup_stopped it \<and> \<not> sup_stopped_waiting it"
  shows "supervise (backoff_after k) its = concat (map (\<lambda>i.
    [ClearClients, Pause (backoff_after (doublings k its i)), Launched (sup_launches (its ! i))]) [0..<length its])"
  using assms
proof (induction its arbitrary: k)
  case (Cons it its)
  let ?k = "Suc (if unstable it then k else 0)"
  let ?act = "\<lambda>k its i. [ClearClients, Pause (backoff_after (doublings k its i)), Launched (sup_launches (its ! i))]"
  have "map (?act k (it # its)) [0..<length (it # its)] =
      ?act k (it # its) 0 # map (\<lambda>i. ?act k (it # its) (Suc i)) [0..<length its]"
    by (simp only: list.size upt_conv_Cons map_Suc_upt [symmetric] list.map map_map comp_def zero_less_Suc add_0_right add_Suc_right One_nat_def)
  also have "map (\<lambda>i. ?act k (it # its) (Suc i)) [0..<length its] = map (?act ?k its) [0..<length its]"
    by (rule map_cong) (simp_all add: doublings_Suc)
  finally have "concat (map (?act k (it # its)) [0..<length (it # its)]) =
      ?act k (it # its) 0 @ concat (map (?act ?k its) [0..<length its])"
    by simp
  also have "concat (map (?act ?k its) [0..<length its]) = supervise (backoff_after ?k) its"
    using Cons by simp
  finally show ?case
    using supervise_step [of it k its] Cons.prems by (simp add: doublings_0)
qed simp



end
