(* ===== verification/Status.thy ===== *)
theory Status
  imports Config
begin

section \<open>The status monitor (pkg/status)\<close>

text \<open>
  The traffic accounting of \<open>pkg/status/status.go\<close>: the counter rules in the kernel, the clients with
  the totals of their past sessions, the rate sampler, and the status that is reported. The kernel
  answers whether the rules of a chain can be read and whether a batch is accepted; link attributes
  and sysfs files are looked up in an environment. Times are instants (their formatting is left
  out), and a rate is the pair of a byte count and a duration (the division is in floating point).
\<close>

type_synonym u64 = "64 word"

datatype stat_chain = ChainRx | ChainTx

text \<open>A counter rule: what it matches (the source in one chain, the destination in the other), its tag and its counter.\<close>

record stat_rule =
  sr_chain :: stat_chain
  sr_ip :: ip
  sr_tag :: string
  sr_bytes :: u64
  sr_pkts :: u64

record client_entry =
  ce_MAC :: string
  ce_IP :: ip
  ce_Via :: string
  ce_Connected :: bool
  ce_FirstSeen :: instant
  ce_LastSeen :: instant
  ce_HistTxBytes :: u64
  ce_HistRxBytes :: u64
  ce_HistTxPkts :: u64
  ce_HistRxPkts :: u64

record counter_snapshot =
  cs_RxBytes :: u64
  cs_TxBytes :: u64
  cs_Time :: instant

record client_rate =
  cr_RxRate :: "u64 \<times> duration"
  cr_TxRate :: "u64 \<times> duration"

record wifi_station_info =
  wsi_LinkTxRate :: int
  wsi_LinkRxRate :: int
  wsi_Signal :: int

record wifi_station =
  ws_MAC :: string
  ws_Signal :: int
  ws_TxBitrate :: int
  ws_RxBitrate :: int

text \<open>\<open>mon_rules\<close> is what the kernel holds in the table \<open>gokrazy_stats\<close>.\<close>

record monitor =
  mon_rules :: "stat_rule list"
  mon_clients :: "(string, client_entry) gomap"
  mon_gatewayIPs :: "string list"
  mon_wanIface :: string
  mon_lanIface :: string
  mon_lanPorts :: "string list"
  mon_wifiIface :: string
  mon_prevSnapshot :: "(string, counter_snapshot) gomap"
  mon_rates :: "(string, client_rate) gomap"
  mon_wifiSource :: bool
  mon_wifiStations :: "(string, wifi_station_info) gomap"
  mon_stopped :: bool

record kernel =
  kern_get :: "stat_chain \<Rightarrow> bool"
  kern_flush :: bool

datatype status_error = StatusTable | StatusAddRules string | StatusFlush string

definition chain_suffix :: "stat_chain \<Rightarrow> string" where
  "chain_suffix c = (case c of ChainRx \<Rightarrow> ''/rx'' | ChainTx \<Rightarrow> ''/tx'')"

text \<open>\<open>New\<close>: the router's own addresses are those of its three interfaces, where they exist.\<close>

definition gateway_addrs :: "(string \<Rightarrow> ip list option) \<Rightarrow> string list \<Rightarrow> string list" where
  "gateway_addrs addrs ifs =
     concat (map (\<lambda>i. case addrs i of None \<Rightarrow> [] | Some as \<Rightarrow> map IPv4_String as) ifs)"

definition monitor_New ::
  "kernel \<Rightarrow> (string \<Rightarrow> ip list option) \<Rightarrow> string \<Rightarrow> string \<Rightarrow> string list \<Rightarrow> string \<Rightarrow> status_error + monitor" where
  "monitor_New k addrs wan lan ports wifi =
     (if \<not> kern_flush k then Inl StatusTable
      else Inr \<lparr>mon_rules = [], mon_clients = [], mon_gatewayIPs = gateway_addrs addrs [lan, wifi, wan],
        mon_wanIface = wan, mon_lanIface = lan, mon_lanPorts = ports, mon_wifiIface = wifi,
        mon_prevSnapshot = [], mon_rates = [], mon_wifiSource = False, mon_wifiStations = [], mon_stopped = False\<rparr>)"

subsection \<open>Clients\<close>

definition counter_rules :: "ip \<Rightarrow> stat_rule list" where
  "counter_rules ip4 =
     map (\<lambda>c. \<lparr>sr_chain = c, sr_ip = ip4, sr_tag = IPv4_String ip4 @ chain_suffix c, sr_bytes = 0, sr_pkts = 0\<rparr>)
       [ChainRx, ChainTx]"

definition connect_entry :: "ip \<Rightarrow> string \<Rightarrow> string \<Rightarrow> instant \<Rightarrow> client_entry option \<Rightarrow> client_entry" where
  "connect_entry ip4 mac via now old =
     (case old of
        Some e \<Rightarrow> e\<lparr>ce_Connected := True, ce_LastSeen := now, ce_MAC := mac, ce_Via := via\<rparr>
      | None \<Rightarrow> \<lparr>ce_MAC = mac, ce_IP = ip4, ce_Via = via, ce_Connected = True, ce_FirstSeen = now, ce_LastSeen = now,
          ce_HistTxBytes = 0, ce_HistRxBytes = 0, ce_HistTxPkts = 0, ce_HistRxPkts = 0\<rparr>)"

definition AddClient ::
  "kernel \<Rightarrow> instant \<Rightarrow> ip \<Rightarrow> string \<Rightarrow> string \<Rightarrow> monitor \<Rightarrow> status_error option \<times> monitor" where
  "AddClient k now ip mac via0 m =
     (let ip4 = To4 ip; ipStr = IPv4_String ip4;
          via = (if ipStr \<in> set (mon_gatewayIPs m) then ''G'' else via0);
          old = glookup (mon_clients m) ipStr
      in if (case old of Some e \<Rightarrow> ce_Connected e | None \<Rightarrow> False) then (None, m)
         else
           (let m1 = m\<lparr>mon_clients := gput ipStr (connect_entry ip4 mac via now old) (mon_clients m)\<rparr>
            in if \<not> kern_flush k then (Some (StatusAddRules ipStr), m1)
               else (None, m1\<lparr>mon_rules := mon_rules m1 @ counter_rules ip4\<rparr>)))"

text \<open>
  \<open>readAndDeleteRules\<close>: the sum of the counters with the tag, and the rules whose deletion is queued
  until the next flush.
\<close>

definition matching :: "stat_chain \<Rightarrow> string \<Rightarrow> stat_rule \<Rightarrow> bool" where
  "matching c tag r = (sr_chain r = c \<and> sr_tag r = tag)"

definition readRules :: "kernel \<Rightarrow> stat_chain \<Rightarrow> string \<Rightarrow> monitor \<Rightarrow> u64 \<times> u64" where
  "readRules k c tag m =
     (if \<not> kern_get k c then (0, 0)
      else foldl (\<lambda>(b, p) r. if matching c tag r then (b + sr_bytes r, p + sr_pkts r) else (b, p)) (0, 0) (mon_rules m))"

definition queued :: "kernel \<Rightarrow> stat_chain \<Rightarrow> string \<Rightarrow> stat_rule \<Rightarrow> bool" where
  "queued k c tag r = (kern_get k c \<and> matching c tag r)"

definition RemoveClient :: "kernel \<Rightarrow> instant \<Rightarrow> ip \<Rightarrow> monitor \<Rightarrow> status_error option \<times> monitor" where
  "RemoveClient k now ip m =
     (let ipStr = IPv4_String (To4 ip) in
      case glookup (mon_clients m) ipStr of
        None \<Rightarrow> (None, m)
      | Some e \<Rightarrow>
        if \<not> ce_Connected e then (None, m)
        else
          (let (rxBytes, rxPkts) = readRules k ChainRx (ipStr @ ''/rx'') m;
               (txBytes, txPkts) = readRules k ChainTx (ipStr @ ''/tx'') m;
               e' = e\<lparr>ce_HistRxBytes := ce_HistRxBytes e + rxBytes, ce_HistRxPkts := ce_HistRxPkts e + rxPkts,
                      ce_HistTxBytes := ce_HistTxBytes e + txBytes, ce_HistTxPkts := ce_HistTxPkts e + txPkts,
                      ce_Connected := False, ce_LastSeen := now\<rparr>;
               m1 = m\<lparr>mon_clients := gput ipStr e' (mon_clients m)\<rparr>
           in if \<not> kern_flush k then (Some (StatusFlush ipStr), m1)
              else (None, m1\<lparr>mon_rules := filter (\<lambda>r. \<not> queued k ChainRx (ipStr @ ''/rx'') r \<and>
                       \<not> queued k ChainTx (ipStr @ ''/tx'') r) (mon_rules m1)\<rparr>)))"

definition RemoveClientByMAC :: "kernel \<Rightarrow> instant \<Rightarrow> string \<Rightarrow> monitor \<Rightarrow> status_error option \<times> monitor" where
  "RemoveClientByMAC k now mac m =
     (case find (\<lambda>(_, e). ce_MAC e = mac \<and> ce_Connected e) (mon_clients m) of
        None \<Rightarrow> (None, m)
      | Some (_, e) \<Rightarrow> if ce_IP e = [] then (None, m) else RemoveClient k now (ce_IP e) m)"

subsection \<open>Sampling\<close>

definition extractIP :: "string \<Rightarrow> string \<Rightarrow> string" where
  "extractIP s suffix =
     (if length s \<le> length suffix then []
      else if drop (length s - length suffix) s \<noteq> suffix then []
      else take (length s - length suffix) s)"

text \<open>The rules of a chain as \<open>GetRules\<close> returns them; an error is ignored by the callers below.\<close>

definition GetRules :: "kernel \<Rightarrow> stat_chain \<Rightarrow> monitor \<Rightarrow> stat_rule list" where
  "GetRules k c m = (if kern_get k c then filter (\<lambda>r. sr_chain r = c) (mon_rules m) else [])"

definition sample_rule ::
  "instant \<Rightarrow> stat_chain \<Rightarrow> stat_rule \<Rightarrow> (string, counter_snapshot) gomap \<Rightarrow> (string, counter_snapshot) gomap" where
  "sample_rule now c r current =
     (let ip = extractIP (sr_tag r) (chain_suffix c) in
      if ip = [] then current
      else
        (let snap = (case glookup current ip of Some s \<Rightarrow> s | None \<Rightarrow> \<lparr>cs_RxBytes = 0, cs_TxBytes = 0, cs_Time = 0\<rparr>);
             snap' = (case c of ChainRx \<Rightarrow> snap\<lparr>cs_RxBytes := sr_bytes r\<rparr> | ChainTx \<Rightarrow> snap\<lparr>cs_TxBytes := sr_bytes r\<rparr>)
         in gput ip (snap'\<lparr>cs_Time := now\<rparr>) current))"

definition snapshot :: "kernel \<Rightarrow> instant \<Rightarrow> monitor \<Rightarrow> (string, counter_snapshot) gomap" where
  "snapshot k now m =
     fold (sample_rule now ChainTx) (GetRules k ChainTx m) (fold (sample_rule now ChainRx) (GetRules k ChainRx m) [])"

definition rate_of :: "counter_snapshot \<Rightarrow> counter_snapshot \<Rightarrow> client_rate option" where
  "rate_of prev cur =
     (let dt = cs_Time cur - cs_Time prev in
      if dt \<le> 0 then None
      else
        (let rxDelta = (if cs_RxBytes prev \<le> cs_RxBytes cur then cs_RxBytes cur - cs_RxBytes prev else 0);
             txDelta = (if cs_TxBytes prev \<le> cs_TxBytes cur then cs_TxBytes cur - cs_TxBytes prev else 0)
         in Some \<lparr>cr_RxRate = (rxDelta, dt), cr_TxRate = (txDelta, dt)\<rparr>))"

definition mon_sample :: "kernel \<Rightarrow> instant \<Rightarrow> monitor \<Rightarrow> monitor" where
  "mon_sample k now m =
     (let current = snapshot k now m;
          rates = fold (\<lambda>(ip, cur) rs.
            case glookup (mon_prevSnapshot m) ip of
              None \<Rightarrow> rs
            | Some prev \<Rightarrow> (case rate_of prev cur of None \<Rightarrow> rs | Some r \<Rightarrow> gput ip r rs)) current []
      in m\<lparr>mon_prevSnapshot := current, mon_rates := rates\<rparr>)"

text \<open>\<open>source\<close> is the result of \<open>StationInfoAll\<close>: \<open>None\<close> for an error or a nil slice.\<close>

definition pollWiFiStations :: "wifi_station list option \<Rightarrow> monitor \<Rightarrow> monitor" where
  "pollWiFiStations source m =
     (case (if mon_wifiSource m then source else None) of
        None \<Rightarrow> m
      | Some stations \<Rightarrow>
        m\<lparr>mon_wifiStations := fold (\<lambda>s info. gput (ws_MAC s)
          \<lparr>wsi_LinkTxRate = ws_TxBitrate s, wsi_LinkRxRate = ws_RxBitrate s, wsi_Signal = ws_Signal s\<rparr> info)
          stations []\<rparr>)"

definition SetWiFiSource :: "monitor \<Rightarrow> monitor" where
  "SetWiFiSource m = m\<lparr>mon_wifiSource := True\<rparr>"

text \<open>
  \<open>sampleLoop\<close> on what its \<open>select\<close> sees: a tick, with what the source of station information answers
  (\<open>None\<close> if it does not return), or the closed channel. The result tells whether the loop has ended.
\<close>

datatype sampler_event = SampleTick instant "wifi_station list option option" | SampleStop

fun sampleLoop :: "kernel \<Rightarrow> sampler_event list \<Rightarrow> monitor \<Rightarrow> monitor \<times> bool" where
  "sampleLoop k [] m = (m, False)"
| "sampleLoop k (SampleStop # evs) m = (m, True)"
| "sampleLoop k (SampleTick now answer # evs) m =
     (let m1 = mon_sample k now m in
      if \<not> mon_wifiSource m1 then sampleLoop k evs m1
      else (case answer of
              None \<Rightarrow> (m1, False)
            | Some source \<Rightarrow> sampleLoop k evs (pollWiFiStations source m1)))"

definition mon_Stop :: "monitor \<Rightarrow> monitor" where
  "mon_Stop m = m\<lparr>mon_stopped := True\<rparr>"

subsection \<open>Ports\<close>

record link_stats =
  ls_TxBytes :: u64
  ls_RxBytes :: u64
  ls_TxPkts :: u64
  ls_RxPkts :: u64

record link_attrs =
  la_HardwareAddr :: bytes
  la_FlagUp :: bool
  la_OperUp :: bool
  la_Statistics :: "link_stats option"

text \<open>Links by name, sysfs files by path, and the width of \<open>int\<close>.\<close>

record net_env =
  ne_links :: "string \<Rightarrow> link_attrs option"
  ne_sysfs :: "string \<Rightarrow> string option"
  ne_int :: nat

record port_counters =
  PC_TxBytes :: u64
  PC_RxBytes :: u64
  PC_TxPkts :: u64
  PC_RxPkts :: u64

datatype port_info = PortInfo
  (PI_Name: string) (PI_MAC: string) (PI_Up: bool) (PI_Carrier: bool) (PI_Speed: int) (PI_Duplex: string)
  (PI_Counters: port_counters) (PI_Sub: "port_info list")

definition readSysfsInt :: "net_env \<Rightarrow> string \<Rightarrow> int" where
  "readSysfsInt e path =
     (case ne_sysfs e path of
        None \<Rightarrow> 0
      | Some d \<Rightarrow> (case Atoi (ne_int e) (TrimSpace d) of None \<Rightarrow> 0 | Some v \<Rightarrow> if v < 0 then 0 else v))"

definition readSysfsString :: "net_env \<Rightarrow> string \<Rightarrow> string" where
  "readSysfsString e path =
     (case ne_sysfs e path of
        None \<Rightarrow> []
      | Some d \<Rightarrow> (let s = TrimSpace d in if s = ''unknown'' then [] else s))"

definition getPortInfo :: "net_env \<Rightarrow> string \<Rightarrow> port_info" where
  "getPortInfo e name =
     (let zero = \<lparr>PC_TxBytes = 0, PC_RxBytes = 0, PC_TxPkts = 0, PC_RxPkts = 0\<rparr> in
      case ne_links e name of
        None \<Rightarrow> PortInfo name [] False False 0 [] zero []
      | Some a \<Rightarrow>
        PortInfo name (if 0 < length (la_HardwareAddr a) then HardwareAddr_String (la_HardwareAddr a) else [])
          (la_FlagUp a) (la_OperUp a)
          (readSysfsInt e (''/sys/class/net/'' @ name @ ''/speed''))
          (readSysfsString e (''/sys/class/net/'' @ name @ ''/duplex''))
          (case la_Statistics a of
             None \<Rightarrow> zero
           | Some s \<Rightarrow> \<lparr>PC_TxBytes = ls_TxBytes s, PC_RxBytes = ls_RxBytes s, PC_TxPkts = ls_TxPkts s, PC_RxPkts = ls_RxPkts s\<rparr>)
          [])"

definition rename_port :: "string \<Rightarrow> port_info list \<Rightarrow> port_info \<Rightarrow> port_info" where
  "rename_port name sub p = PortInfo name (PI_MAC p) (PI_Up p) (PI_Carrier p) (PI_Speed p) (PI_Duplex p) (PI_Counters p) sub"

subsection \<open>The report\<close>

record client_info =
  CI_IP :: string
  CI_MAC :: string
  CI_Via :: string
  CI_Connected :: bool
  CI_TxBytes :: u64
  CI_RxBytes :: u64
  CI_TxPkts :: u64
  CI_RxPkts :: u64
  CI_Rates :: "client_rate option"
  CI_LinkTxRate :: int
  CI_LinkRxRate :: int
  CI_Signal :: int
  CI_TotalTxBytes :: u64
  CI_TotalRxBytes :: u64
  CI_TotalTxPkts :: u64
  CI_TotalRxPkts :: u64
  CI_FirstSeen :: instant
  CI_LastSeen :: instant

record status =
  ST_Summary :: "(string \<times> port_counters) list"
  ST_Ports :: "port_info list"
  ST_Clients :: "client_info list"

definition counters_of :: "kernel \<Rightarrow> stat_chain \<Rightarrow> monitor \<Rightarrow> (string, u64 \<times> u64) gomap" where
  "counters_of k c m =
     fold (\<lambda>r cm. let ip = extractIP (sr_tag r) (chain_suffix c) in
             if ip = [] then cm else gput ip (sr_bytes r, sr_pkts r) cm) (GetRules k c m) []"

definition live :: "(string, u64 \<times> u64) gomap \<Rightarrow> string \<Rightarrow> u64 \<times> u64" where
  "live cm ip = (case glookup cm ip of Some x \<Rightarrow> x | None \<Rightarrow> (0, 0))"

definition client_report ::
  "monitor \<Rightarrow> (string, u64 \<times> u64) gomap \<Rightarrow> (string, u64 \<times> u64) gomap \<Rightarrow> string \<times> client_entry \<Rightarrow> client_info" where
  "client_report m rx tx x =
     (case x of (ipStr, e) \<Rightarrow>
      let (rb, rp) = live rx ipStr; (tb, tp) = live tx ipStr;
          wsi = (if ce_Via e = ''W'' then glookup (mon_wifiStations m) (ce_MAC e) else None)
      in \<lparr>CI_IP = ipStr, CI_MAC = ce_MAC e, CI_Via = ce_Via e, CI_Connected = ce_Connected e,
          CI_TxBytes = tb, CI_RxBytes = rb, CI_TxPkts = tp, CI_RxPkts = rp,
          CI_Rates = glookup (mon_rates m) ipStr,
          CI_LinkTxRate = (case wsi of None \<Rightarrow> 0 | Some w \<Rightarrow> wsi_LinkTxRate w),
          CI_LinkRxRate = (case wsi of None \<Rightarrow> 0 | Some w \<Rightarrow> wsi_LinkRxRate w),
          CI_Signal = (case wsi of None \<Rightarrow> 0 | Some w \<Rightarrow> wsi_Signal w),
          CI_TotalTxBytes = ce_HistTxBytes e + tb, CI_TotalRxBytes = ce_HistRxBytes e + rb,
          CI_TotalTxPkts = ce_HistTxPkts e + tp, CI_TotalRxPkts = ce_HistRxPkts e + rp,
          CI_FirstSeen = ce_FirstSeen e, CI_LastSeen = ce_LastSeen e\<rparr>)"

definition GetStatus :: "net_env \<Rightarrow> kernel \<Rightarrow> monitor \<Rightarrow> status" where
  "GetStatus ne k m =
     (let wan = getPortInfo ne (mon_wanIface m);
          lan = rename_port ''lan'' (map (getPortInfo ne) (mon_lanPorts m)) (getPortInfo ne (mon_lanIface m));
          wifi = rename_port ''wifi'' [] (getPortInfo ne (mon_wifiIface m))
      in \<lparr>ST_Summary = [(''wan'', PI_Counters wan), (''lan'', PI_Counters lan), (''wifi'', PI_Counters wifi)],
          ST_Ports = [wan, lan, wifi],
          ST_Clients = map (client_report m (counters_of k ChainRx m) (counters_of k ChainTx m)) (mon_clients m)\<rparr>)"

text \<open>\<open>ServeHTTP\<close>: the status code and the body; \<open>encode\<close> is the JSON encoder.\<close>

definition ServeHTTP :: "(status \<Rightarrow> bytes) \<Rightarrow> net_env \<Rightarrow> kernel \<Rightarrow> monitor \<Rightarrow> nat \<times> bytes" where
  "ServeHTTP encode ne k m = (200, encode (GetStatus ne k m))"

end
