(* ===== verification/Status_Props.thy ===== *)
theory Status_Props
  imports Status
begin

section \<open>Properties of the status monitor\<close>

text \<open>
  The monitor implements a simple account: for every client the traffic that was forwarded while it
  was connected, over all its sessions. The kernel counts; the monitor moves the counts between its
  rules and the totals of the past sessions.
\<close>

subsection \<open>The account\<close>

record account =
  ac_Connected :: bool
  ac_Rx :: "u64 \<times> u64"
  ac_Tx :: "u64 \<times> u64"

type_synonym accounts = "ip \<Rightarrow> account option"

text \<open>What happens: a lease, its end, a forwarded packet of \<open>n\<close> bytes, a tick of the sampler.\<close>

datatype mon_event =
    LeaseGiven ip string string instant | LeaseOver ip instant | Forwarded ip ip u64 | Tick instant

definition add2 :: "u64 \<times> u64 \<Rightarrow> u64 \<times> u64 \<Rightarrow> u64 \<times> u64" where
  "add2 x y = (fst x + fst y, snd x + snd y)"

definition credit :: "ip \<Rightarrow> ip \<Rightarrow> u64 \<Rightarrow> ip \<Rightarrow> account \<Rightarrow> account" where
  "credit src dst n a x =
     (if \<not> ac_Connected x then x
      else x\<lparr>ac_Rx := (if a = src then add2 (ac_Rx x) (n, 1) else ac_Rx x),
             ac_Tx := (if a = dst then add2 (ac_Tx x) (n, 1) else ac_Tx x)\<rparr>)"

fun account_step :: "mon_event \<Rightarrow> accounts \<Rightarrow> accounts" where
  "account_step (LeaseGiven i mac via now) v =
     v(To4 i \<mapsto> (case v (To4 i) of
        None \<Rightarrow> \<lparr>ac_Connected = True, ac_Rx = (0, 0), ac_Tx = (0, 0)\<rparr>
      | Some x \<Rightarrow> x\<lparr>ac_Connected := True\<rparr>))"
| "account_step (LeaseOver i now) v =
     v(To4 i := map_option (\<lambda>x. x\<lparr>ac_Connected := False\<rparr>) (v (To4 i)))"
| "account_step (Forwarded src dst n) v = (\<lambda>a. map_option (credit src dst n a) (v a))"
| "account_step (Tick now) v = v"

subsection \<open>The monitor with a kernel that counts\<close>

abbreviation good_kernel :: kernel where "good_kernel \<equiv> \<lparr>kern_get = (\<lambda>_. True), kern_flush = True\<rparr>"

definition count_packet :: "ip \<Rightarrow> ip \<Rightarrow> u64 \<Rightarrow> stat_rule \<Rightarrow> stat_rule" where
  "count_packet src dst n r =
     (if sr_ip r = (case sr_chain r of ChainRx \<Rightarrow> src | ChainTx \<Rightarrow> dst)
      then r\<lparr>sr_bytes := sr_bytes r + n, sr_pkts := sr_pkts r + 1\<rparr> else r)"

fun mon_step :: "mon_event \<Rightarrow> monitor \<Rightarrow> monitor" where
  "mon_step (LeaseGiven i mac via now) m = snd (AddClient good_kernel now i mac via m)"
| "mon_step (LeaseOver i now) m = snd (RemoveClient good_kernel now i m)"
| "mon_step (Forwarded src dst n) m = m\<lparr>mon_rules := map (count_packet src dst n) (mon_rules m)\<rparr>"
| "mon_step (Tick now) m = mon_sample good_kernel now m"

fun event_ok :: "mon_event \<Rightarrow> bool" where
  "event_ok (LeaseGiven i mac via now) = (To4 i \<noteq> [])"
| "event_ok (LeaseOver i now) = (To4 i \<noteq> [])"
| "event_ok _ = True"

subsection \<open>Tags\<close>

lemma IPv4_String_inj: "length a = 4 \<Longrightarrow> length b = 4 \<Longrightarrow> IPv4_String a = IPv4_String b \<longleftrightarrow> a = b"
  by (metis To4_ParseIP_String)

lemma To4_length_4: "To4 i \<noteq> [] \<Longrightarrow> length (To4 i) = 4"
  by (auto simp: To4_def split: if_splits)

lemma IPv4_String_nonempty: "length a = 4 \<Longrightarrow> IPv4_String a \<noteq> []"
proof
  assume "length a = 4" "IPv4_String a = []"
  then have "To4 (ParseIP []) = a" using To4_ParseIP_String [of a] by simp
  moreover have "To4 (ParseIP []) = []" by code_simp
  ultimately show False using \<open>length a = 4\<close> by simp
qed

lemma extractIP_tag [simp]: "length a = 4 \<Longrightarrow> extractIP (IPv4_String a @ chain_suffix c) (chain_suffix c) = IPv4_String a"
  using IPv4_String_nonempty [of a] by (simp add: extractIP_def)

subsection \<open>The invariant\<close>

abbreviation rule_key :: "stat_rule \<Rightarrow> stat_chain \<times> ip" where "rule_key r \<equiv> (sr_chain r, sr_ip r)"

definition tagged :: "stat_rule \<Rightarrow> bool" where
  "tagged r \<longleftrightarrow> length (sr_ip r) = 4 \<and> sr_tag r = IPv4_String (sr_ip r) @ chain_suffix (sr_chain r)"

definition connected :: "monitor \<Rightarrow> ip \<Rightarrow> bool" where
  "connected m a \<longleftrightarrow> (case glookup (mon_clients m) (IPv4_String a) of None \<Rightarrow> False | Some e \<Rightarrow> ce_Connected e)"

definition mon_inv :: "monitor \<Rightarrow> bool" where
  "mon_inv m \<longleftrightarrow> gwf (mon_clients m) \<and>
     (\<forall>(s, e) \<in> set (mon_clients m). length (ce_IP e) = 4 \<and> s = IPv4_String (ce_IP e)) \<and>
     (\<forall>r \<in> set (mon_rules m). tagged r) \<and> distinct (map rule_key (mon_rules m)) \<and>
     (\<forall>c a. length a = 4 \<longrightarrow> ((c, a) \<in> rule_key ` set (mon_rules m) \<longleftrightarrow> connected m a))"

text \<open>The counter of a client in a chain.\<close>

definition counter :: "stat_rule list \<Rightarrow> stat_chain \<Rightarrow> ip \<Rightarrow> u64 \<times> u64" where
  "counter rs c a = (case find (\<lambda>r. sr_chain r = c \<and> sr_ip r = a) rs of None \<Rightarrow> (0, 0) | Some r \<Rightarrow> (sr_bytes r, sr_pkts r))"

lemma matching_tag:
  assumes "tagged r" and "length a = 4"
  shows "matching c (IPv4_String a @ chain_suffix c) r \<longleftrightarrow> rule_key r = (c, a)"
  using assms IPv4_String_inj by (auto simp: matching_def tagged_def)

lemma filter_key:
  "distinct (map key xs) \<Longrightarrow>
   filter (\<lambda>x. key x = k) xs = (case find (\<lambda>x. key x = k) xs of None \<Rightarrow> [] | Some x \<Rightarrow> [x])"
proof (induction xs)
  case (Cons x xs)
  have "find (\<lambda>x. key x = k) xs = None" if "key x = k"
  proof -
    have "key y \<noteq> k" if "y \<in> set xs" for y
      using Cons.prems \<open>key x = k\<close> imageI [OF that, of key] by auto
    then show ?thesis by (auto simp: find_None_iff)
  qed
  with Cons show ?case by auto
qed simp

lemma filter_rules:
  "distinct (map rule_key rs) \<Longrightarrow>
   filter (\<lambda>r. sr_chain r = c \<and> sr_ip r = a) rs =
     (case find (\<lambda>r. sr_chain r = c \<and> sr_ip r = a) rs of None \<Rightarrow> [] | Some x \<Rightarrow> [x])"
  using filter_key [of rule_key rs "(c, a)"] by simp

lemma readRules_counter:
  assumes "mon_inv m" and "length a = 4"
  shows "readRules good_kernel c (IPv4_String a @ chain_suffix c) m = counter (mon_rules m) c a"
proof -
  have "foldl (\<lambda>(b, p) r. if matching c (IPv4_String a @ chain_suffix c) r then (b + sr_bytes r, p + sr_pkts r) else (b, p))
      z rs = foldl (\<lambda>(b, p) r. (b + sr_bytes r, p + sr_pkts r)) z (filter (\<lambda>r. sr_chain r = c \<and> sr_ip r = a) rs)"
    if "\<forall>r \<in> set rs. tagged r" for rs and z :: "u64 \<times> u64"
    using that by (induction rs arbitrary: z) (auto simp: matching_tag [OF _ assms(2)] split: prod.splits)
  moreover have "distinct (map rule_key (mon_rules m))" "\<forall>r \<in> set (mon_rules m). tagged r"
    using assms(1) by (simp_all add: mon_inv_def)
  ultimately show ?thesis
    by (simp add: readRules_def counter_def filter_rules split: option.split)
qed

text \<open>The map that \<open>GetStatus\<close> builds of a chain holds the same counters.\<close>

lemma counters_lookup:
  assumes "\<forall>r \<in> set (mon_rules m). tagged r" and "distinct (map rule_key (mon_rules m))" and "length a = 4"
  shows "live (counters_of good_kernel c m) (IPv4_String a) = counter (mon_rules m) c a"
proof -
  have "glookup (fold (\<lambda>r cm. let ip = extractIP (sr_tag r) (chain_suffix c) in
        if ip = [] then cm else gput ip (sr_bytes r, sr_pkts r) cm) (filter (\<lambda>r. sr_chain r = c) rs) cm) (IPv4_String a) =
      (case filter (\<lambda>r. sr_chain r = c \<and> sr_ip r = a) (rev rs) of [] \<Rightarrow> glookup cm (IPv4_String a)
       | r # _ \<Rightarrow> Some (sr_bytes r, sr_pkts r))"
    if "\<forall>r \<in> set rs. tagged r" for rs cm
    using that
  proof (induction rs arbitrary: cm)
    case (Cons r rs)
    have tag: "sr_chain r = c \<Longrightarrow> extractIP (sr_tag r) (chain_suffix c) = IPv4_String (sr_ip r) \<and>
        IPv4_String (sr_ip r) \<noteq> [] \<and> (IPv4_String (sr_ip r) = IPv4_String a \<longleftrightarrow> sr_ip r = a)"
      using Cons.prems assms(3) IPv4_String_inj IPv4_String_nonempty by (auto simp: tagged_def)
    show ?case
    proof (cases "sr_chain r = c")
      case True
      then show ?thesis
        using Cons tag by (auto simp: Let_def update_conv' filter_append split: list.split)
    qed (use Cons in simp)
  qed simp
  moreover have "filter (\<lambda>r. sr_chain r = c \<and> sr_ip r = a) (rev (mon_rules m)) =
      rev (filter (\<lambda>r. sr_chain r = c \<and> sr_ip r = a) (mon_rules m))"
    by (rule rev_filter [symmetric])
  ultimately show ?thesis
    using assms(1,2) by (auto simp: live_def counters_of_def GetRules_def counter_def filter_rules split: option.split)
qed

subsection \<open>Every event keeps the invariant and the account\<close>

definition account_of :: "stat_rule list \<Rightarrow> ip \<Rightarrow> client_entry \<Rightarrow> account" where
  "account_of rs a e =
     \<lparr>ac_Connected = ce_Connected e,
      ac_Rx = add2 (ce_HistRxBytes e, ce_HistRxPkts e) (counter rs ChainRx a),
      ac_Tx = add2 (ce_HistTxBytes e, ce_HistTxPkts e) (counter rs ChainTx a)\<rparr>"

definition mon_account :: "monitor \<Rightarrow> accounts" where
  "mon_account m a =
     (if length a = 4 then map_option (account_of (mon_rules m) a) (glookup (mon_clients m) (IPv4_String a)) else None)"

lemma mon_inv_client:
  "mon_inv m \<Longrightarrow> glookup (mon_clients m) s = Some e \<Longrightarrow> length (ce_IP e) = 4 \<and> s = IPv4_String (ce_IP e)"
  by (auto simp: mon_inv_def gm.entries_lookup [symmetric])

lemma counter_none: "(c, a) \<notin> rule_key ` set rs \<Longrightarrow> counter rs c a = (0, 0)"
  by (induction rs) (auto simp: counter_def)

lemma counter_append:
  "counter (rs @ rs') c a = (if (c, a) \<in> rule_key ` set rs then counter rs c a else counter rs' c a)"
  by (induction rs) (auto simp: counter_def image_iff)

lemma counter_fresh: "counter (counter_rules a) c b = (0, 0)"
  by (auto simp: counter_def counter_rules_def)

lemma inv_add:
  assumes inv: "mon_inv m" and a: "length a = 4" and off: "\<not> connected m a"
    and e: "ce_IP e = a" "ce_Connected e"
  shows "mon_inv (m\<lparr>mon_clients := gput (IPv4_String a) e (mon_clients m), mon_rules := mon_rules m @ counter_rules a\<rparr>)"
    (is "mon_inv ?m")
proof -
  have new: "(c, a) \<notin> rule_key ` set (mon_rules m)" for c
    using inv a off by (auto simp: mon_inv_def)
  have wf: "gwf (mon_clients m)" using inv by (simp add: mon_inv_def)
  have conn: "connected ?m b \<longleftrightarrow> b = a \<or> connected m b" if "length b = 4" for b
    using that a e wf by (auto simp: connected_def go_map_simps IPv4_String_inj)
  have keys: "rule_key ` set (counter_rules a) = {(ChainRx, a), (ChainTx, a)}"
    by (simp add: counter_rules_def)
  have "\<forall>r \<in> set (mon_rules m @ counter_rules a). tagged r"
    using inv a by (auto simp: mon_inv_def counter_rules_def tagged_def)
  moreover have "distinct (map rule_key (mon_rules m @ counter_rules a))"
    using inv new keys by (auto simp: mon_inv_def counter_rules_def)
  moreover have "(c, b) \<in> rule_key ` set (mon_rules m @ counter_rules a) \<longleftrightarrow> connected ?m b" if "length b = 4" for c b
    using that inv conn [OF that] keys by (cases c) (auto simp: mon_inv_def image_Un)
  moreover have "\<forall>(s, e) \<in> set (gput (IPv4_String a) e (mon_clients m)). length (ce_IP e) = 4 \<and> s = IPv4_String (ce_IP e)"
    using inv a e wf by (auto simp: mon_inv_def in_gput_iff split: if_splits)
  ultimately show ?thesis
    using wf by (simp add: mon_inv_def go_wf)
qed

lemma add_account:
  assumes inv: "mon_inv m" and a: "length a = 4" and off: "\<not> connected m a" and b: "length b = 4"
    and e: "e = connect_entry a mac via now (glookup (mon_clients m) (IPv4_String a))"
  shows "mon_account (m\<lparr>mon_clients := gput (IPv4_String a) e (mon_clients m), mon_rules := mon_rules m @ counter_rules a\<rparr>) b =
    account_step (LeaseGiven a mac via now) (mon_account m) b"
proof -
  have new: "(c, a) \<notin> rule_key ` set (mon_rules m)" for c
    using inv a off by (auto simp: mon_inv_def)
  have cnt: "counter (mon_rules m @ counter_rules a) c b = counter (mon_rules m) c b" for c b
    using counter_none [of c b "mon_rules m"] by (simp add: counter_append counter_fresh)
  then have acc: "account_of (mon_rules m @ counter_rules a) b = account_of (mon_rules m) b" for b
    by (simp add: account_of_def fun_eq_iff)
  have wf: "gwf (mon_clients m)" using inv by (simp add: mon_inv_def)
  have "To4 a = a" using a by (simp add: To4_def)
  then show ?thesis
    using wf a b e counter_none [OF new]
    by (cases "b = a"; cases "glookup (mon_clients m) (IPv4_String a)")
      (simp_all add: mon_account_def acc go_map_simps IPv4_String_inj connect_entry_def
        account_of_def [of _ a] add2_def)
qed

lemma mon_account_off: "length b \<noteq> 4 \<Longrightarrow> mon_account m b = None"
  by (simp add: mon_account_def)

lemma connected_iff: "length a = 4 \<Longrightarrow> connected m a \<longleftrightarrow> (\<exists>x. mon_account m a = Some x \<and> ac_Connected x)"
  by (auto simp: connected_def mon_account_def account_of_def split: option.splits)

lemma lease_step:
  assumes inv: "mon_inv m" and i: "To4 i \<noteq> []"
  shows "mon_inv (mon_step (LeaseGiven i mac via now) m) \<and>
    mon_account (mon_step (LeaseGiven i mac via now) m) = account_step (LeaseGiven i mac via now) (mon_account m)"
proof -
  let ?a = "To4 i"
  have a: "length ?a = 4" using i by (rule To4_length_4)
  have same: "account_step (LeaseGiven ?a mac via' now) v = account_step (LeaseGiven i mac via now) v" for v via'
    using a by (simp add: To4_def [of ?a])
  show ?thesis
  proof (cases "connected m ?a")
    case True
    then have "mon_step (LeaseGiven i mac via now) m = m"
      by (auto simp: AddClient_def connected_def Let_def split: option.splits)
    moreover obtain x where "mon_account m ?a = Some x" "ac_Connected x"
      using True connected_iff [OF a] by auto
    ultimately show ?thesis
      using inv by (auto simp: fun_upd_idem_iff)
  next
    case False
    define via' where "via' = (if IPv4_String ?a \<in> set (mon_gatewayIPs m) then ''G'' else via)"
    define e where "e = connect_entry ?a mac via' now (glookup (mon_clients m) (IPv4_String ?a))"
    have step: "mon_step (LeaseGiven i mac via now) m =
        m\<lparr>mon_clients := gput (IPv4_String ?a) e (mon_clients m), mon_rules := mon_rules m @ counter_rules ?a\<rparr>"
      using False by (auto simp: AddClient_def connected_def e_def via'_def Let_def split: option.splits)
    have ip: "ce_IP e = ?a \<and> ce_Connected e"
    proof (cases "glookup (mon_clients m) (IPv4_String ?a)")
      case (Some old)
      have "ce_IP old = ?a"
        using mon_inv_client [OF inv Some] a IPv4_String_inj by metis
      with Some show ?thesis by (simp add: e_def connect_entry_def)
    qed (simp add: e_def connect_entry_def)
    have "mon_account (mon_step (LeaseGiven i mac via now) m) b = account_step (LeaseGiven i mac via now) (mon_account m) b" for b
    proof (cases "length b = 4")
      case True
      then show ?thesis
        unfolding step add_account [OF inv a False True e_def] same by simp
    next
      case nb: False
      then have "b \<noteq> ?a" using a by auto
      with nb show ?thesis by (simp add: mon_account_off)
    qed
    then show ?thesis
      using inv_add [OF inv a False, of e] ip step by auto
  qed
qed

lemma counter_removed: "counter (filter (\<lambda>r. sr_ip r \<noteq> a) rs) c b = (if b = a then (0, 0) else counter rs c b)"
  by (induction rs) (auto simp: counter_def)

lemma inv_remove:
  assumes inv: "mon_inv m" and a: "length a = 4" and e: "ce_IP e = a" "\<not> ce_Connected e"
  shows "mon_inv (m\<lparr>mon_clients := gput (IPv4_String a) e (mon_clients m), mon_rules := filter (\<lambda>r. sr_ip r \<noteq> a) (mon_rules m)\<rparr>)"
    (is "mon_inv ?m")
proof -
  let ?rs = "filter (\<lambda>r. sr_ip r \<noteq> a) (mon_rules m)"
  have wf: "gwf (mon_clients m)" using inv by (simp add: mon_inv_def)
  have conn: "connected ?m b \<longleftrightarrow> b \<noteq> a \<and> connected m b" if "length b = 4" for b
    using that a e wf by (auto simp: connected_def go_map_simps IPv4_String_inj)
  have "(c, b) \<in> rule_key ` set ?rs \<longleftrightarrow> b \<noteq> a \<and> (c, b) \<in> rule_key ` set (mon_rules m)" for c b
    by auto
  then have "\<forall>c b. length b = 4 \<longrightarrow> ((c, b) \<in> rule_key ` set ?rs \<longleftrightarrow> connected ?m b)"
    using inv conn by (simp add: mon_inv_def)
  moreover have "\<forall>(s, e) \<in> set (gput (IPv4_String a) e (mon_clients m)). length (ce_IP e) = 4 \<and> s = IPv4_String (ce_IP e)"
    using inv a e wf by (auto simp: mon_inv_def in_gput_iff split: if_splits)
  moreover have "distinct (map rule_key ?rs)" "\<forall>r \<in> set ?rs. tagged r"
    using inv by (simp_all add: mon_inv_def distinct_map_filter)
  ultimately show ?thesis using wf by (simp add: mon_inv_def go_wf)
qed

text \<open>The entry of a client whose session has ended.\<close>

definition closed_entry :: "monitor \<Rightarrow> ip \<Rightarrow> instant \<Rightarrow> client_entry \<Rightarrow> client_entry" where
  "closed_entry m a now e =
     (let cnt = counter (mon_rules m) in
      e\<lparr>ce_HistRxBytes := ce_HistRxBytes e + fst (cnt ChainRx a), ce_HistRxPkts := ce_HistRxPkts e + snd (cnt ChainRx a),
        ce_HistTxBytes := ce_HistTxBytes e + fst (cnt ChainTx a), ce_HistTxPkts := ce_HistTxPkts e + snd (cnt ChainTx a),
        ce_Connected := False, ce_LastSeen := now\<rparr>)"

lemma lease_over_connected:
  assumes inv: "mon_inv m" and a: "length (To4 i) = 4"
    and e: "glookup (mon_clients m) (IPv4_String (To4 i)) = Some e" "ce_Connected e"
  shows "mon_step (LeaseOver i now) m =
    m\<lparr>mon_clients := gput (IPv4_String (To4 i)) (closed_entry m (To4 i) now e) (mon_clients m),
      mon_rules := filter (\<lambda>r. sr_ip r \<noteq> To4 i) (mon_rules m)\<rparr>"
proof -
  let ?a = "To4 i"
  let ?s = "IPv4_String ?a"
  have read: "readRules good_kernel ChainRx (?s @ ''/rx'') m = counter (mon_rules m) ChainRx ?a"
    "readRules good_kernel ChainTx (?s @ ''/tx'') m = counter (mon_rules m) ChainTx ?a"
    using readRules_counter [OF inv a, of ChainRx] readRules_counter [OF inv a, of ChainTx] by (simp_all add: chain_suffix_def)
  have q: "\<not> queued good_kernel ChainRx (?s @ ''/rx'') r \<and> \<not> queued good_kernel ChainTx (?s @ ''/tx'') r \<longleftrightarrow> sr_ip r \<noteq> ?a"
    if "tagged r" for r
    using matching_tag [OF that a, of ChainRx] matching_tag [OF that a, of ChainTx]
    by (cases "sr_chain r") (auto simp: queued_def chain_suffix_def)
  have tags: "\<forall>r \<in> set (mon_rules m). tagged r" using inv by (simp add: mon_inv_def)
  show ?thesis
    using e q tags by (simp add: RemoveClient_def read closed_entry_def Let_def split_beta cong: filter_cong)
qed

lemma lease_over_step:
  assumes inv: "mon_inv m" and i: "To4 i \<noteq> []"
  shows "mon_inv (mon_step (LeaseOver i now) m) \<and>
    mon_account (mon_step (LeaseOver i now) m) = account_step (LeaseOver i now) (mon_account m)"
proof -
  let ?a = "To4 i"
  let ?s = "IPv4_String ?a"
  have a: "length ?a = 4" using i by (rule To4_length_4)
  show ?thesis
  proof (cases "connected m ?a")
    case False
    then have "mon_step (LeaseOver i now) m = m"
      by (auto simp: RemoveClient_def connected_def Let_def split: option.splits)
    moreover have "map_option (\<lambda>x. x\<lparr>ac_Connected := False\<rparr>) (mon_account m ?a) = mon_account m ?a"
      using False connected_iff [OF a, of m] by (cases "mon_account m ?a") auto
    ultimately show ?thesis using inv by (simp add: fun_upd_idem)
  next
    case True
    then obtain e where e: "glookup (mon_clients m) ?s = Some e" "ce_Connected e"
      by (auto simp: connected_def split: option.splits)
    note step = lease_over_connected [OF inv a e, of now]
    have wf: "gwf (mon_clients m)" using inv by (simp add: mon_inv_def)
    have "ce_IP e = ?a"
      using mon_inv_client [OF inv e(1)] a IPv4_String_inj by metis
    then have ip: "ce_IP (closed_entry m ?a now e) = ?a" "\<not> ce_Connected (closed_entry m ?a now e)"
      by (simp_all add: closed_entry_def Let_def)
    have "mon_account (mon_step (LeaseOver i now) m) b = account_step (LeaseOver i now) (mon_account m) b" for b
      unfolding step using wf a e
      by (auto simp: mon_account_def go_map_simps IPv4_String_inj account_of_def counter_removed closed_entry_def Let_def add2_def
          option.map_comp fun_eq_iff intro!: option.map_cong)
    then show ?thesis using inv_remove [OF inv a ip] unfolding step by blast
  qed
qed

lemma rule_key_count [simp]:
  "sr_chain (count_packet src dst n r) = sr_chain r" "sr_ip (count_packet src dst n r) = sr_ip r"
  by (simp_all add: count_packet_def)

lemma tagged_count [simp]: "tagged (count_packet src dst n r) = tagged r"
  by (simp add: count_packet_def tagged_def)

lemma counter_count:
  "counter (map (count_packet src dst n) rs) c a =
     (if (c, a) \<in> rule_key ` set rs \<and> a = (case c of ChainRx \<Rightarrow> src | ChainTx \<Rightarrow> dst)
      then add2 (counter rs c a) (n, 1) else counter rs c a)"
proof (induction rs)
  case (Cons r rs)
  show ?case
  proof (cases "rule_key r = (c, a)")
    case True
    then show ?thesis by (auto simp: counter_def count_packet_def add2_def)
  next
    case False
    then have "sr_chain r = c \<longrightarrow> sr_ip r \<noteq> a" by auto
    then have "counter (r # rs) c a = counter rs c a"
      "counter (map (count_packet src dst n) (r # rs)) c a = counter (map (count_packet src dst n) rs) c a"
      by (auto simp: counter_def)
    moreover have "(c, a) \<in> rule_key ` set (r # rs) \<longleftrightarrow> (c, a) \<in> rule_key ` set rs"
      using False by auto
    ultimately show ?thesis using Cons.IH by (simp only:)
  qed
qed (simp add: counter_def)

lemma mon_rules_upd: "mon_rules (m\<lparr>mon_rules := rs\<rparr>) = rs" "mon_clients (m\<lparr>mon_rules := rs\<rparr>) = mon_clients m"
  by simp_all

lemma forwarded_step:
  assumes inv: "mon_inv m"
  shows "mon_inv (mon_step (Forwarded src dst n) m) \<and>
    mon_account (mon_step (Forwarded src dst n) m) = account_step (Forwarded src dst n) (mon_account m)"
proof
  let ?m = "mon_step (Forwarded src dst n) m"
  have conn: "connected ?m a = connected m a" for a by (simp add: connected_def)
  let ?rs = "map (count_packet src dst n) (mon_rules m)"
  have keys: "map rule_key ?rs = map rule_key (mon_rules m)" by simp
  then have "distinct (map rule_key ?rs)"
    using inv unfolding mon_inv_def by (simp only:)
  moreover have "rule_key ` set ?rs = rule_key ` set (mon_rules m)"
    using arg_cong [OF keys, of set] by (simp only: set_map)
  moreover have "\<forall>r \<in> set ?rs. tagged r" using inv by (simp add: mon_inv_def)
  ultimately have rules: "distinct (map rule_key ?rs)" "rule_key ` set ?rs = rule_key ` set (mon_rules m)"
    "\<forall>r \<in> set ?rs. tagged r" by blast+
  show "mon_inv ?m"
    unfolding mon_inv_def mon_step.simps mon_rules_upd rules(2)
    using inv rules(1,3) conn unfolding mon_inv_def by simp
  have "mon_account ?m a = account_step (Forwarded src dst n) (mon_account m) a" for a
  proof (cases "length a = 4 \<and> glookup (mon_clients m) (IPv4_String a) \<noteq> None")
    case True
    then obtain e where e: "length a = 4" "glookup (mon_clients m) (IPv4_String a) = Some e" by auto
    then have "(c, a) \<in> rule_key ` set (mon_rules m) \<longleftrightarrow> ce_Connected e" for c
      using inv by (simp add: mon_inv_def connected_def)
    then show ?thesis
      using e by (auto simp: mon_account_def account_of_def counter_count credit_def add2_def add.assoc)
  qed (auto simp: mon_account_def)
  then show "mon_account ?m = account_step (Forwarded src dst n) (mon_account m)" by blast
qed

lemma tick_step:
  assumes "mon_inv m"
  shows "mon_inv (mon_step (Tick now) m) \<and> mon_account (mon_step (Tick now) m) = mon_account m"
  using assms by (simp add: mon_sample_def mon_inv_def mon_account_def connected_def Let_def fun_eq_iff)

lemma mon_step_refines:
  "mon_inv m \<Longrightarrow> event_ok ev \<Longrightarrow>
   mon_inv (mon_step ev m) \<and> mon_account (mon_step ev m) = account_step ev (mon_account m)"
  using lease_step lease_over_step forwarded_step tick_step by (cases ev) (auto simp del: mon_step.simps)

lemma mon_run_refines:
  "\<forall>ev \<in> set evs. event_ok ev \<Longrightarrow> mon_inv m \<Longrightarrow>
   mon_inv (fold mon_step evs m) \<and> mon_account (fold mon_step evs m) = fold account_step evs (mon_account m)"
proof (induction evs arbitrary: m)
  case (Cons ev evs)
  then show ?case
    using mon_step_refines [of m ev] by (simp del: mon_step.simps account_step.simps)
qed simp

lemma monitor_New_inv: "monitor_New k addrs wan lan ports wifi = Inr m \<Longrightarrow> mon_inv m \<and> mon_account m = (\<lambda>_. None)"
  by (auto simp: monitor_New_def mon_inv_def connected_def mon_account_def split: if_splits)

text \<open>What the report says of a client is its account.\<close>

definition report_account :: "client_info \<Rightarrow> account" where
  "report_account ci = \<lparr>ac_Connected = CI_Connected ci, ac_Rx = (CI_TotalRxBytes ci, CI_TotalRxPkts ci),
     ac_Tx = (CI_TotalTxBytes ci, CI_TotalTxPkts ci)\<rparr>"

lemma client_report_account:
  assumes "mon_inv m" and "(s, e) \<in> set (mon_clients m)"
  shows "report_account (client_report m (counters_of good_kernel ChainRx m) (counters_of good_kernel ChainTx m) (s, e)) =
    account_of (mon_rules m) (ce_IP e) e \<and> s = IPv4_String (ce_IP e) \<and> mon_account m (ce_IP e) = Some (account_of (mon_rules m) (ce_IP e) e)"
proof -
  have wf: "gwf (mon_clients m)" using assms(1) by (simp add: mon_inv_def)
  have ip: "length (ce_IP e) = 4" "s = IPv4_String (ce_IP e)"
    using assms by (auto simp: mon_inv_def)
  then have "glookup (mon_clients m) (IPv4_String (ce_IP e)) = Some e"
    using assms(2) wf by simp
  then show ?thesis
    using ip assms(1) counters_lookup [OF _ _ ip(1), of m]
    by (simp add: mon_inv_def client_report_def report_account_def account_of_def mon_account_def add2_def split_beta Let_def)
qed


definition demo_events :: "mon_event list" where
  "demo_events = [LeaseGiven [10, 0, 0, 5] ''aa:bb'' ''L'' 0, Forwarded [10, 0, 0, 5] [1, 1, 1, 1] 100,
     Forwarded [1, 1, 1, 1] [10, 0, 0, 5] 1500, LeaseOver [10, 0, 0, 5] 10, Forwarded [10, 0, 0, 5] [1, 1, 1, 1] 7,
     LeaseGiven [10, 0, 0, 5] ''aa:bb'' ''L'' 20, Tick 25, Forwarded [10, 0, 0, 5] [1, 1, 1, 1] 60]"

definition demo_monitor :: monitor where
  "demo_monitor = (case monitor_New good_kernel (\<lambda>_. None) ''wan'' ''br-lan'' [] ''wlan0'' of Inr m \<Rightarrow> m)"

lemma demo_monitor_new: "monitor_New good_kernel (\<lambda>_. None) ''wan'' ''br-lan'' [] ''wlan0'' = Inr demo_monitor"
  by (simp add: demo_monitor_def monitor_New_def)

lemma demo_events_ok: "\<forall>ev \<in> set demo_events. event_ok ev"
  by (simp add: demo_events_def To4_def)

lemma demo_events_account:
  "fold account_step demo_events (\<lambda>_. None) b =
    (if b = [10, 0, 0, 5] then Some \<lparr>ac_Connected = True, ac_Rx = (160, 2), ac_Tx = (1500, 1)\<rparr> else None)"
proof -
  have "To4 [10, 0, 0, 5] = [10, 0, 0, 5]" by (simp add: To4_def)
  then show ?thesis by (simp add: demo_events_def credit_def add2_def)
qed

definition demo_net_env :: net_env where
  "demo_net_env = \<lparr>ne_links = (\<lambda>_. None), ne_sysfs = (\<lambda>_. None), ne_int = 64\<rparr>"


subsection \<open>A batch the kernel refuses\<close>

text \<open>
  If the kernel refuses the deletion of the rules of a client, its counts have been added to the
  past sessions and the rules still count: from then on the totals include the traffic of the last
  session twice.
\<close>

lemma failed_flush_double_counts:
  assumes "mon_inv m" and "length a = 4" and "glookup (mon_clients m) (IPv4_String a) = Some e" and "ce_Connected e"
    and "RemoveClient \<lparr>kern_get = (\<lambda>_. True), kern_flush = False\<rparr> now a m = (err, m')"
  shows "err \<noteq> None \<and>
    (\<exists>ci \<in> set (ST_Clients (GetStatus ne good_kernel m')). CI_IP ci = IPv4_String a \<and> \<not> CI_Connected ci \<and>
       CI_TotalRxBytes ci = ce_HistRxBytes e + 2 * fst (counter (mon_rules m) ChainRx a) \<and>
       CI_TotalTxBytes ci = ce_HistTxBytes e + 2 * fst (counter (mon_rules m) ChainTx a))"
proof -
  let ?k = "\<lparr>kern_get = (\<lambda>_. True), kern_flush = False\<rparr>"
  let ?s = "IPv4_String a"
  have "readRules ?k c tag m = readRules good_kernel c tag m" for c tag
    by (simp add: readRules_def)
  then have cnt: "readRules ?k ChainRx (?s @ ''/rx'') m = counter (mon_rules m) ChainRx a"
    "readRules ?k ChainTx (?s @ ''/tx'') m = counter (mon_rules m) ChainTx a"
    using readRules_counter [OF assms(1,2), of ChainRx] readRules_counter [OF assms(1,2), of ChainTx]
    by (simp_all add: chain_suffix_def)
  have To4: "To4 a = a" using assms(2) by (simp add: To4_def)
  let ?rx = "counter (mon_rules m) ChainRx a" and ?tx = "counter (mon_rules m) ChainTx a"
  define e' where "e' = e\<lparr>ce_HistRxBytes := ce_HistRxBytes e + fst ?rx, ce_HistRxPkts := ce_HistRxPkts e + snd ?rx,
    ce_HistTxBytes := ce_HistTxBytes e + fst ?tx, ce_HistTxPkts := ce_HistTxPkts e + snd ?tx,
    ce_Connected := False, ce_LastSeen := now\<rparr>"
  have "RemoveClient ?k now a m = (Some (StatusFlush ?s), m\<lparr>mon_clients := gput ?s e' (mon_clients m)\<rparr>)"
    using assms(3,4) by (simp add: RemoveClient_def To4 cnt Let_def split_beta e'_def)
  then have m': "m' = m\<lparr>mon_clients := gput ?s e' (mon_clients m)\<rparr>" and "err \<noteq> None"
    using assms(5) by auto
  have e': "\<not> ce_Connected e'" "ce_HistRxBytes e' = ce_HistRxBytes e + fst ?rx"
    "ce_HistTxBytes e' = ce_HistTxBytes e + fst ?tx"
    by (simp_all add: e'_def)
  have wf: "gwf (mon_clients m)" using assms(1) by (simp add: mon_inv_def)
  have live: "live (counters_of good_kernel c m') ?s = counter (mon_rules m) c a" for c
  proof -
    have r: "mon_rules m' = mon_rules m" by (simp add: m')
    have "\<forall>r \<in> set (mon_rules m). tagged r" "distinct (map rule_key (mon_rules m))"
      using assms(1) unfolding mon_inv_def by blast+
    from this [folded r] show ?thesis
      using counters_lookup [of m' a c] assms(2) r by simp
  qed
  have "(?s, e') \<in> set (mon_clients m')"
    using wf by (simp add: m' in_gput_iff)
  then have m_ci: "client_report m' (counters_of good_kernel ChainRx m') (counters_of good_kernel ChainTx m') (?s, e') \<in>
      set (ST_Clients (GetStatus ne good_kernel m'))"
    by (simp add: GetStatus_def Let_def)
  define ci where "ci = client_report m' (counters_of good_kernel ChainRx m') (counters_of good_kernel ChainTx m') (?s, e')"
  have "CI_IP ci = ?s" "CI_Connected ci = ce_Connected e'"
    "CI_TotalRxBytes ci = ce_HistRxBytes e' + fst ?rx" "CI_TotalTxBytes ci = ce_HistTxBytes e' + fst ?tx"
    by (simp_all add: ci_def client_report_def live split_beta Let_def)
  then have "CI_IP ci = ?s \<and> \<not> CI_Connected ci \<and> CI_TotalRxBytes ci = ce_HistRxBytes e + 2 * fst ?rx \<and>
      CI_TotalTxBytes ci = ce_HistTxBytes e + 2 * fst ?tx"
    using e' by (simp only: mult_2 add.assoc simp_thms)
  with m_ci [folded ci_def] \<open>err \<noteq> None\<close> show ?thesis by blast
qed

lemma demo_live: "counter (mon_rules (fold mon_step demo_events demo_monitor)) ChainRx [10, 0, 0, 5] = (60, 1)"
  by code_simp

lemma demo_hist: "map_option (\<lambda>e. (ce_HistRxBytes e, ce_Connected e)) (glookup (mon_clients
    (fold mon_step demo_events demo_monitor)) (IPv4_String [10, 0, 0, 5])) = Some (100, True)"
  by code_simp

text \<open>One session of 100 bytes is over, and 60 bytes of the second one are reported twice.\<close>

lemma failed_flush_double_counts_example:
  "\<exists>err m'. RemoveClient \<lparr>kern_get = (\<lambda>_. True), kern_flush = False\<rparr> 30 [10, 0, 0, 5]
       (fold mon_step demo_events demo_monitor) = (err, m') \<and> err \<noteq> None \<and>
     (\<exists>ci \<in> set (ST_Clients (GetStatus demo_net_env good_kernel m')). CI_IP ci = IPv4_String [10, 0, 0, 5] \<and>
       CI_TotalRxBytes ci = 100 + 2 * 60)"
proof -
  let ?m = "fold mon_step demo_events demo_monitor"
  obtain err m' where r: "RemoveClient \<lparr>kern_get = (\<lambda>_. True), kern_flush = False\<rparr> 30 [10, 0, 0, 5] ?m = (err, m')"
    by fastforce
  have inv: "mon_inv ?m"
    using monitor_New_inv [OF demo_monitor_new] mon_run_refines [OF demo_events_ok, of demo_monitor] by auto
  obtain e where e: "glookup (mon_clients ?m) (IPv4_String [10, 0, 0, 5]) = Some e" "ce_Connected e" "ce_HistRxBytes e = 100"
    using demo_hist by (elim map_option_eq_Some [THEN iffD1, elim_format] exE conjE) simp
  have len: "length ([10, 0, 0, 5] :: ip) = 4" by simp
  show ?thesis
    using failed_flush_double_counts [OF inv len e(1,2) r, of demo_net_env] r
    unfolding demo_live e(3) fst_conv by blast
qed

subsection \<open>Rates\<close>

definition put_sample :: "instant \<Rightarrow> stat_chain \<Rightarrow> u64 \<Rightarrow> counter_snapshot option \<Rightarrow> counter_snapshot" where
  "put_sample now c b old =
     (let snap = (case old of Some s \<Rightarrow> s | None \<Rightarrow> \<lparr>cs_RxBytes = 0, cs_TxBytes = 0, cs_Time = 0\<rparr>)
      in (case c of ChainRx \<Rightarrow> snap\<lparr>cs_RxBytes := b\<rparr> | ChainTx \<Rightarrow> snap\<lparr>cs_TxBytes := b\<rparr>)\<lparr>cs_Time := now\<rparr>)"

lemma sample_rule_tagged:
  assumes "tagged r" and "sr_chain r = c"
  shows "sample_rule now c r cur = gput (IPv4_String (sr_ip r)) (put_sample now c (sr_bytes r) (glookup cur (IPv4_String (sr_ip r)))) cur"
  using assms IPv4_String_nonempty by (auto simp: sample_rule_def put_sample_def tagged_def Let_def)

lemma sample_fold:
  assumes "\<forall>r \<in> set rs. tagged r \<and> sr_chain r = c" and "distinct (map sr_ip rs)" and "length a = 4"
  shows "glookup (fold (sample_rule now c) rs cur) (IPv4_String a) =
    (case find (\<lambda>r. sr_ip r = a) rs of None \<Rightarrow> glookup cur (IPv4_String a)
     | Some r \<Rightarrow> Some (put_sample now c (sr_bytes r) (glookup cur (IPv4_String a))))"
  using assms(1,2)
proof (induction rs arbitrary: cur)
  case (Cons r rs)
  have step: "sample_rule now c r cur =
      gput (IPv4_String (sr_ip r)) (put_sample now c (sr_bytes r) (glookup cur (IPv4_String (sr_ip r)))) cur"
    using Cons.prems by (intro sample_rule_tagged) simp_all
  have eq: "IPv4_String (sr_ip r) = IPv4_String a \<longleftrightarrow> sr_ip r = a" "IPv4_String a = IPv4_String (sr_ip r) \<longleftrightarrow> sr_ip r = a"
    using Cons.prems assms(3) IPv4_String_inj by (auto simp: tagged_def)
  have "find (\<lambda>r. sr_ip r = a) rs = None" if "sr_ip r = a"
    using Cons.prems that by (auto simp: find_None_iff image_iff)
  then show ?case
    using Cons by (auto simp: step eq update_conv' split: option.split)
qed simp

lemma gwf_snapshot: "gwf (snapshot k now m)"
proof -
  have "gwf (fold (sample_rule now c) rs cur)" if "gwf cur" for c rs cur
    using that by (induction rs arbitrary: cur) (simp_all add: sample_rule_def Let_def gwf_gput)
  then show ?thesis by (simp add: snapshot_def)
qed

lemma find_filter: "find P (filter Q xs) = find (\<lambda>x. Q x \<and> P x) xs"
  by (induction xs) auto

lemma snapshot_lookup:
  assumes "mon_inv m" and "length a = 4" and "connected m a"
  shows "glookup (snapshot good_kernel now m) (IPv4_String a) =
    Some \<lparr>cs_RxBytes = fst (counter (mon_rules m) ChainRx a), cs_TxBytes = fst (counter (mon_rules m) ChainTx a), cs_Time = now\<rparr>"
proof -
  have rules: "\<forall>r \<in> set (mon_rules m). tagged r" "distinct (map rule_key (mon_rules m))"
    "(c, a) \<in> rule_key ` set (mon_rules m)" for c
    using assms by (simp_all add: mon_inv_def)
  have chain: "\<forall>r \<in> set (GetRules good_kernel c m). tagged r \<and> sr_chain r = c" "distinct (map sr_ip (GetRules good_kernel c m))" for c
    using rules(1,2) by (auto simp: GetRules_def distinct_map inj_on_def)
  obtain r where r: "find (\<lambda>r. sr_ip r = a) (GetRules good_kernel c m) = Some (r c)"
    "fst (counter (mon_rules m) c a) = sr_bytes (r c)" for c
  proof -
    have "\<exists>r. find (\<lambda>r. sr_ip r = a) (GetRules good_kernel c m) = Some r \<and> fst (counter (mon_rules m) c a) = sr_bytes r" for c
      using rules(3) [of c] by (cases "find (\<lambda>r. sr_chain r = c \<and> sr_ip r = a) (mon_rules m)")
        (auto simp: GetRules_def find_filter counter_def find_None_iff)
    then show ?thesis using that by metis
  qed
  show ?thesis
    unfolding snapshot_def sample_fold [OF chain assms(2)] r by (simp add: put_sample_def)
qed

lemma rates_lookup:
  assumes "gwf current"
  shows "glookup (fold (\<lambda>(ip, cur) rs. case prev ip of None \<Rightarrow> rs
      | Some p \<Rightarrow> (case rate_of p cur of None \<Rightarrow> rs | Some r \<Rightarrow> gput ip r rs)) current rs) k =
    (case glookup current k of None \<Rightarrow> glookup rs k | Some cur \<Rightarrow>
      (case prev k of None \<Rightarrow> glookup rs k | Some p \<Rightarrow>
        (case rate_of p cur of None \<Rightarrow> glookup rs k | Some r \<Rightarrow> Some r)))"
  using assms
proof (induction current arbitrary: rs)
  case (Cons x current)
  obtain ip cur where x: "x = (ip, cur)" by fastforce
  have "glookup current ip = None" using Cons.prems by (auto simp: x map_of_eq_None_iff)
  then show ?case
    using Cons by (auto simp: x update_conv' split: option.splits)
qed simp

text \<open>The bytes of a sequence of packets that a client has sent or received.\<close>

fun sent_by :: "ip \<Rightarrow> (ip \<times> ip \<times> u64) list \<Rightarrow> nat" where
  "sent_by a [] = 0"
| "sent_by a ((src, dst, n) # ps) = (if src = a then unat n else 0) + sent_by a ps"

fun sent_to :: "ip \<Rightarrow> (ip \<times> ip \<times> u64) list \<Rightarrow> nat" where
  "sent_to a [] = 0"
| "sent_to a ((src, dst, n) # ps) = (if dst = a then unat n else 0) + sent_to a ps"

definition forward :: "(ip \<times> ip \<times> u64) list \<Rightarrow> monitor \<Rightarrow> monitor" where
  "forward ps = fold (\<lambda>(src, dst, n). mon_step (Forwarded src dst n)) ps"

lemma forward_counters:
  assumes "mon_inv m" and "length a = 4" and "connected m a"
  shows "mon_inv (forward ps m) \<and> connected (forward ps m) a \<and> mon_prevSnapshot (forward ps m) = mon_prevSnapshot m \<and>
    fst (counter (mon_rules (forward ps m)) ChainRx a) = fst (counter (mon_rules m) ChainRx a) + of_nat (sent_by a ps) \<and>
    fst (counter (mon_rules (forward ps m)) ChainTx a) = fst (counter (mon_rules m) ChainTx a) + of_nat (sent_to a ps)"
  using assms
proof (induction ps arbitrary: m)
  case (Cons p ps)
  obtain src dst n where p: "p = (src, dst, n)" by (metis prod_cases3)
  let ?m = "mon_step (Forwarded src dst n) m"
  have inv: "mon_inv ?m" using forwarded_step [OF Cons.prems(1)] by blast
  have conn: "connected ?m a" using Cons.prems(3) by (simp add: connected_def)
  have key: "(c, a) \<in> rule_key ` set (mon_rules m)" for c using Cons.prems by (simp add: mon_inv_def)
  have "forward (p # ps) m = forward ps ?m" by (simp add: forward_def p)
  then show ?case
    using Cons.IH [OF inv Cons.prems(2) conn] key [of ChainRx] key [of ChainTx]
    by (auto simp: p counter_count add2_def)
qed (simp add: forward_def)

text \<open>
  C19: If a client stays connected between two samples and its counters do not overflow, the rates
  computed at the second sample are exactly the bytes it sent and received in between, divided by the
  time between the samples.
\<close>

theorem sampled_rates:
  assumes "mon_inv m" and "length a = 4" and "connected m a" and "t1 < t2"
    and "m' = mon_sample good_kernel t2 (forward ps (mon_sample good_kernel t1 m))"
    and "unat (fst (counter (mon_rules m) ChainRx a)) + sent_by a ps < 2 ^ 64"
    and "unat (fst (counter (mon_rules m) ChainTx a)) + sent_to a ps < 2 ^ 64"
  shows "glookup (mon_rates m') (IPv4_String a) =
    Some \<lparr>cr_RxRate = (of_nat (sent_by a ps), t2 - t1), cr_TxRate = (of_nat (sent_to a ps), t2 - t1)\<rparr>"
proof -
  let ?m1 = "mon_sample good_kernel t1 m"
  have m1: "mon_rules ?m1 = mon_rules m" "connected ?m1 a" "mon_prevSnapshot ?m1 = snapshot good_kernel t1 m"
    using assms(3) by (simp_all add: mon_sample_def Let_def connected_def)
  have inv1: "mon_inv ?m1" using tick_step [OF assms(1), of t1] by simp
  note f = forward_counters [OF inv1 assms(2) m1(2), of ps, unfolded m1(1,3)]
  have grow: "x \<le> x + of_nat n \<and> x + of_nat n - x = of_nat n" if "unat x + n < 2 ^ 64" for x :: u64 and n
    using that by (simp add: word_le_nat_alt unat_word_ariths unat_of_nat)
  have "rate_of (the (glookup (snapshot good_kernel t1 m) (IPv4_String a)))
      (the (glookup (snapshot good_kernel t2 (forward ps ?m1)) (IPv4_String a))) =
    Some \<lparr>cr_RxRate = (of_nat (sent_by a ps), t2 - t1), cr_TxRate = (of_nat (sent_to a ps), t2 - t1)\<rparr>"
    using snapshot_lookup [OF assms(1-3), of t1] snapshot_lookup [of "forward ps ?m1" a t2] f assms(2,4)
      grow [OF assms(6)] grow [OF assms(7)]
    by (simp add: rate_of_def Let_def)
  then show ?thesis
    using snapshot_lookup [OF assms(1-3), of t1] snapshot_lookup [of "forward ps ?m1" a t2] f assms(2)
    unfolding assms(5) by (simp add: mon_sample_def [of _ t2] Let_def rates_lookup [OF gwf_snapshot])
qed

lemma demo_lease:
  defines "m \<equiv> mon_step (LeaseGiven [10, 0, 0, 5] ''aa'' ''L'' 0) demo_monitor"
  shows "mon_inv m" and "connected m [10, 0, 0, 5]" and "counter (mon_rules m) c [10, 0, 0, 5] = (0, 0)"
proof -
  have To4: "To4 [10, 0, 0, 5] = [10, 0, 0, 5]" by code_simp
  show "mon_inv m"
    using mon_step_refines [of demo_monitor "LeaseGiven [10, 0, 0, 5] ''aa'' ''L'' 0"] monitor_New_inv [OF demo_monitor_new] To4
    by (simp add: m_def del: mon_step.simps)
  have "mon_clients demo_monitor = []" "mon_rules demo_monitor = []"
    by (simp_all add: demo_monitor_def monitor_New_def)
  then show "connected m [10, 0, 0, 5]" "counter (mon_rules m) c [10, 0, 0, 5] = (0, 0)"
    by (simp_all add: m_def AddClient_def Let_def To4 connected_def connect_entry_def counter_fresh)
qed

theorem sampled_rates_witness:
  "glookup (mon_rates (mon_sample good_kernel 7 (forward [([10, 0, 0, 5], [8, 8, 8, 8], 100), ([8, 8, 8, 8], [10, 0, 0, 5], 40)]
      (mon_sample good_kernel 2 (mon_step (LeaseGiven [10, 0, 0, 5] ''aa'' ''L'' 0) demo_monitor))))) (IPv4_String [10, 0, 0, 5]) =
     Some \<lparr>cr_RxRate = (100, 5), cr_TxRate = (40, 5)\<rparr>"
  by (subst sampled_rates [OF demo_lease(1) _ demo_lease(2) _ refl]) (simp_all add: demo_lease(3) del: mon_step.simps)

end
