(* ===== verification/Router_CLI.thy ===== *)
theory Router_CLI
  imports Macmap Status Go_Float
begin

section \<open>The command line tool (cmd/router-cli)\<close>

text \<open>
  \<open>cmd/router-cli/main.go\<close>: the commands that edit the extras file, the export of the known MAC
  addresses as a map file, the formatting of numbers, and the tables of the status. A command gives
  its exit code, its standard output and the files; messages on standard error are left out. The JSON
  and TOML codecs, the HTTP request and the time zone are parameters.
\<close>

type_synonym cli_outcome = "nat \<times> string \<times> fs"

definition defaultExtrasFile :: string where
  "defaultExtrasFile = ''/mnt/data/router-extras.toml''"

abbreviation nl :: string where "nl \<equiv> [CHR 0x0A]"

subsection \<open>The extras commands\<close>

text \<open>\<open>loadExtras\<close>: \<open>None\<close> is the exit with code 1.\<close>

definition loadExtras :: "(bytes \<Rightarrow> string + extras_config) \<Rightarrow> string \<Rightarrow> fs \<Rightarrow> extras_config option" where
  "loadExtras decode path f =
     (case LoadExtras decode path f of
        Inr e \<Rightarrow> Some e
      | Inl err \<Rightarrow> if err = ErrOpenNotExist then Some zero_extras else None)"

text \<open>\<open>saveExtras\<close> and the message after it.\<close>

definition save_and_say :: "(extras_config \<Rightarrow> string + bytes) \<Rightarrow> string \<Rightarrow> extras_config \<Rightarrow> string \<Rightarrow> fs \<Rightarrow> cli_outcome" where
  "save_and_say encode path e msg f =
     (case Save encode path e f of (None, f') \<Rightarrow> (0, msg, f') | (Some err, f') \<Rightarrow> (1, [], f'))"

definition runExtrasSetReservation ::
  "(bytes \<Rightarrow> string + extras_config) \<Rightarrow> (extras_config \<Rightarrow> string + bytes) \<Rightarrow> string \<Rightarrow> string list \<Rightarrow> fs \<Rightarrow> cli_outcome" where
  "runExtrasSetReservation decode encode file' args f =
     (case args of
        [mac, a] \<Rightarrow>
          (case loadExtras decode file' f of
             None \<Rightarrow> (1, [], f)
           | Some e \<Rightarrow>
             (case SetReservation mac a e of (err, e') \<Rightarrow>
              if err = Some ErrNotModified then (0, ''reservation for '' @ mac @ '' unchanged ('' @ a @ '')'' @ nl, f)
              else save_and_say encode file' e' (''reservation set: '' @ mac @ '' -> '' @ a @ nl) f))
      | _ \<Rightarrow> (1, [], f))"

definition runExtrasRemoveReservation ::
  "(bytes \<Rightarrow> string + extras_config) \<Rightarrow> (extras_config \<Rightarrow> string + bytes) \<Rightarrow> string \<Rightarrow> string list \<Rightarrow> fs \<Rightarrow> cli_outcome" where
  "runExtrasRemoveReservation decode encode file' args f =
     (case args of
        [mac] \<Rightarrow>
          (case loadExtras decode file' f of
             None \<Rightarrow> (1, [], f)
           | Some e \<Rightarrow>
             (case RemoveReservation mac e of (err, e') \<Rightarrow>
              if err = Some ErrNotModified then (0, ''no reservation found for '' @ mac @ nl, f)
              else save_and_say encode file' e' (''reservation removed: '' @ mac @ nl) f))
      | _ \<Rightarrow> (1, [], f))"

definition runExtrasSetMacImage ::
  "(bytes \<Rightarrow> string + extras_config) \<Rightarrow> (extras_config \<Rightarrow> string + bytes) \<Rightarrow> string \<Rightarrow> string list \<Rightarrow> fs \<Rightarrow> cli_outcome" where
  "runExtrasSetMacImage decode encode file' args f =
     (case args of
        [mac, img] \<Rightarrow>
          (case loadExtras decode file' f of
             None \<Rightarrow> (1, [], f)
           | Some e \<Rightarrow>
             (case SetMacImage mac img e of (err, e') \<Rightarrow>
              if err = Some ErrNotModified then (0, ''mac image for '' @ mac @ '' unchanged ('' @ img @ '')'' @ nl, f)
              else save_and_say encode file' e' (''mac image set: '' @ mac @ '' -> '' @ img @ nl) f))
      | _ \<Rightarrow> (1, [], f))"

definition runExtrasRemoveMacImage ::
  "(bytes \<Rightarrow> string + extras_config) \<Rightarrow> (extras_config \<Rightarrow> string + bytes) \<Rightarrow> string \<Rightarrow> string list \<Rightarrow> fs \<Rightarrow> cli_outcome" where
  "runExtrasRemoveMacImage decode encode file' args f =
     (case args of
        [mac] \<Rightarrow>
          (case loadExtras decode file' f of
             None \<Rightarrow> (1, [], f)
           | Some e \<Rightarrow>
             (case RemoveMacImage mac e of (err, e') \<Rightarrow>
              if err = Some ErrNotModified then (0, ''no mac image found for '' @ mac @ nl, f)
              else save_and_say encode file' e' (''mac image removed: '' @ mac @ nl) f))
      | _ \<Rightarrow> (1, [], f))"

definition list_section :: "string \<Rightarrow> (string \<times> string) list \<Rightarrow> string" where
  "list_section title kvs =
     (if kvs = [] then []
      else title @ nl @ concat (map (\<lambda>(k, v). ''  '' @ k @ '' = '' @ v @ nl) kvs) @ nl)"

definition runExtrasList :: "(bytes \<Rightarrow> string + extras_config) \<Rightarrow> string \<Rightarrow> fs \<Rightarrow> cli_outcome" where
  "runExtrasList decode file' f =
     (case loadExtras decode file' f of
        None \<Rightarrow> (1, [], f)
      | Some e \<Rightarrow>
        if entries (Extras_Reservations e) = [] \<and> entries (Extras_MacImages e) = [] \<and> Extras_SMBUsers e = []
        then (0, ''(empty)'' @ nl, f)
        else (0, list_section ''[reservations]'' (entries (Extras_Reservations e)) @
                 list_section ''[macImages]'' (entries (Extras_MacImages e)) @
                 list_section ''[[smbUsers]]'' (map (\<lambda>u. (''name'', SMBUser_Name u)) (Extras_SMBUsers e)), f))"

definition extras_command ::
  "(bytes \<Rightarrow> string + extras_config) \<Rightarrow> (extras_config \<Rightarrow> string + bytes) \<Rightarrow> string \<Rightarrow> string list \<Rightarrow> fs \<Rightarrow> cli_outcome" where
  "extras_command decode encode file' args f =
     (case args of
        [] \<Rightarrow> (1, [], f)
      | cmd # subArgs \<Rightarrow>
        if cmd = ''list'' then runExtrasList decode file' f
        else if cmd = ''set-reservation'' then runExtrasSetReservation decode encode file' subArgs f
        else if cmd = ''remove-reservation'' then runExtrasRemoveReservation decode encode file' subArgs f
        else if cmd = ''set-mac-image'' then runExtrasSetMacImage decode encode file' subArgs f
        else if cmd = ''remove-mac-image'' then runExtrasRemoveMacImage decode encode file' subArgs f
        else (1, [], f))"

definition runExtras ::
  "(bytes \<Rightarrow> string + extras_config) \<Rightarrow> (extras_config \<Rightarrow> string + bytes) \<Rightarrow> string list \<Rightarrow> fs \<Rightarrow> cli_outcome" where
  "runExtras decode encode args f =
     (case args of
        [] \<Rightarrow> (1, [], f)
      | a # as \<Rightarrow>
        if a = ''--file''
        then (case as of [] \<Rightarrow> (1, [], f) | path # rest \<Rightarrow> extras_command decode encode path rest f)
        else extras_command decode encode defaultExtrasFile (a # as) f)"

subsection \<open>Exporting the known addresses\<close>

definition export_client :: "client_info \<Rightarrow> client list" where
  "export_client c =
     (if CI_MAC c = [] then []
      else
        (let via = (if CI_Via c = ''W'' then ''wifi'' else if CI_Via c = ''L'' then ''lan'' else CI_Via c)
         in [\<lparr>Client_MAC = CI_MAC c, Client_VLAN = 0,
              Client_Name = (if CI_IP c \<noteq> [] then CI_IP c @ '' ('' @ via @ '')'' else []), Client_Hostname = []\<rparr>]))"

text \<open>The map file that is written; \<open>None\<close> is the exit with code 1.\<close>

definition export_map :: "(bytes \<Rightarrow> string + map_file) \<Rightarrow> fs \<Rightarrow> client_info list \<Rightarrow> string \<Rightarrow> map_file option" where
  "export_map Unmarshal f cs mergeFile =
     (let current = \<lparr>MapFile_DefaultVLAN = 0, MapFile_Clients = concat (map export_client cs)\<rparr> in
      if mergeFile \<noteq> []
      then (case macmap_Load Unmarshal mergeFile f of
              Inl e \<Rightarrow> None | Inr existing \<Rightarrow> Some (macmap_Merge existing current))
      else Some (current\<lparr>MapFile_DefaultVLAN := 1\<rparr>))"

definition exportMACMap ::
  "(bytes \<Rightarrow> string + map_file) \<Rightarrow> (map_file \<Rightarrow> string + bytes) \<Rightarrow> fs \<Rightarrow> client_info list \<Rightarrow> string \<Rightarrow> nat \<times> bytes" where
  "exportMACMap Unmarshal Marshal f cs mergeFile =
     (case export_map Unmarshal f cs mergeFile of
        None \<Rightarrow> (1, [])
      | Some mf \<Rightarrow> (case macmap_Encode Marshal mf of Inl e \<Rightarrow> (1, []) | Inr b \<Rightarrow> (0, b)))"

subsection \<open>Formatting\<close>

text \<open>The division by a power of two is exact.\<close>

definition humanBytes :: "64 word \<Rightarrow> string" where
  "humanBytes w =
     (let b = uint w; (f, e) = float64_quot b 1 in
      if 2 ^ 30 \<le> b then format_tenths f (e * 2 ^ 30) @ '' GiB''
      else if 2 ^ 20 \<le> b then format_tenths f (e * 2 ^ 20) @ '' MiB''
      else if 2 ^ 10 \<le> b then format_tenths f (e * 2 ^ 10) @ '' KiB''
      else Itoa b @ '' B'')"

definition formatSpeed :: "int \<Rightarrow> string \<Rightarrow> string" where
  "formatSpeed speed duplex =
     (if speed \<le> 0 then ''-'' else Itoa speed @ '' Mbps'' @ (if duplex \<noteq> [] then ''/'' @ duplex else []))"

text \<open>A rate is a non-negative float64, given as a fraction.\<close>

definition humanRate :: "int \<times> int \<Rightarrow> string" where
  "humanRate r =
     (case r of (n, d) \<Rightarrow>
      if n < d then ''0 B/s''
      else if 2 ^ 30 * d \<le> n then format_tenths n (d * 2 ^ 30) @ '' GiB/s''
      else if 2 ^ 20 * d \<le> n then format_tenths n (d * 2 ^ 20) @ '' MiB/s''
      else if 2 ^ 10 * d \<le> n then format_tenths n (d * 2 ^ 10) @ '' KiB/s''
      else format_units n d @ '' B/s'')"

text \<open>\<open>float64(kbps) / 1000\<close> with one decimal; the sign is printed even if the digits are all zero.\<close>

definition kbps_quot :: "int \<Rightarrow> int \<times> int" where
  "kbps_quot kbps = (case float64_quot \<bar>kbps\<bar> 1 of (f, e) \<Rightarrow> float64_quot f (e * 1000))"

definition format_mbps :: "int \<Rightarrow> string" where
  "format_mbps kbps = (if kbps < 0 then ''-'' else []) @ (case kbps_quot kbps of (n, d) \<Rightarrow> format_tenths n d)"

definition formatLinkRate :: "int \<Rightarrow> int \<Rightarrow> string" where
  "formatLinkRate txKbps rxKbps =
     (if txKbps \<le> 0 \<and> rxKbps \<le> 0 then ''-''
      else if sgn txKbps = sgn rxKbps \<and> kbps_quot txKbps = kbps_quot rxKbps then format_mbps txKbps @ '' Mbps''
      else format_mbps txKbps @ ''/'' @ format_mbps rxKbps @ '' Mbps'')"

definition formatSignal :: "int \<Rightarrow> string" where
  "formatSignal dBm = (if dBm = 0 then ''-'' else Itoa dBm @ '' dBm'')"

subsection \<open>Tables\<close>

text \<open>
  \<open>text/tabwriter\<close> with a padding of two blanks, for rows of equal length whose cells hold no tabs and
  line breaks: each cell but the last is padded to the width of its column in runes.
\<close>

definition rune_count :: "string \<Rightarrow> nat" where
  "rune_count s = length (filter (\<lambda>c. \<not> (128 \<le> code_of c \<and> code_of c < 192)) s)"

definition pad_cell :: "nat \<Rightarrow> string \<Rightarrow> string" where
  "pad_cell w s = s @ replicate (w - rune_count s) (CHR 0x20)"

fun column_widths :: "string list list \<Rightarrow> nat list" where
  "column_widths [] = []"
| "column_widths [r] = map (\<lambda>c. rune_count c + 2) r"
| "column_widths (r # rs) = map2 max (map (\<lambda>c. rune_count c + 2) r) (column_widths rs)"

definition table_line :: "nat list \<Rightarrow> string list \<Rightarrow> string" where
  "table_line ws cells = concat (map2 pad_cell ws (butlast cells)) @ last cells @ nl"

definition tabwriter :: "string list list \<Rightarrow> string" where
  "tabwriter rows = concat (map (table_line (column_widths rows)) rows)"

subsection \<open>The status command\<close>

definition port_row :: "port_info \<Rightarrow> string list" where
  "port_row p = (let c = PI_Counters p in
     [PI_Name p, PI_MAC p, formatSpeed (PI_Speed p) (PI_Duplex p), humanBytes (PC_RxBytes c), humanBytes (PC_TxBytes c),
      Itoa (uint (PC_RxPkts c)), Itoa (uint (PC_TxPkts c))])"

definition port_rows :: "port_info \<Rightarrow> string list list" where
  "port_rows p = (if 0 < length (PI_Sub p) then map port_row (PI_Sub p) else [port_row p])"

text \<open>The rate of a client, as the sampler computes it: \<open>float64(delta) / dt.Seconds()\<close>.\<close>

definition Seconds :: "duration \<Rightarrow> int \<times> int" where
  "Seconds d = (let s = d div Second; (a, b) = float64_quot (d mod Second) Second in float64_quot (s * b + a) b)"

definition rate_value :: "(u64 \<times> duration) option \<Rightarrow> int \<times> int" where
  "rate_value r =
     (case r of
        None \<Rightarrow> (0, 1)
      | Some (delta, dt) \<Rightarrow> (let (f, e) = float64_quot (uint delta) 1; (n, d) = Seconds dt in float64_quot (f * d) (e * n)))"

definition connected_row :: "client_info \<Rightarrow> string list" where
  "connected_row c =
     [if CI_Via c = [] then ''?'' else CI_Via c, CI_IP c, CI_MAC c,
      humanRate (rate_value (map_option cr_RxRate (CI_Rates c))), humanRate (rate_value (map_option cr_TxRate (CI_Rates c))),
      formatLinkRate (CI_LinkTxRate c) (CI_LinkRxRate c), formatSignal (CI_Signal c),
      humanBytes (CI_RxBytes c), humanBytes (CI_TxBytes c), humanBytes (CI_TotalRxBytes c), humanBytes (CI_TotalTxBytes c)]"

definition disconnected_row :: "(instant \<Rightarrow> string) \<Rightarrow> client_info \<Rightarrow> string list" where
  "disconnected_row zone c =
     [if CI_Via c = [] then ''?'' else CI_Via c, CI_IP c, CI_MAC c, humanBytes (CI_TotalRxBytes c),
      humanBytes (CI_TotalTxBytes c), zone (CI_LastSeen c)]"

definition wifi_note :: string where
  "wifi_note = nl @ ''NOTE: WiFi is in routed mode (separate subnet). LAN and WiFi'' @ nl @
     ''      clients can reach each other '' @ [CHR 0xE2, CHR 0x80, CHR 0x94] @ '' no inter-subnet firewall'' @ nl @
     ''      rules are configured.'' @ nl"

definition client_tables :: "(instant \<Rightarrow> string) \<Rightarrow> client_info list \<Rightarrow> string" where
  "client_tables zone cs =
     (let connected = filter CI_Connected cs; disconnected = filter (\<lambda>c. \<not> CI_Connected c) cs in
      nl @ ''CONNECTED CLIENTS'' @ nl @
      (if connected = [] then ''  (none)'' @ nl
       else tabwriter ([''VIA'', ''IP'', ''MAC'', ''UL RATE'', ''DL RATE'', ''LINK'', ''SIGNAL'', ''UL'', ''DL'', ''TOTAL UL'', ''TOTAL DL''] #
              map connected_row connected) @
            (if list_ex (\<lambda>c. CI_Via c = ''W'') connected then wifi_note else [])) @
      (if disconnected = [] then []
       else nl @ ''DISCONNECTED CLIENTS (historical)'' @ nl @
            tabwriter ([''VIA'', ''IP'', ''MAC'', ''TOTAL UL'', ''TOTAL DL'', ''LAST SEEN''] # map (disconnected_row zone) disconnected)))"

definition status_text :: "(instant \<Rightarrow> string) \<Rightarrow> status \<Rightarrow> string" where
  "status_text zone s =
     tabwriter ([''IFACE'', ''MAC'', ''SPEED'', ''RX'', ''TX'', ''RX PKTS'', ''TX PKTS''] # concat (map port_rows (ST_Ports s))) @
     (if 0 < length (ST_Clients s) then client_tables zone (ST_Clients s) else nl @ ''No clients connected.'' @ nl)"

subsection \<open>Flags\<close>

record status_flags =
  flag_host :: string
  flag_json :: bool
  flag_exportTOML :: bool
  flag_merge :: string

definition ParseBool :: "string \<Rightarrow> bool option" where
  "ParseBool s =
     (if s \<in> {''1'', ''t'', ''T'', ''true'', ''TRUE'', ''True''} then Some True
      else if s \<in> {''0'', ''f'', ''F'', ''false'', ''FALSE'', ''False''} then Some False else None)"

text \<open>
  \<open>flag.Parse\<close> with \<open>ExitOnError\<close> on the four flags: the exit code, or the flags. Parsing ends at the first
  argument that is not a flag, or after \<open>--\<close>.
\<close>

fun parse_flags :: "string list \<Rightarrow> status_flags \<Rightarrow> nat + status_flags" where
  "parse_flags [] fl = Inr fl"
| "parse_flags (a # as) fl =
     (if length a < 2 \<or> hd a \<noteq> CHR ''-'' then Inr fl
      else if a = ''--'' then Inr fl
      else
        (let name0 = (if a ! 1 = CHR ''-'' then drop 2 a else drop 1 a) in
         if name0 = [] \<or> hd name0 = CHR ''-'' \<or> hd name0 = CHR ''='' then Inl 2
         else
           (case Cut CHR ''='' name0 of (name, value, hasValue) \<Rightarrow>
            if name \<in> {''json'', ''export-toml''} then
              (case (if hasValue then ParseBool value else Some True) of
                 None \<Rightarrow> Inl 2
               | Some b \<Rightarrow> parse_flags as (if name = ''json'' then fl\<lparr>flag_json := b\<rparr> else fl\<lparr>flag_exportTOML := b\<rparr>))
            else if name \<in> {''host'', ''merge''} then
              (let set = (\<lambda>v. if name = ''host'' then fl\<lparr>flag_host := v\<rparr> else fl\<lparr>flag_merge := v\<rparr>) in
               if hasValue then parse_flags as (set value)
               else (case as of [] \<Rightarrow> Inl 2 | v # as' \<Rightarrow> parse_flags as' (set v)))
            else if name \<in> {''help'', ''h''} then Inl 0
            else Inl 2)))"

text \<open>
  \<open>runStatus\<close>: the exit code and the output. \<open>get\<close> is \<open>http.Get\<close> and reading the body; the codecs are
  those of the status report and of map files.
\<close>

record cli_codecs =
  cc_get :: "string \<Rightarrow> bytes option"
  cc_decode :: "bytes \<Rightarrow> string + status"
  cc_encode :: "status \<Rightarrow> string"
  cc_unmarshal :: "bytes \<Rightarrow> string + map_file"
  cc_marshal :: "map_file \<Rightarrow> string + bytes"
  cc_zone :: "instant \<Rightarrow> string"

definition runStatus :: "cli_codecs \<Rightarrow> string list \<Rightarrow> fs \<Rightarrow> nat \<times> string" where
  "runStatus w args f =
     (case parse_flags args \<lparr>flag_host = ''10.0.0.1:8080'', flag_json = False, flag_exportTOML = False, flag_merge = []\<rparr> of
        Inl code \<Rightarrow> (code, [])
      | Inr fl \<Rightarrow>
        (case cc_get w (''http://'' @ flag_host fl @ ''/status'') of
           None \<Rightarrow> (1, [])
         | Some body \<Rightarrow>
           (case cc_decode w body of
              Inl e \<Rightarrow> (1, [])
            | Inr s \<Rightarrow>
              if flag_exportTOML fl
              then (case exportMACMap (cc_unmarshal w) (cc_marshal w) f (ST_Clients s) (flag_merge fl) of
                      (code, b) \<Rightarrow> (code, string_of_bytes b))
              else if flag_json fl then (0, cc_encode w s)
              else (0, status_text (cc_zone w) s))))"

definition cli_main ::
  "cli_codecs \<Rightarrow> (bytes \<Rightarrow> string + extras_config) \<Rightarrow> (extras_config \<Rightarrow> string + bytes) \<Rightarrow> string list \<Rightarrow> fs \<Rightarrow> cli_outcome" where
  "cli_main w decode encode args f =
     (case args of
        [] \<Rightarrow> (1, [], f)
      | cmd # rest \<Rightarrow>
        if cmd = ''status'' then (case runStatus w rest f of (code, out) \<Rightarrow> (code, out, f))
        else if cmd = ''extras'' then runExtras decode encode rest f
        else (1, [], f))"

end
