(* ===== verification/Router_CLI_Props.thy ===== *)
theory Router_CLI_Props
  imports Router_CLI Config_Props Macmap_Props
begin

section \<open>Properties of the command line tool\<close>

text \<open>
  A command that fails leaves every file as it was, an edit is found by the next command; and which
  exported map files can be loaded again.
\<close>

subsection \<open>The extras commands\<close>

lemma Save_fails: "Save encode path e f = (Some err, f') \<Longrightarrow> f' = f"
  by (auto simp: Save_def WriteFile_def Let_def split: sum.splits if_splits)

lemma save_fails: "save_and_say encode path e msg f = (code, out, f') \<Longrightarrow> code \<noteq> 0 \<Longrightarrow> f' = f"
  by (auto simp: save_and_say_def dest: Save_fails split: prod.splits option.splits)

lemma set_reservation_fails:
  "runExtrasSetReservation decode encode p args f = (code, out, f') \<Longrightarrow> code \<noteq> 0 \<Longrightarrow> f' = f"
  by (auto simp: runExtrasSetReservation_def dest: save_fails
      split: list.splits option.splits prod.splits if_splits)

lemma remove_reservation_fails:
  "runExtrasRemoveReservation decode encode p args f = (code, out, f') \<Longrightarrow> code \<noteq> 0 \<Longrightarrow> f' = f"
  by (auto simp: runExtrasRemoveReservation_def dest: save_fails
      split: list.splits option.splits prod.splits if_splits)

lemma set_image_fails:
  "runExtrasSetMacImage decode encode p args f = (code, out, f') \<Longrightarrow> code \<noteq> 0 \<Longrightarrow> f' = f"
  by (auto simp: runExtrasSetMacImage_def dest: save_fails
      split: list.splits option.splits prod.splits if_splits)

lemma remove_image_fails:
  "runExtrasRemoveMacImage decode encode p args f = (code, out, f') \<Longrightarrow> code \<noteq> 0 \<Longrightarrow> f' = f"
  by (auto simp: runExtrasRemoveMacImage_def dest: save_fails
      split: list.splits option.splits prod.splits if_splits)

lemma list_keeps: "runExtrasList decode p f = (code, out, f') \<Longrightarrow> f' = f"
  by (auto simp: runExtrasList_def split: option.splits if_splits)

lemmas command_fails =
  set_reservation_fails remove_reservation_fails set_image_fails remove_image_fails list_keeps

lemma extras_command_fails: "extras_command decode encode p args f = (code, out, f') \<Longrightarrow> code \<noteq> 0 \<Longrightarrow> f' = f"
  unfolding extras_command_def by (auto split: list.splits if_splits dest: command_fails)

lemma runExtras_fails: "runExtras decode encode args f = (code, out, f') \<Longrightarrow> code \<noteq> 0 \<Longrightarrow> f' = f"
  unfolding runExtras_def by (auto split: list.splits if_splits dest: extras_command_fails)

lemma save_loads:
  assumes "\<And>e b. encode e = Inr b \<Longrightarrow> decode b = Inr e" and "save_and_say encode path e msg f = (0, out, f')"
  shows "loadExtras decode path f' = Some e"
  using assms
  by (auto simp: save_and_say_def Save_def WriteFile_def loadExtras_def LoadExtras_def Let_def
      split: prod.splits option.splits sum.splits if_splits)

definition set_reservation_args :: "string \<Rightarrow> string \<Rightarrow> string \<Rightarrow> string list" where
  "set_reservation_args path mac a = [''--file'', path, ''set-reservation'', mac, a]"

lemma run_set_reservation:
  "runExtras decode encode (set_reservation_args path mac a) f = runExtrasSetReservation decode encode path [mac, a] f"
  by (simp add: set_reservation_args_def runExtras_def extras_command_def)



subsection \<open>The export\<close>

text \<open>The addresses that the status reports are normalised: it prints hardware addresses.\<close>

definition reported_ok :: "client_info list \<Rightarrow> bool" where
  "reported_ok cs \<longleftrightarrow> (\<forall>c \<in> set cs. CI_MAC c \<noteq> [] \<longrightarrow> macmap_normalizeMAC (CI_MAC c) = Some (CI_MAC c))"

lemma export_macs: "map Client_MAC (concat (map export_client cs)) = filter (\<lambda>m. m \<noteq> []) (map CI_MAC cs)"
  by (induction cs) (auto simp: export_client_def Let_def)

lemma export_wf: "reported_ok cs \<Longrightarrow> \<forall>c \<in> set (concat (map export_client cs)). client_wf c"
  by (auto simp: reported_ok_def export_client_def client_wf_def Let_def split: if_splits)

lemma macmap_validate_wf:
  "macmap_Parse U data = Inr mf \<longleftrightarrow> map_wf mf" if "U data = Inr mf"
  using that Parse_wf wf_Parse by blast

text \<open>
  C40: An export merged into a map file loads again, keeps the clients of that file and adds every
  reported address. An export without a merge loads exactly if no address is reported twice: the
  status lists one entry per IP address, so that a client that has had two addresses makes the
  exported file invalid.
\<close>

theorem export_loadable:
  assumes "reported_ok cs" and "export_map Unmarshal f cs mergeFile = Some mf" and "Decode b = Inr mf"
  shows "(mergeFile \<noteq> [] \<longrightarrow> (\<exists>old. macmap_Load Unmarshal mergeFile f = Inr old \<and> macmap_Parse Decode b = Inr mf \<and>
      take (length (MapFile_Clients old)) (MapFile_Clients mf) = MapFile_Clients old \<and>
      (\<forall>c \<in> set cs. CI_MAC c \<noteq> [] \<longrightarrow> CI_MAC c \<in> Client_MAC ` set (MapFile_Clients mf)))) \<and>
    (mergeFile = [] \<longrightarrow> (macmap_Parse Decode b = Inr mf \<longleftrightarrow> distinct (filter (\<lambda>m. m \<noteq> []) (map CI_MAC cs))))"
proof (intro conjI impI)
  let ?new = "\<lparr>MapFile_DefaultVLAN = 0, MapFile_Clients = concat (map export_client cs)\<rparr>"
  assume "mergeFile \<noteq> []"
  then obtain old where old: "macmap_Load Unmarshal mergeFile f = Inr old" and mf: "mf = macmap_Merge old ?new"
    using assms(2) by (auto simp: export_map_def Let_def split: sum.splits)
  have wf: "map_wf old"
    using old Parse_wf by (auto simp: macmap_Load_def split: open_result.splits)
  have new_wf: "\<forall>c \<in> set (MapFile_Clients ?new). client_wf c"
    using export_wf [OF assms(1)] by simp
  then have "map_wf mf"
    unfolding mf by (rule Merge_wf [OF wf])
  then have parse: "macmap_Parse Decode b = Inr mf"
    by (rule wf_Parse) (rule assms(3))
  have "CI_MAC c \<in> Client_MAC ` set (MapFile_Clients mf)" if "c \<in> set cs" "CI_MAC c \<noteq> []" for c
  proof -
    have "CI_MAC c \<in> set (map Client_MAC (MapFile_Clients ?new))"
      using that export_macs [of cs] by simp
    then have "CI_MAC c \<in> Client_MAC ` set (MapFile_Clients ?new)" by (simp only: set_map)
    then obtain x where "CI_MAC c = Client_MAC x" "x \<in> set (MapFile_Clients ?new)" by (rule imageE)
    moreover have lower: "\<forall>c \<in> set (MapFile_Clients ?new). ToLower (Client_MAC c) = Client_MAC c"
      using new_wf normalized_lower unfolding client_wf_def by blast
    ultimately have "Client_MAC x \<in> Client_MAC ` set (merge_clients (map Client_MAC (MapFile_Clients old))
        (MapFile_Clients old) (MapFile_Clients ?new))"
      by (intro merge_has) auto
    then show ?thesis
      using \<open>CI_MAC c = Client_MAC x\<close> by (simp add: mf macmap_Merge_def)
  qed
  moreover have "take (length (MapFile_Clients old)) (MapFile_Clients mf) = MapFile_Clients old"
    unfolding mf macmap_Merge_def by (subst merge_clients_front) simp
  ultimately show "\<exists>old. macmap_Load Unmarshal mergeFile f = Inr old \<and> macmap_Parse Decode b = Inr mf \<and>
      take (length (MapFile_Clients old)) (MapFile_Clients mf) = MapFile_Clients old \<and>
      (\<forall>c \<in> set cs. CI_MAC c \<noteq> [] \<longrightarrow> CI_MAC c \<in> Client_MAC ` set (MapFile_Clients mf))"
    using old parse by blast
next
  assume "mergeFile = []"
  then have mf: "mf = \<lparr>MapFile_DefaultVLAN = 1, MapFile_Clients = concat (map export_client cs)\<rparr>"
    using assms(2) by (simp add: export_map_def)
  have "map_wf mf \<longleftrightarrow> distinct (filter (\<lambda>m. m \<noteq> []) (map CI_MAC cs))"
    using export_wf [OF assms(1)] unfolding map_wf_def mf by (simp add: export_macs)
  then show "macmap_Parse Decode b = Inr mf \<longleftrightarrow> distinct (filter (\<lambda>m. m \<noteq> []) (map CI_MAC cs))"
    using macmap_validate_wf [of Decode b, OF assms(3)] by simp
qed

definition demo_report :: "client_info list" where
  "demo_report = map (\<lambda>i. \<lparr>CI_IP = i, CI_MAC = ''aa:bb:cc:dd:ee:ff'', CI_Via = ''L'', CI_Connected = False, CI_TxBytes = 0,
     CI_RxBytes = 0, CI_TxPkts = 0, CI_RxPkts = 0, CI_Rates = None, CI_LinkTxRate = 0, CI_LinkRxRate = 0, CI_Signal = 0,
     CI_TotalTxBytes = 0, CI_TotalRxBytes = 0, CI_TotalTxPkts = 0, CI_TotalRxPkts = 0, CI_FirstSeen = 0, CI_LastSeen = 0\<rparr>)
     [''10.0.0.5'', ''10.0.0.6'']"

definition demo_no_files :: fs where
  "demo_no_files = \<lparr>fs_open = (\<lambda>_. FileNotExist), fs_writable = (\<lambda>_. True)\<rparr>"

theorem export_loadable_witness:
  "\<exists>mf. export_map (\<lambda>_. Inr demo_map) demo_no_files demo_report [] = Some mf \<and> macmap_Parse (\<lambda>_. Inr mf) [] \<noteq> Inr mf"
proof -
  have ok: "reported_ok demo_report"
  proof -
    have "macmap_normalizeMAC ''aa:bb:cc:dd:ee:ff'' = Some ''aa:bb:cc:dd:ee:ff''" by code_simp
    then show ?thesis by (simp add: reported_ok_def demo_report_def)
  qed
  obtain mf where mf: "export_map (\<lambda>_. Inr demo_map) demo_no_files demo_report [] = Some mf"
    by (simp add: export_map_def)
  have "\<not> distinct (filter (\<lambda>m. m \<noteq> []) (map CI_MAC demo_report))" by (simp add: demo_report_def)
  then show ?thesis
    using export_loadable [OF ok mf, of "\<lambda>_. Inr mf" "[]"] mf by blast
qed

subsection \<open>The tables\<close>

definition plain_cell :: "string \<Rightarrow> bool" where
  "plain_cell s \<longleftrightarrow> list_all (\<lambda>c. code_of c < 128 \<and> c \<noteq> CHR 0x09 \<and> c \<noteq> CHR 0x0A) s"

lemma rune_count_plain: "plain_cell s \<Longrightarrow> rune_count s = length s"
  by (induction s) (simp_all add: plain_cell_def rune_count_def)

lemma column_widths_cover:
  assumes "rows \<noteq> []" and "\<forall>r \<in> set rows. length r = n"
  shows "length (column_widths rows) = n \<and> (\<forall>r \<in> set rows. \<forall>j < n. rune_count (r ! j) + 2 \<le> column_widths rows ! j)"
  using assms
proof (induction rows rule: column_widths.induct)
  case (3 r r' rs)
  then have IH: "length (column_widths (r' # rs)) = n"
    "\<forall>r \<in> set (r' # rs). \<forall>j < n. rune_count (r ! j) + 2 \<le> column_widths (r' # rs) ! j" by simp_all
  have "length r = n" using 3 by simp
  with IH(1) have nth: "column_widths (r # r' # rs) ! j = max (rune_count (r ! j) + 2) (column_widths (r' # rs) ! j)" if "j < n" for j
    using that by simp
  show ?case
  proof (intro conjI ballI allI impI)
    show "length (column_widths (r # r' # rs)) = n" using IH(1) \<open>length r = n\<close> by simp
    fix x j assume x: "x \<in> set (r # r' # rs)" and j: "j < n"
    show "rune_count (x ! j) + 2 \<le> column_widths (r # r' # rs) ! j"
    proof (cases "x = r")
      case False
      then have "rune_count (x ! j) + 2 \<le> column_widths (r' # rs) ! j" using x j IH(2) by (auto simp del: column_widths.simps)
      then show ?thesis unfolding nth [OF j] by simp
    qed (simp add: nth [OF j] del: column_widths.simps)
  qed
qed auto

lemma take_block:
  assumes "map length bs = take (length bs) ws" and "j < length bs" and "length bs \<le> length ws"
  shows "take (ws ! j) (drop (sum_list (take j ws)) (concat bs @ rest)) = bs ! j"
  using assms
proof (induction bs arbitrary: ws j)
  case (Cons b bs)
  then obtain w ws' where ws: "ws = w # ws'" by (cases ws) auto
  then show ?case using Cons by (cases j) auto
qed simp

text \<open>
  The columns of a table line up: in every row, the cell of a column starts at the same position and is
  followed by at least two blanks.
\<close>

lemma table_columns_aligned:
  assumes "\<forall>r \<in> set rows. length r = n \<and> list_all plain_cell r" and "r \<in> set rows" and "Suc j < n"
  shows "\<exists>k\<ge>2. take (column_widths rows ! j) (drop (sum_list (take j (column_widths rows))) (table_line (column_widths rows) r)) =
    r ! j @ replicate k (CHR 0x20)"
proof -
  let ?ws = "column_widths rows"
  have ws: "length ?ws = n" "rune_count (x ! i) + 2 \<le> ?ws ! i" if "x \<in> set rows" "i < n" for x i
    using column_widths_cover [of rows n] assms(1,2) that by fastforce+
  have n: "length ?ws = n" using column_widths_cover [of rows n] assms(1,2) by fastforce
  have r: "length r = n" "\<forall>c \<in> set r. plain_cell c" using assms(1,2) by (auto simp: list_all_iff)
  define bs where "bs = map2 pad_cell ?ws (butlast r)"
  have len: "length bs = n - 1" using n r by (simp add: bs_def)
  have cell: "bs ! i = pad_cell (?ws ! i) (r ! i)" if "i < n - 1" for i using that n r by (simp add: bs_def nth_butlast)
  have "length (bs ! i) = ?ws ! i" if "i < n - 1" for i
  proof -
    have "rune_count (r ! i) = length (r ! i)" using r that by (intro rune_count_plain) simp
    moreover have "i < n" using that by simp
    ultimately show ?thesis using ws(2) [OF assms(2), of i] unfolding cell [OF that] by (simp add: pad_cell_def)
  qed
  then have "map length bs = take (length bs) ?ws"
    unfolding list_eq_iff_nth_eq using n len by simp
  moreover have j: "j < n - 1" using assms(3) by simp
  ultimately have "take (?ws ! j) (drop (sum_list (take j ?ws)) (table_line ?ws r)) = bs ! j"
    unfolding table_line_def bs_def [symmetric] by (intro take_block) (simp_all add: len n)
  then have "take (?ws ! j) (drop (sum_list (take j ?ws)) (table_line ?ws r)) = pad_cell (?ws ! j) (r ! j)"
    unfolding cell [OF j] .
  moreover have "2 \<le> ?ws ! j - rune_count (r ! j)" using ws(2) [OF assms(2), of j] assms(3) by simp
  ultimately show ?thesis by (auto simp: pad_cell_def)
qed

end
