(* ===== verification/Milkv.thy ===== *)
theory Milkv
  imports DHCP Mount Go_Path
begin

unbundle bit_operations_syntax

section \<open>The USB network daemon (cmd/milkv-usbnet)\<close>

text \<open>
  \<open>cmd/milkv-usbnet/main.go\<close>: the GPIO registers of the board, the LED that shows the progress of
  the boot, the USB gadget in configfs and the DHCP server on \<open>usb0\<close>. The state holds the mapped
  registers and the trace of what the daemon did; an environment answers the system calls. \<open>None\<close>
  is a panic, or a wait that does not end.
\<close>

subsection \<open>Registers\<close>

text \<open>\<open>binary.LittleEndian.Uint32\<close> and \<open>PutUint32\<close> on the slice from \<open>off\<close> on.\<close>

definition LittleEndian_Uint32 :: "bytes \<Rightarrow> 32 word option" where
  "LittleEndian_Uint32 b = (if length b < 4 then None else
     Some (ucast (b ! 0) OR push_bit 8 (ucast (b ! 1)) OR push_bit 16 (ucast (b ! 2)) OR push_bit 24 (ucast (b ! 3))))"

definition LittleEndian_bytes32 :: "32 word \<Rightarrow> bytes" where
  "LittleEndian_bytes32 v = [ucast v, ucast (drop_bit 8 v), ucast (drop_bit 16 v), ucast (drop_bit 24 v)]"

definition put_reg :: "bytes \<Rightarrow> nat \<Rightarrow> 32 word \<Rightarrow> bytes" where
  "put_reg regs off v = take off regs @ LittleEndian_bytes32 v @ drop (off + 4) regs"

definition gpioSWPortData :: nat where "gpioSWPortData = 0"
definition gpioSWPortDDR :: nat where "gpioSWPortDDR = 4"

definition gpioSetOutput :: "bytes \<Rightarrow> nat \<Rightarrow> bytes option" where
  "gpioSetOutput regs offset =
     do { dir \<leftarrow> LittleEndian_Uint32 (drop gpioSWPortDDR regs);
          Some (put_reg regs gpioSWPortDDR (dir OR push_bit offset 1)) }"

definition gpioSetValue :: "bytes \<Rightarrow> nat \<Rightarrow> bool \<Rightarrow> bytes option" where
  "gpioSetValue regs offset val =
     do { data \<leftarrow> LittleEndian_Uint32 (drop gpioSWPortData regs);
          Some (put_reg regs gpioSWPortData
            (if val then data OR push_bit offset 1 else data AND NOT (push_bit offset 1))) }"

subsection \<open>The daemon\<close>

datatype usb_effect =
    LedSet bool | Slept duration | MadeDir string | WroteSys string string | Unlinked string
  | Linked string string | RanIP "string list"

text \<open>\<open>usb_led\<close>: the registers of port C are mapped (\<open>ledRegs\<close> is not nil).\<close>

record usb =
  usb_portB :: bytes
  usb_portC :: bytes
  usb_led :: bool
  usb_trace :: "usb_effect list"

text \<open>
  The answers of the system: whether a region can be mapped, a directory made, a file written or a
  link created; whether a name exists; the contents of \<open>UDC\<close>; the entries of \<open>/sys/class/udc\<close>; the
  matches of a pattern; whether a command succeeds; and the clock and the interface at each poll.
\<close>

record usb_env =
  ue_mmap :: "nat \<Rightarrow> bool"
  ue_mkdir :: "string \<Rightarrow> bool"
  ue_write :: "string \<Rightarrow> string \<Rightarrow> bool"
  ue_lstat :: "string \<Rightarrow> bool"
  ue_symlink :: "string \<Rightarrow> string \<Rightarrow> bool"
  ue_stat_udc :: bool
  ue_read_udc :: "string option"
  ue_udcs :: "string list option"
  ue_glob :: "string \<Rightarrow> string list option"
  ue_run :: "string list \<Rightarrow> bool"
  ue_start :: instant
  ue_now :: "nat \<Rightarrow> instant"
  ue_iface :: "string \<Rightarrow> nat \<Rightarrow> bool"

datatype usb_error =
    UsbMkdir string | UsbWrite string | UsbSymlink string | UsbFindUDC | UsbInterface | UsbAddr | UsbLinkUp

definition note_effect :: "usb_effect \<Rightarrow> usb \<Rightarrow> usb" where
  "note_effect e m = m\<lparr>usb_trace := usb_trace m @ [e]\<rparr>"

definition portbBase :: nat where "portbBase = 50466816"
definition portcBase :: nat where "portcBase = 50470912"
definition ledBit :: nat where "ledBit = 24"

definition initLED :: "usb_env \<Rightarrow> usb \<Rightarrow> (bool \<times> usb) option" where
  "initLED w m =
     (if \<not> ue_mmap w portcBase then Some (False, m)
      else do { regs \<leftarrow> gpioSetOutput (usb_portC m) ledBit;
                Some (True, m\<lparr>usb_portC := regs, usb_led := True\<rparr>) })"

text \<open>\<open>ledOn\<close> and \<open>ledOff\<close>.\<close>

definition led_set :: "bool \<Rightarrow> usb \<Rightarrow> usb option" where
  "led_set v m =
     (if \<not> usb_led m then Some m
      else do { regs \<leftarrow> gpioSetValue (usb_portC m) ledBit v;
                Some (note_effect (LedSet v) (m\<lparr>usb_portC := regs\<rparr>)) })"

definition led_pulse :: "duration \<Rightarrow> duration \<Rightarrow> usb \<Rightarrow> usb option" where
  "led_pulse on off m =
     do { m1 \<leftarrow> led_set True m; m2 \<leftarrow> led_set False (note_effect (Slept on) m1);
          Some (note_effect (Slept off) m2) }"

abbreviation Millisecond :: duration where "Millisecond \<equiv> 1000000"

fun ledBlink :: "nat \<Rightarrow> usb \<Rightarrow> usb option" where
  "ledBlink 0 m = Some m"
| "ledBlink (Suc n) m = do { m1 \<leftarrow> led_pulse (150 * Millisecond) (150 * Millisecond) m; ledBlink n m1 }"

fun ledLongBlink :: "nat \<Rightarrow> usb \<Rightarrow> usb option" where
  "ledLongBlink 0 m = Some m"
| "ledLongBlink (Suc n) m = do { m1 \<leftarrow> led_pulse (600 * Millisecond) (300 * Millisecond) m; ledLongBlink n m1 }"

text \<open>\<open>os.WriteFile\<close>; an error leaves no effect.\<close>

definition write_sys :: "usb_env \<Rightarrow> string \<Rightarrow> string \<Rightarrow> usb \<Rightarrow> bool \<times> usb" where
  "write_sys w path value m = (if ue_write w path value then (True, note_effect (WroteSys path value) m) else (False, m))"

definition setupUSBHub :: "usb_env \<Rightarrow> usb \<Rightarrow> (bool \<times> usb) option" where
  "setupUSBHub w m =
     (if \<not> ue_mmap w portbBase then Some (False, m)
      else do {
        r1 \<leftarrow> gpioSetOutput (usb_portB m) 1;
        r2 \<leftarrow> gpioSetOutput r1 2;
        r3 \<leftarrow> gpioSetOutput r2 3;
        r4 \<leftarrow> gpioSetValue r3 1 True;
        r5 \<leftarrow> gpioSetValue r4 2 False;
        r6 \<leftarrow> gpioSetValue r5 3 False;
        Some (True, snd (write_sys w ''/proc/cviusb/otg_role'' (''device'' @ [CHR 0x0A]) (m\<lparr>usb_portB := r6\<rparr>))) })"

text \<open>A pattern without matches and an error of \<open>Glob\<close> lead to the next pattern.\<close>

definition setDWC2Peripheral :: "usb_env \<Rightarrow> usb \<Rightarrow> usb" where
  "setDWC2Peripheral w m =
     (let glob = (\<lambda>p. case ue_glob w p of None \<Rightarrow> [] | Some ms \<Rightarrow> ms);
          m1 = glob ''/sys/devices/platform/*/dwc2*/mode'';
          m2 = (if m1 = [] then glob ''/sys/devices/platform/soc/*/dwc2*/mode'' else m1);
          ms = (if m2 = [] then glob ''/sys/devices/platform/*/usb/mode'' else m2)
      in case ms of [] \<Rightarrow> m | p # _ \<Rightarrow> snd (write_sys w p ''peripheral'' m))"

subsection \<open>The gadget\<close>

definition gadgetPath :: string where "gadgetPath = ''/sys/kernel/config/usb_gadget/gokrazy''"

definition path_Dir :: "string \<Rightarrow> string" where
  "path_Dir p = Clean (rev (dropWhile (\<lambda>c. c \<noteq> sep) (rev p)))"

definition findUDC :: "usb_env \<Rightarrow> string option" where
  "findUDC w = (case ue_udcs w of None \<Rightarrow> None | Some es \<Rightarrow> (case es of [] \<Rightarrow> None | e # _ \<Rightarrow> Some e))"

text \<open>
  \<open>os.MkdirAll\<close>, \<open>writeFile\<close> and \<open>symlink\<close>, with the error that the caller wraps. The error of
  \<open>os.Remove\<close> is ignored: the trace records the attempt.
\<close>

definition mkdir_all :: "usb_env \<Rightarrow> string \<Rightarrow> usb \<Rightarrow> usb_error option \<times> usb" where
  "mkdir_all w path m =
     (if ue_mkdir w path then (None, note_effect (MadeDir path) m) else (Some (UsbMkdir path), m))"

definition writeFile :: "usb_env \<Rightarrow> string \<Rightarrow> string \<Rightarrow> usb \<Rightarrow> usb_error option \<times> usb" where
  "writeFile w path value m =
     (case mkdir_all w (path_Dir path) m of
        (Some e, m1) \<Rightarrow> (Some e, m1)
      | (None, m1) \<Rightarrow> (case write_sys w path value m1 of (ok, m2) \<Rightarrow> (if ok then None else Some (UsbWrite path), m2)))"

definition symlink :: "usb_env \<Rightarrow> string \<Rightarrow> string \<Rightarrow> usb \<Rightarrow> usb_error option \<times> usb" where
  "symlink w oldname newname m =
     (let m1 = (if ue_lstat w newname then note_effect (Unlinked newname) m else m)
      in if ue_symlink w oldname newname then (None, note_effect (Linked oldname newname) m1)
         else (Some (UsbSymlink newname), m1))"

text \<open>The steps of \<open>setupUSBGadget\<close> up to the first that fails; the error of one of them is ignored.\<close>

datatype gadget_step = MkdirStep string | MkdirTry string | WriteStep string string | LinkStep string string

fun run_step :: "usb_env \<Rightarrow> gadget_step \<Rightarrow> usb \<Rightarrow> usb_error option \<times> usb" where
  "run_step w (MkdirStep p) m = mkdir_all w p m"
| "run_step w (MkdirTry p) m = (None, snd (mkdir_all w p m))"
| "run_step w (WriteStep p v) m = writeFile w p v m"
| "run_step w (LinkStep a b) m = symlink w a b m"

fun run_steps :: "usb_env \<Rightarrow> gadget_step list \<Rightarrow> usb \<Rightarrow> usb_error option \<times> usb" where
  "run_steps w [] m = (None, m)"
| "run_steps w (s # ss) m =
     (case run_step w s m of (Some e, m1) \<Rightarrow> (Some e, m1) | (None, m1) \<Rightarrow> run_steps w ss m1)"

definition gadget_steps :: "gadget_step list" where
  "gadget_steps =
     (let g = path_Join gadgetPath; line = (\<lambda>s. s @ [CHR 0x0A]) in
      [MkdirStep gadgetPath,
       WriteStep (g ''idVendor'') (line ''0x3346''),
       WriteStep (g ''idProduct'') (line ''0x100C''),
       MkdirStep (g ''strings/0x409''),
       WriteStep (g ''strings/0x409/manufacturer'') (line ''gokrazy''),
       WriteStep (g ''strings/0x409/product'') (line ''Milk-V Duo USB Ethernet''),
       WriteStep (g ''strings/0x409/serialnumber'') (line ''0000000001''),
       MkdirStep (g ''functions/ecm.usb0''),
       MkdirStep (g ''configs/c.1''),
       MkdirTry (g ''configs/c.1/strings/0x409''),
       WriteStep (g ''configs/c.1/strings/0x409/configuration'') (line ''ECM''),
       WriteStep (g ''configs/c.1/MaxPower'') (line ''120''),
       LinkStep (g ''functions/ecm.usb0'') (path_Join (g ''configs/c.1'') ''ecm.usb0'')])"

definition udcPath :: string where "udcPath = path_Join gadgetPath ''UDC''"

definition gadget_active :: "usb_env \<Rightarrow> bool" where
  "gadget_active w = (ue_stat_udc w \<and> (case ue_read_udc w of None \<Rightarrow> False | Some d \<Rightarrow> TrimSpace d \<noteq> []))"

definition setupUSBGadget :: "usb_env \<Rightarrow> usb \<Rightarrow> usb_error option \<times> usb" where
  "setupUSBGadget w m =
     (if gadget_active w then (None, m)
      else (case run_steps w gadget_steps m of
          (Some e, m1) \<Rightarrow> (Some e, m1)
        | (None, m1) \<Rightarrow>
          (case findUDC w of
             None \<Rightarrow> (Some UsbFindUDC, m1)
           | Some udc \<Rightarrow> writeFile w udcPath (udc @ [CHR 0x0A]) m1)))"

subsection \<open>The network and the boot sequence\<close>

definition usb_waitForInterface :: "usb_env \<Rightarrow> string \<Rightarrow> duration \<Rightarrow> bool option" where
  "usb_waitForInterface w name timeout = poll_loop (ue_now w) (ue_iface w name) (ue_start w + timeout) 0"

definition run_ip :: "usb_env \<Rightarrow> string list \<Rightarrow> usb \<Rightarrow> bool \<times> usb" where
  "run_ip w args m = (ue_run w args, note_effect (RanIP args) m)"

definition bringUpInterface :: "usb_env \<Rightarrow> string \<Rightarrow> string \<Rightarrow> usb \<Rightarrow> usb_error option \<times> usb" where
  "bringUpInterface w ifc cidr m =
     (case run_ip w [''ip'', ''addr'', ''add'', cidr, ''dev'', ifc] m of
        (ok, m1) \<Rightarrow>
          if \<not> ok then (Some UsbAddr, m1)
          else (case run_ip w [''ip'', ''link'', ''set'', ifc, ''up''] m1 of
                  (ok2, m2) \<Rightarrow> (if ok2 then None else Some UsbLinkUp, m2)))"

text \<open>How \<open>main\<close> goes on: a fatal error, or the DHCP server that runs.\<close>

datatype usb_outcome = UsbFatal usb_error | UsbDHCPError dhcp_error | UsbServing server

definition usb_dhcp :: "dhcp_error + server" where
  "usb_dhcp = dhcp_New ''usb0'' ''192.168.42.1/24'' ''192.168.42.2'' ''192.168.42.242''
     [''1.1.1.1'', ''8.8.8.8''] (3600 * Second)"

text \<open>The first part of \<open>main\<close> prepares the board, the second one the gadget and the network.\<close>

definition usb_board :: "usb_env \<Rightarrow> usb \<Rightarrow> usb option" where
  "usb_board w m0 =
     do {
       m1 \<leftarrow> ledBlink 3 (note_effect (Slept (3 * Second)) m0);
       (led, m2) \<leftarrow> initLED w m1;
       m3 \<leftarrow> (if led then ledBlink 5 m2 else Some m2);
       (hub, m4) \<leftarrow> setupUSBHub w m3;
       (if hub then ledLongBlink 1 m4 else Some m4) }"

definition usb_network :: "usb_env \<Rightarrow> usb \<Rightarrow> (usb_outcome \<times> usb) option" where
  "usb_network w m5 =
     (case setupUSBGadget w (setDWC2Peripheral w m5) of
        (Some e, m6) \<Rightarrow> Some (UsbFatal e, m6)
      | (None, m6) \<Rightarrow> do {
          m7 \<leftarrow> ledLongBlink 2 m6;
          there \<leftarrow> usb_waitForInterface w ''usb0'' (10 * Second);
          if \<not> there then Some (UsbFatal UsbInterface, m7)
          else (case bringUpInterface w ''usb0'' ''192.168.42.1/24'' m7 of
              (Some e, m8) \<Rightarrow> Some (UsbFatal e, m8)
            | (None, m8) \<Rightarrow>
              (case usb_dhcp of
                 Inl e \<Rightarrow> Some (UsbDHCPError e, m8)
               | Inr srv \<Rightarrow> do {
                   m9 \<leftarrow> ledLongBlink 3 m8;
                   m10 \<leftarrow> led_set True m9;
                   Some (UsbServing srv, m10) })) })"

definition usb_main :: "usb_env \<Rightarrow> usb \<Rightarrow> (usb_outcome \<times> usb) option" where
  "usb_main w m0 = do { m5 \<leftarrow> usb_board w m0; usb_network w m5 }"

end
