(* ===== verification/Milkv_Props.thy ===== *)
theory Milkv_Props
  imports Milkv Mount_Props
begin

section \<open>Properties of the USB network daemon\<close>

text \<open>
  The registers after an operation, the gadget that is complete before it is bound, and the boot
  sequence as a whole with what the LED shows.
\<close>

subsection \<open>Registers\<close>

definition reg :: "bytes \<Rightarrow> nat \<Rightarrow> 32 word" where
  "reg regs off = (case LittleEndian_Uint32 (drop off regs) of Some v \<Rightarrow> v | None \<Rightarrow> 0)"

lemma Uint32_bytes32 [simp]: "LittleEndian_Uint32 (LittleEndian_bytes32 v @ r) = Some v"
proof -
  let ?w = "(ucast (ucast v :: byte) OR push_bit 8 (ucast (ucast (drop_bit 8 v) :: byte)) OR
     push_bit 16 (ucast (ucast (drop_bit 16 v) :: byte)) OR push_bit 24 (ucast (ucast (drop_bit 24 v) :: byte))) :: 32 word"
  have "bit ?w n = bit v n" if "n < 32" for n
  proof -
    consider "n < 8" | "8 \<le> n" "n < 16" | "16 \<le> n" "n < 24" | "24 \<le> n" using that by linarith
    then show ?thesis
      using that by cases (auto simp: bit_simps less_diff_conv2)
  qed
  then have "?w = v" by (intro bit_word_eqI) simp
  then show ?thesis by (simp add: LittleEndian_Uint32_def LittleEndian_bytes32_def)
qed

lemma length_bytes32 [simp]: "length (LittleEndian_bytes32 v) = 4"
  by (simp add: LittleEndian_bytes32_def)

lemma length_put_reg [simp]: "off + 4 \<le> length regs \<Longrightarrow> length (put_reg regs off v) = length regs"
  by (simp add: put_reg_def)

lemma reg_put_reg [simp]: "off + 4 \<le> length regs \<Longrightarrow> reg (put_reg regs off v) off = v"
  by (simp add: reg_def put_reg_def)

lemma Uint32_take: "LittleEndian_Uint32 (take 4 b) = LittleEndian_Uint32 b"
  by (cases "length b < 4") (simp_all add: LittleEndian_Uint32_def)

lemma reg_put_other: "8 \<le> length regs \<Longrightarrow> reg (put_reg regs 0 v) 4 = reg regs 4"
  "8 \<le> length regs \<Longrightarrow> reg (put_reg regs 4 v) 0 = reg regs 0"
proof -
  assume l: "8 \<le> length regs"
  then show "reg (put_reg regs 0 v) 4 = reg regs 4" by (simp add: reg_def put_reg_def)
  have "take 4 (put_reg regs 4 v) = take 4 regs" using l by (simp add: put_reg_def)
  then show "reg (put_reg regs 4 v) 0 = reg regs 0"
    using Uint32_take [of regs] Uint32_take [of "put_reg regs 4 v"] by (simp add: reg_def)
qed

lemma drop_put_reg: "8 \<le> length regs \<Longrightarrow> off \<in> {0, 4} \<Longrightarrow> drop 8 (put_reg regs off v) = drop 8 regs"
  by (auto simp: put_reg_def)

lemma Uint32_reg: "off + 4 \<le> length regs \<Longrightarrow> LittleEndian_Uint32 (drop off regs) = Some (reg regs off)"
  by (simp add: reg_def LittleEndian_Uint32_def)

definition with_bit :: "32 word \<Rightarrow> nat \<Rightarrow> bool \<Rightarrow> 32 word" where
  "with_bit x n v = (if v then x OR push_bit n 1 else x AND NOT (push_bit n 1))"

lemma bit_with_bit [simp]: "n < 32 \<Longrightarrow> bit (with_bit x n v) k = (if k = n then v else bit x k)"
  by (auto simp: with_bit_def bit_simps dest: bit_imp_le_length)

lemma SetOutput_reg: "8 \<le> length regs \<Longrightarrow> gpioSetOutput regs n = Some (put_reg regs 4 (with_bit (reg regs 4) n True))"
  by (simp add: gpioSetOutput_def gpioSWPortDDR_def Uint32_reg with_bit_def)

lemma SetValue_reg: "8 \<le> length regs \<Longrightarrow> gpioSetValue regs n v = Some (put_reg regs 0 (with_bit (reg regs 0) n v))"
  using Uint32_reg [of 0 regs] by (simp add: gpioSetValue_def gpioSWPortData_def with_bit_def)

text \<open>The hub: its three lines are outputs, its port is powered, in device mode and out of reset.\<close>

definition hub_ready :: "bytes \<Rightarrow> bytes \<Rightarrow> bool" where
  "hub_ready old regs \<longleftrightarrow> length regs = length old \<and> drop 8 regs = drop 8 old \<and>
     (\<forall>k. bit (reg regs 4) k \<longleftrightarrow> bit (reg old 4) k \<or> k \<in> {1, 2, 3}) \<and>
     (\<forall>k. bit (reg regs 0) k \<longleftrightarrow> k = 1 \<or> bit (reg old 0) k \<and> k \<notin> {2, 3})"

lemma hub_registers:
  assumes "8 \<le> length (usb_portB m)" and "ue_mmap w portbBase"
  obtains m' where "setupUSBHub w m = Some (True, m')" "hub_ready (usb_portB m) (usb_portB m')"
    "usb_portC m' = usb_portC m" "usb_led m' = usb_led m" "\<exists>fx. usb_trace m' = usb_trace m @ fx \<and> LedSet True \<notin> set fx"
proof -
  let ?b = "usb_portB m"
  define d where "d = put_reg (put_reg (put_reg ?b 4 (with_bit (reg ?b 4) 1 True))
     4 (with_bit (with_bit (reg ?b 4) 1 True) 2 True)) 4 (with_bit (with_bit (with_bit (reg ?b 4) 1 True) 2 True) 3 True)"
  have l: "length d = length ?b" "8 \<le> length d" using assms(1) by (simp_all add: d_def)
  have d4: "reg d 4 = with_bit (with_bit (with_bit (reg ?b 4) 1 True) 2 True) 3 True" and d0: "reg d 0 = reg ?b 0"
    and d8: "drop 8 d = drop 8 ?b"
    using assms(1) by (simp_all add: d_def reg_put_other drop_put_reg)
  define r where "r = put_reg (put_reg (put_reg d 0 (with_bit (reg d 0) 1 True)) 0 (with_bit (with_bit (reg d 0) 1 True) 2 False))
     0 (with_bit (with_bit (with_bit (reg d 0) 1 True) 2 False) 3 False)"
  let ?m = "snd (write_sys w ''/proc/cviusb/otg_role'' (''device'' @ [CHR 0x0A]) (m\<lparr>usb_portB := r\<rparr>))"
  have "setupUSBHub w m = Some (True, ?m)"
    using assms l by (simp add: setupUSBHub_def SetOutput_reg SetValue_reg d_def r_def)
  moreover have "hub_ready ?b (usb_portB ?m)"
  proof -
    have "length r = length ?b" "drop 8 r = drop 8 ?b" using l d8 by (simp_all add: r_def drop_put_reg)
    moreover have "reg r 4 = reg d 4" "reg r 0 = with_bit (with_bit (with_bit (reg d 0) 1 True) 2 False) 3 False"
      using l by (simp_all add: r_def reg_put_other)
    ultimately show ?thesis
      by (auto simp: hub_ready_def write_sys_def note_effect_def d4 d0)
  qed
  ultimately show thesis
    by (rule that) (auto simp: write_sys_def note_effect_def)
qed

subsection \<open>The gadget\<close>

fun step_effects :: "gadget_step \<Rightarrow> usb_effect set" where
  "step_effects (MkdirStep p) = {MadeDir p}"
| "step_effects (MkdirTry p) = {MadeDir p}"
| "step_effects (WriteStep p v) = {MadeDir (path_Dir p), WroteSys p v}"
| "step_effects (LinkStep a b) = {Unlinked b, Linked a b}"

fun step_done :: "usb_effect list \<Rightarrow> gadget_step \<Rightarrow> bool" where
  "step_done tr (MkdirStep p) \<longleftrightarrow> MadeDir p \<in> set tr"
| "step_done tr (MkdirTry p) \<longleftrightarrow> True"
| "step_done tr (WriteStep p v) \<longleftrightarrow> WroteSys p v \<in> set tr"
| "step_done tr (LinkStep a b) \<longleftrightarrow> Linked a b \<in> set tr"

text \<open>\<open>m'\<close> is \<open>m\<close> after the effects \<open>tr\<close>.\<close>

abbreviation traced :: "usb \<Rightarrow> usb_effect list \<Rightarrow> usb" where
  "traced m tr \<equiv> m\<lparr>usb_trace := usb_trace m @ tr\<rparr>"

lemmas gadget_defs = mkdir_all_def writeFile_def symlink_def write_sys_def note_effect_def Let_def

lemma writeFile_trace:
  "writeFile w p v m = (e, m') \<Longrightarrow> \<exists>tr. m' = traced m tr \<and> set tr \<subseteq> {MadeDir (path_Dir p), WroteSys p v} \<and>
     (e = None \<longleftrightarrow> tr = [MadeDir (path_Dir p), WroteSys p v]) \<and> (WroteSys p v \<in> set tr \<longrightarrow> e = None)"
  by (auto simp: gadget_defs split: if_splits intro: exI [of _ "[]"])

lemma run_step_trace:
  assumes "run_step w s m = (e, m')"
  shows "\<exists>tr. m' = traced m tr \<and> set tr \<subseteq> step_effects s \<and> (e = None \<longrightarrow> step_done tr s)"
proof (cases s)
  case (WriteStep p v)
  then show ?thesis using writeFile_trace [of w p v m e m'] assms by auto
qed (use assms in \<open>auto simp: gadget_defs split: if_splits intro: exI [of _ "[]"]\<close>)

lemma step_done_mono: "step_done tr s \<Longrightarrow> set tr \<subseteq> set tr' \<Longrightarrow> step_done tr' s"
  by (cases s) auto

lemma run_steps_trace:
  "run_steps w ss m = (e, m') \<Longrightarrow>
     \<exists>tr. m' = traced m tr \<and> set tr \<subseteq> \<Union> (step_effects ` set ss) \<and> (e = None \<longrightarrow> (\<forall>s \<in> set ss. step_done tr s))"
proof (induction ss arbitrary: m)
  case Nil
  then show ?case by (auto intro: exI [of _ "[]"])
next
  case (Cons s ss)
  obtain e1 m1 where one: "run_step w s m = (e1, m1)" by fastforce
  then obtain t1 where t1: "m1 = traced m t1" "set t1 \<subseteq> step_effects s" "e1 = None \<longrightarrow> step_done t1 s"
    using run_step_trace by blast
  show ?case
  proof (cases e1)
    case None
    then have "run_steps w ss m1 = (e, m')" using Cons.prems one by simp
    from Cons.IH [OF this] obtain t2 where t2: "m' = traced m1 t2" "set t2 \<subseteq> \<Union> (step_effects ` set ss)"
      "e = None \<longrightarrow> (\<forall>s \<in> set ss. step_done t2 s)" by blast
    have "step_done (t1 @ t2) x" if "e = None" "x \<in> set (s # ss)" for x
      using that t1(3) t2(3) None step_done_mono [of t1 x "t1 @ t2"] step_done_mono [of t2 x "t1 @ t2"] by auto
    then show ?thesis
      using t1(1,2) t2(1,2) by (intro exI [of _ "t1 @ t2"]) auto
  next
    case (Some x)
    then show ?thesis using Cons.prems one t1 by (intro exI [of _ t1]) auto
  qed
qed

lemma udc_not_configured: "list_all (\<lambda>s. case s of WriteStep p v \<Rightarrow> p \<noteq> udcPath | _ \<Rightarrow> True) gadget_steps"
  by code_simp

lemma no_udc_write: "s \<in> set gadget_steps \<Longrightarrow> WroteSys udcPath v \<notin> step_effects s"
  using udc_not_configured by (cases s) (auto simp: list_all_iff)


text \<open>When the gadget is set up without an error.\<close>

fun step_ok :: "usb_env \<Rightarrow> gadget_step \<Rightarrow> bool" where
  "step_ok w (MkdirStep p) \<longleftrightarrow> ue_mkdir w p"
| "step_ok w (MkdirTry p) \<longleftrightarrow> True"
| "step_ok w (WriteStep p v) \<longleftrightarrow> ue_mkdir w (path_Dir p) \<and> ue_write w p v"
| "step_ok w (LinkStep a b) \<longleftrightarrow> ue_symlink w a b"

definition gadget_ok :: "usb_env \<Rightarrow> bool" where
  "gadget_ok w \<longleftrightarrow> gadget_active w \<or> list_all (step_ok w) gadget_steps \<and>
     (\<exists>udc. findUDC w = Some udc \<and> step_ok w (WriteStep udcPath (udc @ [CHR 0x0A])))"

lemma run_step_ok: "fst (run_step w s m) = None \<longleftrightarrow> step_ok w s"
  by (cases s) (auto simp: gadget_defs)

lemma run_steps_ok: "fst (run_steps w ss m) = None \<longleftrightarrow> list_all (step_ok w) ss"
proof (induction ss arbitrary: m)
  case (Cons s ss)
  show ?case
    using run_step_ok [of w s m] Cons.IH by (cases "run_step w s m") (auto split: option.splits)
qed simp

lemma setupUSBGadget_ok: "fst (setupUSBGadget w m) = None \<longleftrightarrow> gadget_ok w"
proof -
  obtain e1 m1 where steps: "run_steps w gadget_steps m = (e1, m1)" by fastforce
  then have e1: "e1 = None \<longleftrightarrow> list_all (step_ok w) gadget_steps" using run_steps_ok [of w gadget_steps m] by simp
  have last: "fst (writeFile w p v m1) = None \<longleftrightarrow> step_ok w (WriteStep p v)" for p v
    using run_step_ok [of w "WriteStep p v" m1] by simp
  show ?thesis
  proof (cases "gadget_active w \<or> e1 \<noteq> None")
    case True
    then show ?thesis using steps e1 by (auto simp: setupUSBGadget_def gadget_ok_def)
  next
    case False
    then have "gadget_ok w \<longleftrightarrow> (\<exists>udc. findUDC w = Some udc \<and> step_ok w (WriteStep udcPath (udc @ [CHR 0x0A])))"
      using e1 by (simp add: gadget_ok_def)
    moreover have "setupUSBGadget w m = (case findUDC w of None \<Rightarrow> (Some UsbFindUDC, m1)
        | Some udc \<Rightarrow> writeFile w udcPath (udc @ [CHR 0x0A]) m1)"
      using False steps by (simp add: setupUSBGadget_def)
    ultimately show ?thesis using last by (cases "findUDC w") simp_all
  qed
qed

text \<open>At an example: every call succeeds, and the first of two controllers is taken.\<close>

definition demo_usb_env :: usb_env where
  "demo_usb_env = \<lparr>ue_mmap = (\<lambda>_. True), ue_mkdir = (\<lambda>_. True), ue_write = (\<lambda>_ _. True), ue_lstat = (\<lambda>_. False),
     ue_symlink = (\<lambda>_ _. True), ue_stat_udc = False, ue_read_udc = None, ue_udcs = Some [''musb0'', ''musb1''],
     ue_glob = (\<lambda>_. None), ue_run = (\<lambda>_. True), ue_start = 0, ue_now = (\<lambda>i. int i * 200000000), ue_iface = (\<lambda>_ i. i = 3)\<rparr>"

definition demo_usb :: usb where
  "demo_usb = \<lparr>usb_portB = replicate 12 0, usb_portC = replicate 12 0, usb_led = False, usb_trace = []\<rparr>"

lemma demo_gadget_ok: "gadget_ok demo_usb_env"
proof -
  have "list_all (step_ok demo_usb_env) ss" for ss
    unfolding list_all_iff
  proof
    show "step_ok demo_usb_env s" for s by (cases s) (simp_all add: demo_usb_env_def)
  qed
  then show ?thesis by (simp add: gadget_ok_def findUDC_def) (simp add: demo_usb_env_def)
qed


subsection \<open>The LED\<close>

definition pulses :: "usb \<Rightarrow> nat" where
  "pulses m = length (filter (\<lambda>e. e = LedSet True) (usb_trace m))"

text \<open>\<open>blinked m n m'\<close>: the LED was switched on \<open>n\<close> times, and of the registers only its bit may have changed.\<close>

definition only_led :: "bytes \<Rightarrow> bytes \<Rightarrow> bool" where
  "only_led regs regs' \<longleftrightarrow> length regs' = length regs \<and> drop 8 regs' = drop 8 regs \<and>
     (\<forall>k. k \<noteq> ledBit \<longrightarrow> bit (reg regs' 0) k = bit (reg regs 0) k \<and> bit (reg regs' 4) k = bit (reg regs 4) k)"

definition blinked :: "usb \<Rightarrow> nat \<Rightarrow> usb \<Rightarrow> bool" where
  "blinked m n m' \<longleftrightarrow> only_led (usb_portC m) (usb_portC m') \<and> usb_portB m' = usb_portB m \<and> usb_led m' = usb_led m \<and>
     pulses m' = pulses m + n"

lemma blinked_refl: "blinked m 0 m"
  by (simp add: blinked_def only_led_def)

lemma blinked_trans: "blinked m a m' \<Longrightarrow> blinked m' b m'' \<Longrightarrow> blinked m (a + b) m''"
  by (simp add: blinked_def only_led_def)

lemma blinked_note: "e \<noteq> LedSet True \<Longrightarrow> blinked m 0 (note_effect e m)"
  by (simp add: blinked_def only_led_def note_effect_def pulses_def)

lemma blinked_traced: "LedSet True \<notin> set tr \<Longrightarrow> blinked m 0 (traced m tr)"
  by (auto simp: blinked_def only_led_def pulses_def filter_empty_conv)

lemma led_set_blinked:
  assumes "8 \<le> length (usb_portC m)"
  shows "\<exists>m'. led_set v m = Some m' \<and> blinked m (if v \<and> usb_led m then 1 else 0) m' \<and>
    (usb_led m \<longrightarrow> bit (reg (usb_portC m') 0) ledBit = v)"
proof (cases "usb_led m")
  case True
  let ?r = "put_reg (usb_portC m) 0 (with_bit (reg (usb_portC m) 0) ledBit v)"
  have "led_set v m = Some (note_effect (LedSet v) (m\<lparr>usb_portC := ?r\<rparr>))"
    using True assms by (simp add: led_set_def SetValue_reg)
  moreover have "only_led (usb_portC m) ?r" "bit (reg ?r 0) ledBit = v"
    using assms by (simp_all add: only_led_def reg_put_other drop_put_reg ledBit_def)
  ultimately show ?thesis
    using True by (auto simp: blinked_def note_effect_def pulses_def)
next
  case False
  then show ?thesis by (simp add: led_set_def blinked_refl)
qed

lemma blinked_length: "blinked m n m' \<Longrightarrow> length (usb_portC m') = length (usb_portC m)"
  by (simp add: blinked_def only_led_def)

lemma blinked_led: "blinked m n m' \<Longrightarrow> usb_led m' = usb_led m"
  by (simp add: blinked_def)

lemma led_pulse_blinked:
  assumes "8 \<le> length (usb_portC m)"
  shows "\<exists>m'. led_pulse on off m = Some m' \<and> blinked m (if usb_led m then 1 else 0) m'"
proof -
  from led_set_blinked [OF assms, of True] obtain m1
    where m1: "led_set True m = Some m1" "blinked m (if usb_led m then 1 else 0) m1" by auto
  let ?m2 = "note_effect (Slept on) m1"
  have b2: "blinked m (if usb_led m then 1 else 0) ?m2"
    using blinked_trans [OF m1(2) blinked_note] by simp
  then have "8 \<le> length (usb_portC ?m2)" using assms blinked_length by metis
  from led_set_blinked [OF this, of False] obtain m3 where m3: "led_set False ?m2 = Some m3" "blinked ?m2 0 m3" by auto
  have "blinked m (if usb_led m then 1 else 0) (note_effect (Slept off) m3)"
    using blinked_trans [OF blinked_trans [OF b2 m3(2)] blinked_note] by simp
  then show ?thesis using m1(1) m3(1) by (simp add: led_pulse_def)
qed

lemma blink_blinked:
  "8 \<le> length (usb_portC m) \<Longrightarrow> \<exists>m'. ledBlink n m = Some m' \<and> blinked m (if usb_led m then n else 0) m'"
  "8 \<le> length (usb_portC m) \<Longrightarrow> \<exists>m'. ledLongBlink n m = Some m' \<and> blinked m (if usb_led m then n else 0) m'"
proof -
  have step: "\<exists>m'. Option.bind (led_pulse on off m) f = Some m' \<and>
      blinked m (if usb_led m then Suc n else 0) m'"
    if "8 \<le> length (usb_portC m)" and "\<And>m. 8 \<le> length (usb_portC m) \<Longrightarrow> \<exists>m'. f m = Some m' \<and> blinked m (if usb_led m then n else 0) m'"
    for on off f m and n :: nat
  proof -
    from led_pulse_blinked [OF that(1)] obtain m1
      where m1: "led_pulse on off m = Some m1" "blinked m (if usb_led m then 1 else 0) m1" by blast
    then have "8 \<le> length (usb_portC m1)" using that(1) blinked_length by metis
    from that(2) [OF this] obtain m2 where "f m1 = Some m2" "blinked m1 (if usb_led m1 then n else 0) m2" by blast
    then show ?thesis
      using m1 blinked_trans [OF m1(2)] blinked_led [OF m1(2)] by fastforce
  qed
  show "8 \<le> length (usb_portC m) \<Longrightarrow> \<exists>m'. ledBlink n m = Some m' \<and> blinked m (if usb_led m then n else 0) m'"
  proof (induction n arbitrary: m)
    case (Suc n)
    from step [OF Suc.prems Suc.IH] show ?case by simp
  qed (simp add: blinked_refl)
  show "8 \<le> length (usb_portC m) \<Longrightarrow> \<exists>m'. ledLongBlink n m = Some m' \<and> blinked m (if usb_led m then n else 0) m'"
  proof (induction n arbitrary: m)
    case (Suc n)
    from step [OF Suc.prems Suc.IH] show ?case by simp
  qed (simp add: blinked_refl)
qed

lemma maybe_blink:
  assumes "8 \<le> length (usb_portC m)"
  shows "\<exists>m'. (if b then ledBlink n m else Some m) = Some m' \<and> blinked m (if b \<and> usb_led m then n else 0) m'"
    "\<exists>m'. (if b then ledLongBlink n m else Some m) = Some m' \<and> blinked m (if b \<and> usb_led m then n else 0) m'"
  using blink_blinked [OF assms, of n] blinked_refl [of m] by (cases b; simp)+

subsection \<open>The boot sequence\<close>

lemma only_led_trans: "only_led a b \<Longrightarrow> only_led b c \<Longrightarrow> only_led a c"
  by (simp add: only_led_def)

lemma initLED_result:
  assumes "8 \<le> length (usb_portC m)"
  shows "\<exists>m'. initLED w m = Some (ue_mmap w portcBase, m') \<and> usb_led m' = (ue_mmap w portcBase \<or> usb_led m) \<and>
    only_led (usb_portC m) (usb_portC m') \<and> usb_portB m' = usb_portB m \<and> usb_trace m' = usb_trace m"
proof (cases "ue_mmap w portcBase")
  case True
  let ?r = "put_reg (usb_portC m) 4 (with_bit (reg (usb_portC m) 4) ledBit True)"
  have "only_led (usb_portC m) ?r"
    using assms by (simp add: only_led_def reg_put_other drop_put_reg ledBit_def)
  then show ?thesis
    using True assms by (simp add: initLED_def SetOutput_reg)
next
  case False
  then show ?thesis by (simp add: initLED_def only_led_def)
qed

lemma setupUSBHub_result:
  assumes "8 \<le> length (usb_portB m)"
  shows "\<exists>m'. setupUSBHub w m = Some (ue_mmap w portbBase, m') \<and> usb_led m' = usb_led m \<and> usb_portC m' = usb_portC m \<and>
    (if ue_mmap w portbBase then hub_ready (usb_portB m) (usb_portB m') else usb_portB m' = usb_portB m) \<and> pulses m' = pulses m"
proof (cases "ue_mmap w portbBase")
  case True
  from hub_registers [OF assms this] obtain m' where m': "setupUSBHub w m = Some (True, m')"
    "hub_ready (usb_portB m) (usb_portB m')" "usb_portC m' = usb_portC m" "usb_led m' = usb_led m"
    "\<exists>fx. usb_trace m' = usb_trace m @ fx \<and> LedSet True \<notin> set fx" .
  then have "pulses m' = pulses m" by (auto simp: pulses_def filter_empty_conv)
  with m' True show ?thesis by simp
next
  case False
  then show ?thesis by (simp add: setupUSBHub_def)
qed

lemma usb_board_result:
  assumes "8 \<le> length (usb_portB m0)" and "8 \<le> length (usb_portC m0)" and "\<not> usb_led m0"
  shows "\<exists>m5. usb_board w m0 = Some m5 \<and> usb_led m5 = ue_mmap w portcBase \<and> only_led (usb_portC m0) (usb_portC m5) \<and>
    (if ue_mmap w portbBase then hub_ready (usb_portB m0) (usb_portB m5) else usb_portB m5 = usb_portB m0) \<and>
    pulses m5 = pulses m0 + (if ue_mmap w portcBase then 5 + (if ue_mmap w portbBase then 1 else 0) else 0)"
proof -
  let ?n = "note_effect (Slept (3 * Second)) m0"
  have n: "blinked m0 0 ?n" by (simp add: blinked_note)
  have "8 \<le> length (usb_portC ?n)" using assms(2) by (simp add: note_effect_def)
  from blink_blinked(1) [OF this, of 3] obtain m1 where m1: "ledBlink 3 ?n = Some m1" "blinked ?n 0 m1"
    using assms(3) by (auto simp: note_effect_def)
  then have b1: "blinked m0 0 m1" using blinked_trans [OF n m1(2)] by simp
  have "8 \<le> length (usb_portC m1)" using assms(2) blinked_length [OF b1] by simp
  from initLED_result [OF this, of w] obtain m2 where m2: "initLED w m1 = Some (ue_mmap w portcBase, m2)"
    "usb_led m2 = ue_mmap w portcBase" "only_led (usb_portC m1) (usb_portC m2)" "usb_portB m2 = usb_portB m1"
    "usb_trace m2 = usb_trace m1" using blinked_led [OF b1] assms(3) by auto
  have c2: "only_led (usb_portC m0) (usb_portC m2)" "usb_portB m2 = usb_portB m0" "pulses m2 = pulses m0"
    using b1 m2 only_led_trans by (auto simp: blinked_def pulses_def)
  then have l2: "8 \<le> length (usb_portC m2)" using assms(2) by (simp add: only_led_def)
  from maybe_blink(1) [OF this, of "ue_mmap w portcBase" 5] obtain m3
    where m3: "(if ue_mmap w portcBase then ledBlink 5 m2 else Some m2) = Some m3"
      "blinked m2 (if ue_mmap w portcBase then 5 else 0) m3"
    using m2(2) by auto
  have "8 \<le> length (usb_portB m3)" using m3(2) c2(2) assms(1) by (simp add: blinked_def)
  from setupUSBHub_result [OF this, of w] obtain m4 where m4: "setupUSBHub w m3 = Some (ue_mmap w portbBase, m4)"
    "usb_led m4 = usb_led m3" "usb_portC m4 = usb_portC m3" "pulses m4 = pulses m3"
    "if ue_mmap w portbBase then hub_ready (usb_portB m3) (usb_portB m4) else usb_portB m4 = usb_portB m3" by blast
  have l4: "8 \<le> length (usb_portC m4)" using m4(3) l2 blinked_length [OF m3(2)] by simp
  have led4: "usb_led m4 = ue_mmap w portcBase" using m4(2) blinked_led [OF m3(2)] m2(2) by simp
  from maybe_blink(2) [OF l4, of "ue_mmap w portbBase" 1] obtain m5
    where m5: "(if ue_mmap w portbBase then ledLongBlink 1 m4 else Some m4) = Some m5"
      "blinked m4 (if ue_mmap w portbBase \<and> ue_mmap w portcBase then 1 else 0) m5"
    unfolding led4 by (elim exE conjE) (rule that)
  have "usb_board w m0 = Some m5"
    using m1(1) m2(1) m3(1) m4(1) m5(1) by (simp add: usb_board_def)
  moreover have "only_led (usb_portC m0) (usb_portC m5)"
    using c2(1) m3(2) m4(3) m5(2) only_led_trans unfolding blinked_def by metis
  moreover have "usb_portB m3 = usb_portB m0" "usb_portB m5 = usb_portB m4" "usb_led m5 = usb_led m4"
    "pulses m5 = pulses m0 + (if ue_mmap w portcBase then 5 + (if ue_mmap w portbBase then 1 else 0) else 0)"
    using m3(2) m5(2) m4(4) c2(2,3) by (simp_all add: blinked_def)
  ultimately show ?thesis using m4(5) led4 by (cases "ue_mmap w portbBase") simp_all
qed

lemma setDWC2_blinked: "blinked m 0 (setDWC2Peripheral w m)"
proof -
  have "blinked m 0 (snd (write_sys w p v m))" for p v
    by (simp add: write_sys_def blinked_note blinked_refl)
  then show ?thesis by (auto simp: setDWC2Peripheral_def Let_def blinked_refl split: list.split)
qed

lemma steps_no_led: "LedSet v \<notin> step_effects s"
  by (cases s) auto

lemma gadget_blinked:
  assumes "setupUSBGadget w m = (e, m')"
  shows "blinked m 0 m'"
proof -
  obtain e1 m1 where steps: "run_steps w gadget_steps m = (e1, m1)" by fastforce
  from run_steps_trace [OF this] obtain t1 where t1: "m1 = traced m t1" "set t1 \<subseteq> \<Union> (step_effects ` set gadget_steps)"
    by (elim exE conjE) (rule that)
  have "LedSet True \<notin> set t1" using t1(2) steps_no_led by blast
  then have b1: "blinked m 0 m1" unfolding t1(1) by (rule blinked_traced)
  have "blinked m 0 m2" if "writeFile w p v m1 = (x, m2)" for p v x m2
  proof -
    from writeFile_trace [OF that] obtain t2 where t2: "m2 = traced m1 t2" "set t2 \<subseteq> {MadeDir (path_Dir p), WroteSys p v}"
      by (elim exE conjE) (rule that)
    then have "LedSet True \<notin> set t2" by auto
    then have "blinked m1 0 m2" unfolding t2(1) by (rule blinked_traced)
    with b1 show ?thesis using blinked_trans by fastforce
  qed
  with assms steps b1 show ?thesis
    by (auto simp: setupUSBGadget_def blinked_refl split: if_splits option.splits)
qed

definition network_error :: "usb_error \<Rightarrow> bool" where
  "network_error e \<longleftrightarrow> e \<in> {UsbInterface, UsbAddr, UsbLinkUp}"

lemma run_step_error: "run_step w s m = (Some e, m') \<Longrightarrow> \<not> network_error e"
  by (cases s) (auto simp: gadget_defs network_error_def split: if_splits)

lemma run_steps_error: "run_steps w ss m = (Some e, m') \<Longrightarrow> \<not> network_error e"
  by (induction ss arbitrary: m) (auto dest: run_step_error split: prod.splits option.splits)

lemma gadget_error: "setupUSBGadget w m = (Some e, m') \<Longrightarrow> \<not> network_error e"
  using run_step_error [of w "WriteStep udcPath v" for v]
  by (auto simp: setupUSBGadget_def network_error_def [of UsbFindUDC] dest: run_steps_error split: if_splits option.splits prod.splits)

text \<open>The LED after the hub: how often it goes on before the daemon stops or serves.\<close>

fun stage_pulses :: "usb_outcome \<Rightarrow> nat" where
  "stage_pulses (UsbFatal e) = (if network_error e then 2 else 0)"
| "stage_pulses (UsbDHCPError e) = 2"
| "stage_pulses (UsbServing srv) = 6"

definition usb_in_time :: "usb_env \<Rightarrow> bool" where
  "usb_in_time w \<longleftrightarrow> (\<exists>j. ue_iface w ''usb0'' j \<and> (\<forall>k\<le>j. ue_now w k < ue_start w + 10 * Second))"

abbreviation add_address :: "string list" where
  "add_address \<equiv> [''ip'', ''addr'', ''add'', ''192.168.42.1/24'', ''dev'', ''usb0'']"

abbreviation link_up :: "string list" where
  "link_up \<equiv> [''ip'', ''link'', ''set'', ''usb0'', ''up'']"

lemma bringUp_result:
  "\<exists>m'. bringUpInterface w ''usb0'' ''192.168.42.1/24'' m =
     (if \<not> ue_run w add_address then Some UsbAddr else if \<not> ue_run w link_up then Some UsbLinkUp else None, m') \<and> blinked m 0 m'"
  using blinked_note [of "RanIP add_address" m]
    blinked_trans [OF blinked_note [of "RanIP add_address" m] blinked_note [of "RanIP link_up" "note_effect (RanIP add_address) m"]]
  by (simp add: bringUpInterface_def run_ip_def)

definition usb_srv :: server where
  "usb_srv = (case usb_dhcp of Inr srv \<Rightarrow> srv)"

lemma usb_dhcp_ok: "usb_dhcp = Inr usb_srv"
proof -
  have "case usb_dhcp of Inl _ \<Rightarrow> False | Inr _ \<Rightarrow> True" by code_simp
  moreover have "(case d of Inl _ \<Rightarrow> False | Inr _ \<Rightarrow> True) \<Longrightarrow> d = Inr (case d of Inr srv \<Rightarrow> srv)" for d :: "dhcp_error + server"
    by (cases d) simp_all
  ultimately show ?thesis unfolding usb_srv_def by blast
qed

lemma wait_result:
  assumes "\<And>i. ue_now w i + d \<le> ue_now w (Suc i)" and "0 < d"
  shows "usb_waitForInterface w ''usb0'' (10 * Second) = Some (usb_in_time w)"
  by (simp add: usb_waitForInterface_def usb_in_time_def poll_loop_ends [of "ue_now w" d, OF assms])

lemma usb_network_result:
  assumes "8 \<le> length (usb_portC m5)" and "\<And>i. ue_now w i + d \<le> ue_now w (Suc i)" and "0 < d"
  shows "\<exists>out m. usb_network w m5 = Some (out, m) \<and> blinked m5 (if usb_led m5 then stage_pulses out else 0) m \<and>
    (if gadget_ok w \<and> usb_in_time w \<and> ue_run w add_address \<and> ue_run w link_up
     then out = UsbServing usb_srv \<and> (usb_led m5 \<longrightarrow> bit (reg (usb_portC m) 0) ledBit) else (\<exists>e. out = UsbFatal e))"
proof -
  let ?m = "setDWC2Peripheral w m5"
  obtain e m6 where g: "setupUSBGadget w ?m = (e, m6)" by fastforce
  have b6: "blinked m5 0 m6" using blinked_trans [OF setDWC2_blinked gadget_blinked [OF g]] by simp
  have e: "e = None \<longleftrightarrow> gadget_ok w" using setupUSBGadget_ok [of w ?m] g by simp
  show ?thesis
  proof (cases e)
    case (Some x)
    then have "usb_network w m5 = Some (UsbFatal x, m6)" "\<not> network_error x"
      using g gadget_error by (auto simp: usb_network_def)
    then show ?thesis using b6 Some e by simp
  next
    case None
    have l6: "8 \<le> length (usb_portC m6)" using blinked_length [OF b6] assms(1) by simp
    from blink_blinked(2) [OF this, of 2] obtain m7 where m7: "ledLongBlink 2 m6 = Some m7"
      "blinked m6 (if usb_led m6 then 2 else 0) m7" by blast
    have b7: "blinked m5 (if usb_led m5 then 2 else 0) m7"
      using blinked_trans [OF b6 m7(2)] blinked_led [OF b6] by simp
    from bringUp_result [of w m7] obtain m8 where up: "bringUpInterface w ''usb0'' ''192.168.42.1/24'' m7 =
        (if \<not> ue_run w add_address then Some UsbAddr else if \<not> ue_run w link_up then Some UsbLinkUp else None, m8)"
      "blinked m7 0 m8" by blast
    have b8: "blinked m5 (if usb_led m5 then 2 else 0) m8" using blinked_trans [OF b7 up(2)] by simp
    then have "8 \<le> length (usb_portC m8)" using blinked_length [OF b8] assms(1) by simp
    from blink_blinked(2) [OF this, of 3] obtain m9 where m9: "ledLongBlink 3 m8 = Some m9"
      "blinked m8 (if usb_led m8 then 3 else 0) m9" by blast
    have b9: "blinked m5 (if usb_led m5 then 5 else 0) m9"
      using blinked_trans [OF b8 m9(2)] blinked_led [OF b8] by (simp split: if_splits)
    then have "8 \<le> length (usb_portC m9)" using blinked_length [OF b9] assms(1) by simp
    from led_set_blinked [OF this, of True] obtain m10 where m10: "led_set True m9 = Some m10"
      "blinked m9 (if usb_led m9 then 1 else 0) m10" "usb_led m9 \<longrightarrow> bit (reg (usb_portC m10) 0) ledBit" by auto
    have b10: "blinked m5 (if usb_led m5 then 6 else 0) m10"
      using blinked_trans [OF b9 m10(2)] blinked_led [OF b9] by (simp split: if_splits)
    have wait: "usb_waitForInterface w ''usb0'' 10000000000 = Some (usb_in_time w)"
      using wait_result [of w d, OF assms(2,3)] by simp
    have run: "usb_network w m5 =
       (if \<not> usb_in_time w then Some (UsbFatal UsbInterface, m7)
        else if \<not> ue_run w add_address then Some (UsbFatal UsbAddr, m8)
        else if \<not> ue_run w link_up then Some (UsbFatal UsbLinkUp, m8) else Some (UsbServing usb_srv, m10))"
      using None by (simp add: usb_network_def g m7(1) wait up(1) usb_dhcp_ok m9(1) m10(1))
    have "gadget_ok w" using None e by simp
    then show ?thesis
      using b7 b8 b10 m10(3) blinked_led [OF b9] unfolding run
      by (cases "usb_led m5"; cases "usb_in_time w"; cases "ue_run w add_address"; cases "ue_run w link_up")
        (simp_all add: network_error_def)
  qed
qed

text \<open>
  C14: The boot of the USB daemon always comes to an end: it serves exactly if the gadget can be set
  up, \<open>usb0\<close> appears in time and both commands succeed, and then the server has the addresses
  192.168.42.2 to 192.168.42.242; its creation never fails. The hub is in device mode and no other bit of
  its port changes; on the port of the LED nothing but the bit of the LED changes. The LED goes on
  five times, once for the hub, twice for the gadget and four times at the end: the three blinks
  that announce the start are not visible, for the LED is not mapped yet.
\<close>

theorem usb_boot:
  assumes "8 \<le> length (usb_portB m0)" and "8 \<le> length (usb_portC m0)" and "\<not> usb_led m0" and "usb_trace m0 = []"
    and "\<And>i. ue_now w i + d \<le> ue_now w (Suc i)" and "0 < d"
  shows "\<exists>out m. usb_main w m0 = Some (out, m) \<and>
    (if gadget_ok w \<and> usb_in_time w \<and> ue_run w add_address \<and> ue_run w link_up
     then \<exists>srv. out = UsbServing srv \<and> srv_rangeStart srv = [192, 168, 42, 2] \<and> srv_rangeEnd srv = [192, 168, 42, 242] \<and>
       (ue_mmap w portcBase \<longrightarrow> bit (reg (usb_portC m) 0) ledBit)
     else \<exists>e. out = UsbFatal e) \<and>
    (if ue_mmap w portbBase then hub_ready (usb_portB m0) (usb_portB m) else usb_portB m = usb_portB m0) \<and>
    only_led (usb_portC m0) (usb_portC m) \<and>
    pulses m = (if ue_mmap w portcBase then 5 + (if ue_mmap w portbBase then 1 else 0) + stage_pulses out else 0)"
proof -
  from usb_board_result [OF assms(1-3), of w] obtain m5 where m5: "usb_board w m0 = Some m5"
    "usb_led m5 = ue_mmap w portcBase" "only_led (usb_portC m0) (usb_portC m5)"
    "if ue_mmap w portbBase then hub_ready (usb_portB m0) (usb_portB m5) else usb_portB m5 = usb_portB m0"
    "pulses m5 = pulses m0 + (if ue_mmap w portcBase then 5 + (if ue_mmap w portbBase then 1 else 0) else 0)" by blast
  have "8 \<le> length (usb_portC m5)" using m5(3) assms(2) by (simp add: only_led_def)
  from usb_network_result [OF this, of w d, OF assms(5,6)] obtain out m where net: "usb_network w m5 = Some (out, m)"
    "blinked m5 (if usb_led m5 then stage_pulses out else 0) m"
    "if gadget_ok w \<and> usb_in_time w \<and> ue_run w add_address \<and> ue_run w link_up
     then out = UsbServing usb_srv \<and> (usb_led m5 \<longrightarrow> bit (reg (usb_portC m) 0) ledBit) else (\<exists>e. out = UsbFatal e)" by blast
  have "srv_rangeStart usb_srv = [192, 168, 42, 2] \<and> srv_rangeEnd usb_srv = [192, 168, 42, 242]" by code_simp
  moreover have "pulses m0 = 0" using assms(4) by (simp add: pulses_def)
  moreover have "only_led (usb_portC m0) (usb_portC m)" "usb_portB m = usb_portB m5"
    "pulses m = pulses m5 + (if usb_led m5 then stage_pulses out else 0)"
    using net(2) only_led_trans [OF m5(3)] by (simp_all add: blinked_def)
  moreover have "usb_main w m0 = Some (out, m)" using m5(1) net(1) by (simp add: usb_main_def)
  ultimately show ?thesis
    using m5(2,4,5) net(3) by (intro exI [of _ out] exI [of _ m]) (auto split: if_splits)
qed

theorem usb_boot_witness:
  "\<exists>m srv. usb_main demo_usb_env demo_usb = Some (UsbServing srv, m) \<and> pulses m = 12 \<and> bit (reg (usb_portC m) 0) 24"
proof -
  have "usb_in_time demo_usb_env"
    unfolding usb_in_time_def demo_usb_env_def by (rule exI [of _ 3]) simp
  then show ?thesis
    using demo_gadget_ok usb_boot [of demo_usb demo_usb_env 200000000]
    by (auto simp: demo_usb_def demo_usb_env_def ledBit_def split: if_splits)
qed

end
