(* ===== verification/Daemon.thy ===== *)
theory Daemon
  imports Router WiFi Status SMB Network Mount
begin

section \<open>The services together (cmd/gokrazy-router)\<close>

text \<open>
  The rest of \<open>main\<close> of \<open>cmd/gokrazy-router/main.go\<close>: the order in which the services are started
  and what stops the start, the callbacks between the DHCP servers, the access point and the status
  monitor, and the shutdown. Each callback runs as one operation on the monitor, under its mutex.
\<close>

subsection \<open>Callbacks\<close>

text \<open>\<open>OnLease\<close> and \<open>OnLeaseExpired\<close> of a scope; an error of the monitor is logged.\<close>

definition on_lease_event :: "kernel \<Rightarrow> instant \<Rightarrow> string \<Rightarrow> lease_event \<Rightarrow> monitor \<Rightarrow> monitor" where
  "on_lease_event k now via ev m =
     (case ev of
        LeaseCallback ip mac \<Rightarrow> snd (AddClient k now ip mac via m)
      | LeaseExpiredCallback ip mac \<Rightarrow> snd (RemoveClient k now ip m))"

text \<open>\<open>OnClient\<close> of the access point: a disassociation ends the session of the client.\<close>

definition on_client :: "kernel \<Rightarrow> instant \<Rightarrow> client_event \<Rightarrow> monitor option \<Rightarrow> monitor option" where
  "on_client k now ev mon =
     (if ev_Associated ev then mon else map_option (\<lambda>m. snd (RemoveClientByMAC k now (ev_MAC ev) m)) mon)"

text \<open>\<open>wifiStationAdapter.StationInfoAll\<close>: never a nil slice.\<close>

definition adapt_station :: "station_info \<Rightarrow> wifi_station" where
  "adapt_station s = \<lparr>ws_MAC = sta_MAC s, ws_Signal = sta_Signal s, ws_TxBitrate = sta_TxBitrate s, ws_RxBitrate = sta_RxBitrate s\<rparr>"

definition adapter_StationInfoAll :: "ctrl_error + station_info list \<Rightarrow> wifi_station list option" where
  "adapter_StationInfoAll r = (case r of Inl e \<Rightarrow> None | Inr stations \<Rightarrow> Some (map adapt_station stations))"

subsection \<open>The environment\<close>

record ('s, 'a) daemon_env =
  de_netlink :: "('s, 'a) netlink"
  de_lookup :: "string \<Rightarrow> bool"
  de_flush :: "nft_rule list \<Rightarrow> bool"
  de_kernel :: kernel
  de_addrs :: "string \<Rightarrow> ip list option"
  de_mount :: mount_env
  de_smb :: smb_env
  de_start :: instant
  de_now :: "nat \<Rightarrow> instant"
  de_link :: "string \<Rightarrow> nat \<Rightarrow> bool"
  de_launch :: launch_env
  de_macmap :: "bytes \<Rightarrow> string + map_file"

text \<open>The reasons why \<open>main\<close> ends in \<open>log.Fatalf\<close>, or panics.\<close>

datatype fatal =
    FatalMount mount_error | FatalNet net_error | FatalNAT nat_error | FatalWiFi wifi_error
  | FatalWiFiCIDR | FatalDHCP string | IndexPanic

subsection \<open>The stages of the start\<close>

definition setup_network :: "('s, 'a) netlink \<Rightarrow> config \<Rightarrow> 's \<Rightarrow> net_error option \<times> 's" where
  "setup_network nl c s =
     (if 0 < length (Config_VLANs c)
      then (case vlan_Setup nl (Config_VLANs c) s of (Inl e, s') \<Rightarrow> (Some e, s') | (Inr bs, s') \<Rightarrow> (None, s'))
      else netsetup_Setup nl (LAN_Bridge (Config_LAN c)) (LAN_Interfaces (Config_LAN c)) (LAN_Address (Config_LAN c)) s)"

definition wifi_iface :: "config \<Rightarrow> string" where
  "wifi_iface c = or_default (WiFi_Interface (Config_WiFi c)) ''wlan0''"

definition start_monitor :: "('s, 'a) daemon_env \<Rightarrow> config \<Rightarrow> monitor option" where
  "start_monitor w c =
     (case monitor_New (de_kernel w) (de_addrs w) (NAT_OutInterface (Config_NAT c)) (LAN_Bridge (Config_LAN c))
             (LAN_Interfaces (Config_LAN c)) (wifi_iface c) of
        Inl e \<Rightarrow> None | Inr m \<Rightarrow> Some m)"

definition main_waitForInterface :: "('s, 'a) daemon_env \<Rightarrow> string \<Rightarrow> duration \<Rightarrow> bool option" where
  "main_waitForInterface w name timeout = poll_loop (de_now w) (de_link w name) (de_start w + timeout) 0"

text \<open>The bridge that the access point joins; empty for routed mode.\<close>

definition wifi_bridge :: "config \<Rightarrow> string" where
  "wifi_bridge c =
     (let wc = Config_WiFi c in
      if 0 < length (Config_VLANs c) \<and> WiFi_MacMapFile wc \<noteq> []
      then BridgeName (if WiFi_DefaultVLAN wc = 0 then 1 else WiFi_DefaultVLAN wc)
      else if WiFi_Bridge wc \<noteq> [] \<and> WiFi_Address wc = [] then WiFi_Bridge wc
      else [])"

text \<open>Routed mode: the address of the interface, and its subnet as a source of NAT.\<close>

definition route_wifi ::
  "('s, 'a) daemon_env \<Rightarrow> config \<Rightarrow> manager option \<Rightarrow> 's \<Rightarrow> fatal + manager option \<times> 's" where
  "route_wifi w c mgr s =
     (case assignIP (de_netlink w) (wifi_iface c) (WiFi_Address (Config_WiFi c)) s of
        (Some e, s1) \<Rightarrow> Inl (FatalNet e)
      | (None, s1) \<Rightarrow>
        (case mgr of
           None \<Rightarrow> Inr (None, s1)
         | Some m \<Rightarrow>
           (case ParseCIDR (WiFi_Address (Config_WiFi c)) of
              None \<Rightarrow> Inl FatalWiFiCIDR
            | Some (_, wifiNet) \<Rightarrow>
              (case AddSource (de_flush w) wifiNet m of
                 (Some e, _) \<Rightarrow> Inl (FatalNAT e) | (None, m') \<Rightarrow> Inr (Some m', s1)))))"

definition start_wifi ::
  "('s, 'a) daemon_env \<Rightarrow> bool \<Rightarrow> config \<Rightarrow> manager option \<Rightarrow> fs \<Rightarrow> 's \<Rightarrow>
   fatal + ap option \<times> manager option \<times> fs \<times> 's" where
  "start_wifi w available c mgr f s =
     (let wc = Config_WiFi c in
      if \<not> WiFi_Enabled wc \<or> \<not> available then Inr (None, mgr, f, s)
      else (case wifi_New (de_macmap w) f wc (wifi_bridge c) of
          Inl e \<Rightarrow> Inl (FatalWiFi e)
        | Inr a \<Rightarrow>
          (case ap_Start (de_launch w) (OnClient a) f of
             (Some e, _) \<Rightarrow> Inl (FatalWiFi e)
           | (None, a1, f1) \<Rightarrow>
             if WiFi_Address wc \<noteq> [] \<and> ap_macMap a1 = None
             then (case route_wifi w c mgr s of
                     Inl e \<Rightarrow> Inl e | Inr (mgr', s1) \<Rightarrow> Inr (Some a1, mgr', f1, s1))
             else Inr (Some a1, mgr, f1, s))))"

text \<open>
  The DHCP servers, each with the letter its clients get in the status. The loop reads \<open>base.VLANs[i]\<close>,
  which would panic if the snapshot had fewer VLANs.
\<close>

definition start_scope ::
  "bool \<Rightarrow> pxe_config \<Rightarrow> string \<Rightarrow> string \<Rightarrow> string \<Rightarrow> dhcp_config \<Rightarrow> dhcp_config \<Rightarrow> fatal + dhcp_entry \<times> string" where
  "start_scope monitored pxe via ifc addr d baseScope =
     (case start_dhcp monitored ifc addr d baseScope pxe of None \<Rightarrow> Inl (FatalDHCP ifc) | Some e \<Rightarrow> Inr (e, via))"

fun start_vlans ::
  "bool \<Rightarrow> pxe_config \<Rightarrow> vlan_config list \<Rightarrow> vlan_config list \<Rightarrow> fatal + (dhcp_entry \<times> string) list" where
  "start_vlans monitored pxe [] bases = Inr []"
| "start_vlans monitored pxe (vc # vcs) bases =
     (let rest = start_vlans monitored pxe vcs (tl bases) in
      if \<not> DHCP_Enabled (VLAN_DHCP vc) then rest
      else if bases = [] then Inl IndexPanic
      else (case start_scope monitored pxe (''V'' @ Itoa (VLAN_ID vc)) (BridgeName (VLAN_ID vc)) (VLAN_Address vc)
                   (VLAN_DHCP vc) (VLAN_DHCP (hd bases)) of
              Inl e \<Rightarrow> Inl e
            | Inr x \<Rightarrow> (case rest of Inl e \<Rightarrow> Inl e | Inr xs \<Rightarrow> Inr (x # xs))))"

definition start_wired :: "bool \<Rightarrow> config \<Rightarrow> config \<Rightarrow> fatal + (dhcp_entry \<times> string) list" where
  "start_wired monitored c base =
     (let pxe = Services_PXE (Config_Services c); lan = Config_LAN c in
      if 0 < length (Config_VLANs c) then start_vlans monitored pxe (Config_VLANs c) (Config_VLANs base)
      else if DHCP_Enabled (LAN_DHCP lan)
      then (case start_scope monitored pxe ''L'' (LAN_Bridge lan) (LAN_Address lan) (LAN_DHCP lan) (LAN_DHCP (Config_LAN base)) of
              Inl e \<Rightarrow> Inl e | Inr x \<Rightarrow> Inr [x])
      else Inr [])"

definition wifi_routed :: "config \<Rightarrow> ap option \<Rightarrow> bool" where
  "wifi_routed c wifiAP = (case wifiAP of None \<Rightarrow> False | Some a \<Rightarrow>
     WiFi_Address (Config_WiFi c) \<noteq> [] \<and> DHCP_Enabled (WiFi_DHCP (Config_WiFi c)) \<and> ap_macMap a = None)"

definition start_wifi_dhcp ::
  "bool \<Rightarrow> config \<Rightarrow> config \<Rightarrow> ap option \<Rightarrow> fatal + (dhcp_entry \<times> string) list" where
  "start_wifi_dhcp monitored c base wifiAP =
     (let wc = Config_WiFi c in
      if wifi_routed c wifiAP
      then (case start_scope monitored (Services_PXE (Config_Services c)) ''W'' (wifi_iface c) (WiFi_Address wc)
                   (WiFi_DHCP wc) (WiFi_DHCP (Config_WiFi base)) of
              Inl e \<Rightarrow> Inl e | Inr x \<Rightarrow> Inr [x])
      else Inr [])"

text \<open>SMB: an error leaves the daemon running without the share.\<close>

definition start_smb :: "smb_env \<Rightarrow> config \<Rightarrow> extras_config option \<Rightarrow> (smb_server \<times> smb_effect list) option" where
  "start_smb w c extras =
     (let cfg = Services_SMB (Config_Services c) in
      if \<not> SMB_Enabled cfg then None
      else
        (let s = smb_New cfg; s1 = (case extras of None \<Rightarrow> s | Some e \<Rightarrow> SetExtraUsers (Extras_SMBUsers e) s);
             (err, s2, fx) = smb_Start w s1
         in Some (s2, fx)))"

subsection \<open>Start and shutdown\<close>

record daemon =
  dm_nat :: "manager option"
  dm_mon :: "monitor option"
  dm_ap :: "ap option"
  dm_vias :: "string list"
  dm_smb :: "(smb_server \<times> smb_effect list) option"
  dm_rel :: reloader
  dm_fs :: fs

text \<open>The running DHCP servers, which the reloader holds, with the letters of their clients in the status.\<close>

definition dm_entries :: "daemon \<Rightarrow> (dhcp_entry \<times> string) list" where
  "dm_entries d = zip (rel_dhcpEntries (dm_rel d)) (dm_vias d)"

definition start_services ::
  "('s, 'a) daemon_env \<Rightarrow> bool \<Rightarrow> boot_state \<Rightarrow> manager option \<Rightarrow> fs \<Rightarrow> 's \<Rightarrow> fatal + daemon \<times> 's" where
  "start_services w available b mgr f s =
     (let c = boot_cfg b; base = boot_base b; mon = start_monitor w c; sv = Config_Services c in
      case start_wifi w available c mgr f s of
        Inl e \<Rightarrow> Inl e
      | Inr (wifiAP, mgr', f1, s1) \<Rightarrow>
        (case start_wired (mon \<noteq> None) c base of
           Inl e \<Rightarrow> Inl e
         | Inr wired \<Rightarrow>
           (case start_wifi_dhcp (mon \<noteq> None) c base wifiAP of
              Inl e \<Rightarrow> Inl e
            | Inr wireless \<Rightarrow>
              Inr (\<lparr>dm_nat = mgr', dm_mon = (if wifiAP = None then mon else map_option SetWiFiSource mon), dm_ap = wifiAP, dm_vias = map snd (wired @ wireless),
                     dm_smb = start_smb (de_smb w) c (boot_extras b),
                     dm_rel = \<lparr>rel_cfg = c, rel_base = base, rel_extrasPath = Services_ExtrasFile sv,
                       rel_dhcpEntries = map fst (wired @ wireless),
                       rel_pxeSrv = (if PXE_Enabled (Services_PXE sv) then Some (pxe_New (Services_PXE sv)) else None),
                       rel_appliedSMBUsers = extrasSMBUsers (boot_extras b)\<rparr>,
                     dm_fs = f1\<rparr>, s1))))"

text \<open>
  \<open>main\<close> from the mount to the reloader, without the reading of the files in between; \<open>b\<close> is what is read
  there. \<open>None\<close> is a wait that does not end.
\<close>

definition daemon_boot ::
  "('s, 'a) daemon_env \<Rightarrow> boot_state \<Rightarrow> 's \<Rightarrow> (fatal + daemon \<times> 's) option" where
  "daemon_boot w b s =
     (let c = boot_cfg b in
      Option.bind (mount_Mount (de_mount w) (Services_Mount (Config_Services c))) (\<lambda>(merr, cmds).
        case merr of
          Some e \<Rightarrow> Some (Inl (FatalMount e))
        | None \<Rightarrow>
          (case setup_network (de_netlink w) c s of
             (Some e, s1) \<Rightarrow> Some (Inl (FatalNet e))
           | (None, s1) \<Rightarrow>
             (case EnableForwarding (boot_fs b) of
                (Some e, f1) \<Rightarrow> Some (Inl (FatalNet e))
              | (None, f1) \<Rightarrow>
                (case setup_firewall (de_lookup w) (de_flush w) c of
                   Inl e \<Rightarrow> Some (Inl (FatalNAT e))
                 | Inr mgr \<Rightarrow>
                   if WiFi_Enabled (Config_WiFi c)
                   then Option.bind (main_waitForInterface w (wifi_iface c) (120 * Second)) (\<lambda>available.
                     Some (start_services w available b mgr f1 s1))
                   else Some (start_services w False b mgr f1 s1))))))"

text \<open>\<open>main\<close> up to the reloader; \<open>f\<close> are the files that are visible once the volume has been mounted.\<close>

definition daemon_main ::
  "('s, 'a) daemon_env \<Rightarrow> (bytes \<Rightarrow> string + config) \<Rightarrow> (bytes \<Rightarrow> string + extras_config) \<Rightarrow>
   (extras_config \<Rightarrow> string + bytes) \<Rightarrow> (string \<Rightarrow> string) \<Rightarrow> string \<Rightarrow> fs \<Rightarrow> 's \<Rightarrow> (fatal + daemon \<times> 's) option" where
  "daemon_main w decodeJSON decode encode env configPath f s =
     daemon_boot w (boot_config decodeJSON decode encode env configPath f) s"

subsection \<open>The running daemon\<close>

text \<open>A DHCP server has moved to the state \<open>srv\<close>, with the callbacks \<open>evs\<close>, which run with its letter.\<close>

definition served :: "kernel \<Rightarrow> instant \<Rightarrow> nat \<Rightarrow> server \<Rightarrow> lease_event list \<Rightarrow> daemon \<Rightarrow> daemon" where
  "served k now i srv evs d =
     (let es = rel_dhcpEntries (dm_rel d)
      in d\<lparr>dm_rel := (dm_rel d)\<lparr>rel_dhcpEntries := es[i := (es ! i)\<lparr>entry_srv := srv\<rparr>]\<rparr>,
           dm_mon := map_option (fold (on_lease_event k now (dm_vias d ! i)) evs) (dm_mon d)\<rparr>)"

text \<open>Lines of output of hostapd: the clients of the access point, and its callback.\<close>

definition hostapd_output :: "kernel \<Rightarrow> instant \<Rightarrow> string list \<Rightarrow> daemon \<Rightarrow> daemon" where
  "hostapd_output k now ls d =
     (case dm_ap d of
        None \<Rightarrow> d
      | Some a \<Rightarrow> (case parseOutput ls a of (a', evs) \<Rightarrow>
          d\<lparr>dm_ap := Some a', dm_mon := fold (on_client k now) evs (dm_mon d)\<rparr>))"

text \<open>The HTTP handlers: the status code and the new state. The report itself is \<open>ServeHTTP\<close>.\<close>

definition daemon_http ::
  "(bytes \<Rightarrow> string + extras_config) \<Rightarrow> (extras_config \<Rightarrow> string + bytes) \<Rightarrow> string \<Rightarrow> http_request \<Rightarrow> daemon \<Rightarrow> nat \<times> daemon" where
  "daemon_http decode encode path req d =
     (if path = ''/status'' \<and> dm_mon d \<noteq> None then (200, d)
      else if path = ''/api/reload'' then
        (case reload_endpoint decode encode (Services_AdminAPI (Config_Services (rel_cfg (dm_rel d)))) req (dm_rel d) (dm_fs d) of
           (code, r', f') \<Rightarrow> (code, d\<lparr>dm_rel := r', dm_fs := f'\<rparr>))
      else (404, d))"

text \<open>
  The shutdown: the commands to smbd, whether hostapd gets a signal, the monitor and the rules left, and
  the commands of the deferred unmount.
\<close>

definition daemon_shutdown ::
  "('s, 'a) daemon_env \<Rightarrow> daemon \<Rightarrow> smb_effect list \<times> bool \<times> monitor option \<times> manager option \<times> string list list" where
  "daemon_shutdown w d =
     (case dm_smb d of None \<Rightarrow> [] | Some (s, fx) \<Rightarrow> smb_Stop s,
      (case dm_ap d of None \<Rightarrow> False | Some a \<Rightarrow> snd (ap_Stop a)), map_option mon_Stop (dm_mon d), Cleanup (de_flush w) (dm_nat d),
      snd (mount_Unmount (de_mount w) (Services_Mount (Config_Services (rel_cfg (dm_rel d))))))"

end
