(* ===== verification/Daemon_Props.thy ===== *)
theory Daemon_Props
  imports Daemon DHCP_Props Status_Props Router_Props Mount_Props Network_Props
begin

section \<open>Properties of the services together\<close>

text \<open>
  The status monitor as an observer of the lease table: when it shows exactly the leased addresses,
  and how it comes to miss a client. Then the scopes that are served after the start.
\<close>

subsection \<open>Observers of a lease table\<close>

definition leased :: "server \<Rightarrow> ip set" where
  "leased s = (\<lambda>(mac, l). lease_IP l) ` set (srv_leases s)"

fun event_ip :: "lease_event \<Rightarrow> ip" where
  "event_ip (LeaseCallback a mac) = a"
| "event_ip (LeaseExpiredCallback a mac) = a"

fun observe :: "lease_event \<Rightarrow> ip set \<Rightarrow> ip set" where
  "observe (LeaseCallback a mac) A = insert a A"
| "observe (LeaseExpiredCallback a mac) A = A - {a}"

text \<open>No address has two entries, expired or not.\<close>

definition one_entry_each :: "server \<Rightarrow> bool" where
  "one_entry_each s \<longleftrightarrow> inj_on (\<lambda>(mac, l). lease_IP l) (set (srv_leases s))"

text \<open>
  A request is prompt if every expired lease has been reaped before it, and the client does not move
  from a lease to another, reserved address.
\<close>

definition prompt :: "server \<Rightarrow> instant \<Rightarrow> string \<Rightarrow> bool" where
  "prompt s now mac \<longleftrightarrow> (\<forall>(x, l) \<in> set (srv_leases s). now < lease_Expires l) \<and>
     (\<forall>r l. glookup (srv_reservations s) (dhcp_normalizeMAC mac) = Some r \<longrightarrow>
        glookup (srv_leases s) mac = Some l \<longrightarrow> lease_IP l = r)"

locale lease_observer =
  fixes online :: "'m \<Rightarrow> ip set"
    and minv :: "'m \<Rightarrow> bool"
    and notify :: "instant \<Rightarrow> lease_event \<Rightarrow> 'm \<Rightarrow> 'm"
  assumes notify: "minv m \<Longrightarrow> length (event_ip ev) = 4 \<Longrightarrow>
      minv (notify now ev m) \<and> online (notify now ev m) = observe ev (online m)"
begin

lemma notify_all:
  "minv m \<Longrightarrow> \<forall>ev \<in> set evs. length (event_ip ev) = 4 \<Longrightarrow>
   minv (fold (notify now) evs m) \<and> online (fold (notify now) evs m) = fold observe evs (online m)"
proof (induction evs arbitrary: m)
  case (Cons ev evs)
  then show ?case using notify [of m ev now] by simp
qed simp

end

text \<open>What a prompt request and a round of the reaper do to the addresses in the table.\<close>

lemma set_put_lease:
  assumes "gwf (srv_leases s)"
  shows "set (srv_leases (put_lease mac a now s)) =
    {(x, l) \<in> set (srv_leases s). x \<noteq> mac} \<union> {(mac, \<lparr>lease_IP = a, lease_Expires = now + srv_lease s\<rparr>)}"
  using assms by (auto simp: put_lease_def in_gput_iff split: if_splits)

lemma leased_put_lease:
  assumes "gwf (srv_leases s)" and "\<forall>l. (mac, l) \<in> set (srv_leases s) \<longrightarrow> lease_IP l = a"
  shows "leased (put_lease mac a now s) = insert a (leased s)"
  using assms by (force simp: leased_def set_put_lease)

lemma one_entry_put_lease:
  assumes "gwf (srv_leases s)" and "one_entry_each s" and "a \<notin> leased s"
  shows "one_entry_each (put_lease mac a now s)"
  using assms by (force simp: one_entry_each_def leased_def set_put_lease inj_on_def)

lemma clear_leased:
  assumes "srv_wf s" and "length a = 4"
  shows "set (srv_leases (clearLeasesForIP a s)) = {(x, l) \<in> set (srv_leases s). lease_IP l \<noteq> a}"
    and "leased (clearLeasesForIP a s) = leased s - {a}"
proof -
  have "IP_Equal (lease_IP l) a \<longleftrightarrow> lease_IP l = a" if "(mac, l) \<in> set (srv_leases s)" for mac l
    using lease_lengths(1) [OF assms(1) that] assms(2) by simp
  then show set: "set (srv_leases (clearLeasesForIP a s)) = {(x, l) \<in> set (srv_leases s). lease_IP l \<noteq> a}"
    by (auto simp: clearLeasesForIP_def)
  show "leased (clearLeasesForIP a s) = leased s - {a}"
    unfolding leased_def set by force
qed

lemma prompt_request:
  assumes wf: "srv_wf s" and one: "one_entry_each s" and p: "prompt s now mac"
    and r: "allocate s now mac = Some (s', a, evs)" and cb: "srv_onLease s"
  shows "one_entry_each s' \<and> leased s' = fold observe evs (leased s) \<and> (\<forall>ev \<in> set evs. length (event_ip ev) = 4)"
  using wf r
proof (cases rule: allocate_SomeE)
  case reserved
  let ?c = "clearLeasesForIP a s"
  have gwf: "gwf (srv_leases s)" "gwf (srv_reservations s)" using wf by (simp_all add: srv_wf_def)
  have res: "glookup (srv_reservations s) (dhcp_normalizeMAC mac) = Some a"
    using gm.entries_lookup [of "srv_reservations s"] gwf(2) reserved(1) by simp
  have own: "lease_IP l = a" if "(mac, l) \<in> set (srv_leases s)" for l
    using p res gm.entries_lookup [of "srv_leases s" mac l] gwf(1) that by (simp add: prompt_def)
  have c: "gwf (srv_leases ?c)" using gwf(1) by (simp add: clearLeasesForIP_def gwf_filter)
  have "one_entry_each ?c" using one by (auto simp: one_entry_each_def clear_leased [OF wf reserved(2)] intro: inj_on_subset)
  then have "one_entry_each s'"
    unfolding reserved(3) by (rule one_entry_put_lease [OF c]) (simp add: clear_leased [OF wf reserved(2)])
  moreover have "leased s' = insert a (leased s)"
    unfolding reserved(3)
    by (subst leased_put_lease [OF c]) (auto simp: clear_leased [OF wf reserved(2)] dest: own)
  ultimately show ?thesis using reserved(2,4) cb by (simp add: lease_callback_def)
next
  case (fresh n)
  have gwf: "gwf (srv_leases s)" using wf by (simp add: srv_wf_def)
  have all: "now < lease_Expires l" if "(x, l) \<in> set (srv_leases s)" for x l using p that by (auto simp: prompt_def)
  have none: "(mac, l) \<notin> set (srv_leases s)" for l
    using fresh(2) all held_Some_iff [OF wf, of now mac] by force
  have "a \<notin> leased s"
    using fresh(4) all not_isLeased_iff [OF wf fresh(3)] held_Some_iff [OF wf, of now] by (force simp: leased_def)
  moreover have "leased s' = leased (put_lease mac a now s)" "one_entry_each s' = one_entry_each (put_lease mac a now s)"
    unfolding fresh(6) by (simp_all add: leased_def one_entry_each_def)
  ultimately show ?thesis
    using one_entry_put_lease [OF gwf one] leased_put_lease [OF gwf, of mac a] none fresh(3,7) cb by (simp add: lease_callback_def)
qed (simp_all add: one)

lemma fold_expired: "fold observe (map (\<lambda>(mac, l). LeaseExpiredCallback (lease_IP l) mac) xs) A = A - (\<lambda>(mac, l). lease_IP l) ` set xs"
  by (induction xs arbitrary: A) auto

lemma reap_round:
  assumes wf: "srv_wf s" and one: "one_entry_each s" and r: "reapExpiredLeases now s = (s', evs)" and cb: "srv_onLeaseExpired s"
  shows "one_entry_each s' \<and> leased s' = fold observe evs (leased s) \<and> (\<forall>ev \<in> set evs. length (event_ip ev) = 4)"
proof -
  let ?x = "filter (\<lambda>(mac, l). lease_Expires l < now) (srv_leases s)"
  have evs: "evs = map (\<lambda>(mac, l). LeaseExpiredCallback (lease_IP l) mac) ?x"
    using r cb by (simp add: reapExpiredLeases_def Let_def)
  have s': "srv_leases s' = filter (\<lambda>(mac, l). now \<le> lease_Expires l) (srv_leases s)"
    using reap_leases [of s now] wf r by (simp add: srv_wf_def)
  have "one_entry_each s'" using one by (auto simp: one_entry_each_def s' intro: inj_on_subset)
  moreover have "leased s' = leased s - (\<lambda>(mac, l). lease_IP l) ` set ?x"
  proof -
    have "set (srv_leases s') = set (srv_leases s) - set ?x" by (auto simp: s')
    then show ?thesis
      using one inj_on_image_set_diff [of "\<lambda>(mac, l). lease_IP l" "set (srv_leases s)" "set (srv_leases s)" "set ?x"]
      unfolding leased_def one_entry_each_def by auto
  qed
  moreover have "\<forall>ev \<in> set evs. length (event_ip ev) = 4"
    using lease_lengths(1) [OF wf] by (auto simp: evs)
  ultimately show ?thesis by (simp add: evs fold_expired)
qed

subsection \<open>The status monitor as an observer\<close>

definition online_clients :: "monitor \<Rightarrow> ip set" where
  "online_clients m = {a. length a = 4 \<and> connected m a}"

lemma on_lease_event_step:
  "on_lease_event good_kernel now via (LeaseCallback a mac) m = mon_step (LeaseGiven a mac via now) m"
  "on_lease_event good_kernel now via (LeaseExpiredCallback a mac) m = mon_step (LeaseOver a now) m"
  by (simp_all add: on_lease_event_def)

lemma online_step:
  assumes "mon_inv m" and "event_ok ev"
  shows "online_clients (mon_step ev m) =
    (case ev of LeaseGiven i mac via now \<Rightarrow> insert (To4 i) (online_clients m) | LeaseOver i now \<Rightarrow> online_clients m - {To4 i} | _ \<Rightarrow> online_clients m)"
proof -
  have acc: "mon_account (mon_step ev m) = account_step ev (mon_account m)" using mon_step_refines [OF assms] by simp
  have on: "a \<in> online_clients m' \<longleftrightarrow> length a = 4 \<and> (\<exists>x. mon_account m' a = Some x \<and> ac_Connected x)" for a m'
    using connected_iff [of a m'] by (auto simp: online_clients_def)
  have step: "a \<in> online_clients (mon_step ev m) \<longleftrightarrow>
      length a = 4 \<and> (\<exists>x. account_step ev (mon_account m) a = Some x \<and> ac_Connected x)" for a
    by (simp only: on acc)
  have len: "length (To4 i) = 4" if "To4 i \<noteq> []" for i using that by (rule To4_length_4)
  show ?thesis
  proof (cases ev)
    case (Forwarded src dst n)
    have "ac_Connected (credit src dst n a x) = ac_Connected x" for a x by (simp add: credit_def)
    then show ?thesis unfolding set_eq_iff step by (auto simp: Forwarded on)
  next
    case (LeaseGiven i mac via now)
    then show ?thesis using assms(2) len [of i] unfolding set_eq_iff step
      by (auto simp: on split: option.splits if_splits)
  next
    case (LeaseOver i now)
    then show ?thesis using assms(2) len [of i] unfolding set_eq_iff step
      by (auto simp: on split: option.splits if_splits)
  next
    case (Tick now)
    then show ?thesis unfolding set_eq_iff step by (simp add: on)
  qed
qed

interpretation status_observer: lease_observer online_clients mon_inv "\<lambda>now. on_lease_event good_kernel now via" for via
proof
  fix m now ev
  assume inv: "mon_inv m" and len: "length (event_ip ev) = 4"
  show "mon_inv (on_lease_event good_kernel now via ev m) \<and>
    online_clients (on_lease_event good_kernel now via ev m) = observe ev (online_clients m)"
  proof (cases ev)
    case (LeaseCallback a mac)
    then have "To4 a = a" "a \<noteq> []" using len by (auto simp: To4_def)
    then show ?thesis
      unfolding LeaseCallback on_lease_event_step
      using mon_step_refines [OF inv, of "LeaseGiven a mac via now"] online_step [OF inv, of "LeaseGiven a mac via now"]
      by (simp del: mon_step.simps)
  next
    case (LeaseExpiredCallback a mac)
    then have "To4 a = a" "a \<noteq> []" using len by (auto simp: To4_def)
    then show ?thesis
      unfolding LeaseExpiredCallback on_lease_event_step
      using mon_step_refines [OF inv, of "LeaseOver a now"] online_step [OF inv, of "LeaseOver a now"]
      by (simp del: mon_step.simps)
  qed
qed

text \<open>
  A DHCP server whose callbacks go to a monitor: requests, rounds of the reaper, reservations set by
  a reload, forwarded packets, samples and passing time, in any order.
\<close>

inductive serving :: "string \<Rightarrow> server \<times> monitor \<times> instant \<Rightarrow> bool" for via where
  started: "dhcp_New ifc addr rangeStart rangeEnd dnsNames dur = Inr s \<Longrightarrow>
    monitor_New good_kernel addrs wan lan ports wifi = Inr m \<Longrightarrow> serving via (OnLeaseExpired (OnLease s), m, now)"
| later: "serving via (s, m, now) \<Longrightarrow> now \<le> now' \<Longrightarrow> serving via (s, m, now')"
| requested: "serving via (s, m, now) \<Longrightarrow> prompt s now mac \<Longrightarrow> allocate s now mac = Some (s', a, evs) \<Longrightarrow>
    serving via (s', fold (on_lease_event good_kernel now via) evs m, now)"
| reaped: "serving via (s, m, now) \<Longrightarrow> reapExpiredLeases now s = (s', evs) \<Longrightarrow>
    serving via (s', fold (on_lease_event good_kernel now via) evs m, now)"
| reserved: "serving via (s, m, now) \<Longrightarrow> serving via (SetReservations res s, m, now)"
| forwarded: "serving via (s, m, now) \<Longrightarrow> serving via (s, mon_step (Forwarded src dst n) m, now)"
| sampled: "serving via (s, m, now) \<Longrightarrow> serving via (s, mon_step (Tick now) m, now)"

definition in_step :: "server \<Rightarrow> monitor \<Rightarrow> instant \<Rightarrow> bool" where
  "in_step s m now \<longleftrightarrow> dhcp_reachable (s, now) \<and> srv_onLease s \<and> srv_onLeaseExpired s \<and> one_entry_each s \<and>
     mon_inv m \<and> online_clients m = leased s"

lemma allocate_callbacks:
  "allocate s now mac = Some (s', a, evs) \<Longrightarrow> srv_onLease s' = srv_onLease s \<and> srv_onLeaseExpired s' = srv_onLeaseExpired s"
  by (auto simp: allocate_def allocate_dynamic_def put_lease_def clearLeasesForIP_def split: option.splits if_splits bind_splits)

lemma reap_callbacks:
  "reapExpiredLeases now s = (s', evs) \<Longrightarrow> srv_onLease s' = srv_onLease s \<and> srv_onLeaseExpired s' = srv_onLeaseExpired s"
  by (auto simp: reapExpiredLeases_def Let_def)

lemma leased_SetReservations: "leased (SetReservations res s) = leased s" "one_entry_each (SetReservations res s) = one_entry_each s"
  "srv_onLease (SetReservations res s) = srv_onLease s" "srv_onLeaseExpired (SetReservations res s) = srv_onLeaseExpired s"
  by (simp_all add: leased_def one_entry_each_def SetReservations_def)

text \<open>A step of the server whose events go to the monitor.\<close>

lemma observed_in_step:
  assumes i: "in_step s m now" and r: "dhcp_step (s, now) (s', now)"
    and st: "one_entry_each s' \<and> leased s' = fold observe evs (leased s) \<and> (\<forall>ev \<in> set evs. length (event_ip ev) = 4)"
    and cb: "srv_onLease s' = srv_onLease s \<and> srv_onLeaseExpired s' = srv_onLeaseExpired s"
  shows "in_step s' (fold (on_lease_event good_kernel now via) evs m) now"
proof -
  have "dhcp_reachable (s', now)" using i dhcp_reachable.step [OF _ r] by (simp add: in_step_def)
  with i st cb show ?thesis
    using status_observer.notify_all [of m evs now via] by (simp add: in_step_def)
qed

lemma serving_in_step: "serving via st \<Longrightarrow> case st of (s, m, now) \<Rightarrow> in_step s m now"
proof (induction rule: serving.induct)
  case (started ifc addr rangeStart rangeEnd dnsNames dur s addrs wan lan ports wifi m now)
  have "dhcp_reachable (OnLeaseExpired (OnLease s), now)"
    using dhcp_reachable.start [OF started(1)] dhcp_step.on_lease dhcp_step.on_expired dhcp_reachable.step by blast
  moreover have "srv_leases s = []"
    using started(1) by (auto simp: dhcp_New_def Let_def split: option.splits sum.splits if_splits)
  moreover have "mon_inv m" "mon_account m = (\<lambda>_. None)" using monitor_New_inv [OF started(2)] by auto
  then have "mon_inv m" "online_clients m = {}" using connected_iff [of _ m] by (auto simp: online_clients_def)
  ultimately show ?case
    by (simp add: in_step_def one_entry_each_def leased_def OnLease_def OnLeaseExpired_def)
next
  case (later s m now now')
  then show ?case using dhcp_reachable.step dhcp_step.clock by (auto simp: in_step_def)
next
  case (requested s m now mac s' a evs)
  then have i: "in_step s m now" by simp
  then have wf: "srv_wf s" using reachable_wf [of s now] by (simp add: in_step_def)
  have st: "one_entry_each s' \<and> leased s' = fold observe evs (leased s) \<and> (\<forall>ev \<in> set evs. length (event_ip ev) = 4)"
    using prompt_request [OF wf _ requested.hyps(2,3)] i by (simp add: in_step_def)
  show ?case
    using observed_in_step [OF i dhcp_step.request [OF requested.hyps(3)] st allocate_callbacks [OF requested.hyps(3)]] by simp
next
  case (reaped s m now s' evs)
  then have i: "in_step s m now" by simp
  then have wf: "srv_wf s" using reachable_wf [of s now] by (simp add: in_step_def)
  have st: "one_entry_each s' \<and> leased s' = fold observe evs (leased s) \<and> (\<forall>ev \<in> set evs. length (event_ip ev) = 4)"
    using reap_round [OF wf _ reaped.hyps(2)] i by (simp add: in_step_def)
  show ?case
    using observed_in_step [OF i dhcp_step.reap [OF reaped.hyps(2)] st reap_callbacks [OF reaped.hyps(2)]] by simp
next
  case (reserved s m now res)
  then show ?case using dhcp_reachable.step [OF _ dhcp_step.reserve] by (auto simp: in_step_def leased_SetReservations)
next
  case (forwarded s m now src dst n)
  then show ?case
    using online_step [of m "Forwarded src dst n"] mon_step_refines [of m "Forwarded src dst n"]
    by (simp add: in_step_def del: mon_step.simps)
next
  case (sampled s m now)
  then show ?case
    using online_step [of m "Tick now"] mon_step_refines [of m "Tick now"] by (simp add: in_step_def del: mon_step.simps)
qed


lemma scan_free: "\<not> isLeasedOrReserved s now a \<Longrightarrow> allocate_scan s now st a = Some a"
  by (subst allocate_scan.simps) simp

text \<open>A server with a single address, observed by a monitor: a client, and another after its lease.\<close>

definition single_server :: server where
  "single_server = (OnLeaseExpired (OnLease demo_server))\<lparr>srv_rangeEnd := [10, 0, 0, 50]\<rparr>"

definition single_leased :: server where
  "single_leased = single_server\<lparr>srv_leases := [(''aa'', \<lparr>lease_IP = [10, 0, 0, 50], lease_Expires = 100\<rparr>)]\<rparr>"

definition single_stale :: server where
  "single_stale = single_server\<lparr>srv_leases := [(''aa'', \<lparr>lease_IP = [10, 0, 0, 50], lease_Expires = 100\<rparr>),
     (''bb'', \<lparr>lease_IP = [10, 0, 0, 50], lease_Expires = 250\<rparr>)]\<rparr>"

lemma single_New: "\<exists>s. dhcp_New ''lan'' ''10.0.0.1/24'' ''10.0.0.50'' ''10.0.0.50'' [] 100 = Inr s \<and>
    single_server = OnLeaseExpired (OnLease s)"
proof -
  have "dhcp_New ''lan'' ''10.0.0.1/24'' ''10.0.0.50'' ''10.0.0.50'' [] 100 = Inr (demo_server\<lparr>srv_rangeEnd := [10, 0, 0, 50]\<rparr>)"
    by code_simp
  then show ?thesis by (simp add: single_server_def OnLease_def OnLeaseExpired_def)
qed

lemma single_range: "ipGreater (incIP [10, 0, 0, 50]) [10, 0, 0, 50] = Some True" by code_simp

lemmas single_defs = single_server_def single_leased_def single_stale_def demo_server_def OnLease_def OnLeaseExpired_def

lemma single_allocate:
  "allocate single_server 0 ''aa'' = Some (single_leased, [10, 0, 0, 50], [LeaseCallback [10, 0, 0, 50] ''aa''])"
  "\<exists>evs. allocate single_leased 150 ''bb'' = Some (single_stale, [10, 0, 0, 50], evs)"
proof -
  have "\<not> isLeasedOrReserved single_server 0 a" "\<not> isLeasedOrReserved single_leased 150 a" for a
    by (simp_all add: isLeasedOrReserved_def single_defs)
  note scan = this [THEN scan_free]
  show "allocate single_server 0 ''aa'' = Some (single_leased, [10, 0, 0, 50], [LeaseCallback [10, 0, 0, 50] ''aa''])"
    using scan(1) [of "[10, 0, 0, 50]" "[10, 0, 0, 50]"] single_range
    by (simp add: allocate_def allocate_dynamic_def put_lease_def lease_callback_def single_defs)
  show "\<exists>evs. allocate single_leased 150 ''bb'' = Some (single_stale, [10, 0, 0, 50], evs)"
    using scan(2) [of "[10, 0, 0, 50]" "[10, 0, 0, 50]"] single_range
    by (simp add: allocate_def allocate_dynamic_def put_lease_def single_defs)
qed

lemma single_reachable: "dhcp_reachable (single_leased, 0)"
proof -
  obtain s0 where s0: "dhcp_New ''lan'' ''10.0.0.1/24'' ''10.0.0.50'' ''10.0.0.50'' [] 100 = Inr s0"
    "single_server = OnLeaseExpired (OnLease s0)" using single_New by (elim exE conjE)
  have "dhcp_reachable (single_server, 0)"
    unfolding s0(2) using dhcp_reachable.start [OF s0(1)] dhcp_step.on_lease dhcp_step.on_expired dhcp_reachable.step by blast
  then show ?thesis by (rule dhcp_reachable.step [OF _ dhcp_step.request [OF single_allocate(1)]])
qed


text \<open>
  C39: If a client got the address of an expired lease before the reaper removed that lease, the next
  round of the reaper reports the address as expired: the client still holds it, but the status shows
  it as disconnected and counts none of its traffic, and, as a renewal fires no callback, this lasts
  until its lease ends.
\<close>

theorem stale_lease_hides_client:
  assumes "dhcp_reachable (s, now)" and "srv_onLeaseExpired s" and "mon_inv m"
    and "(x, l) \<in> set (srv_leases s)" and "lease_Expires l < now" and "held s now mac = Some (lease_IP l)"
    and "reapExpiredLeases now s = (s', evs)"
  shows "held s' now mac = Some (lease_IP l) \<and>
    \<not> connected (fold (on_lease_event good_kernel now via) evs m) (lease_IP l) \<and>
    (glookup (srv_reservations s) (dhcp_normalizeMAC mac) = None \<longrightarrow>
      (\<forall>t. held s' t mac = Some (lease_IP l) \<longrightarrow> allocate s' t mac = Some (s', lease_IP l, [])))"
proof (intro conjI impI allI)
  have wf: "srv_wf s" by (rule reachable_wf [OF assms(1)])
  have wf': "srv_wf s'"
    using reachable_wf [OF dhcp_reachable.step [OF assms(1) dhcp_step.reap [OF assms(7)]]] .
  have s': "srv_leases s' = filter (\<lambda>(mac, l). now \<le> lease_Expires l) (srv_leases s)"
    using reap_leases [of s now] wf assms(7) by (simp add: srv_wf_def)
  show "held s' now mac = Some (lease_IP l)"
    using assms(6) by (force simp: held_Some_iff [OF wf] held_Some_iff [OF wf'] s')
  let ?x = "filter (\<lambda>(mac, l). lease_Expires l < now) (srv_leases s)"
  have evs: "evs = map (\<lambda>(mac, l). LeaseExpiredCallback (lease_IP l) mac) ?x"
    using assms(2,7) by (simp add: reapExpiredLeases_def Let_def)
  have "\<forall>ev \<in> set evs. length (event_ip ev) = 4" using lease_lengths(1) [OF wf] by (auto simp: evs)
  then have "online_clients (fold (on_lease_event good_kernel now via) evs m) = fold observe evs (online_clients m)"
    using status_observer.notify_all [OF assms(3)] by blast
  also have "\<dots> = online_clients m - (\<lambda>(mac, l). lease_IP l) ` set ?x" unfolding evs by (rule fold_expired)
  finally have "lease_IP l \<notin> online_clients (fold (on_lease_event good_kernel now via) evs m)"
    using assms(4,5) by force
  then show "\<not> connected (fold (on_lease_event good_kernel now via) evs m) (lease_IP l)"
    using lease_lengths(1) [OF wf assms(4)] by (simp add: online_clients_def)
  fix t
  assume res: "glookup (srv_reservations s) (dhcp_normalizeMAC mac) = None" and "held s' t mac = Some (lease_IP l)"
  moreover have "srv_reservations s' = srv_reservations s" using assms(7) by (auto simp: reapExpiredLeases_def Let_def)
  ultimately show "allocate s' t mac = Some (s', lease_IP l, [])" by (simp add: allocate_cases)
qed

theorem stale_lease_hides_client_witness:
  "\<exists>s' evs. reapExpiredLeases 160 single_stale = (s', evs) \<and> held s' 160 ''bb'' = Some [10, 0, 0, 50] \<and>
     \<not> connected (fold (on_lease_event good_kernel 160 ''L'') evs demo_monitor) [10, 0, 0, 50]"
proof -
  have "dhcp_reachable (single_leased, 150)" using single_reachable by (rule dhcp_reachable.step [OF _ dhcp_step.clock]) simp
  then have "dhcp_reachable (single_stale, 150)"
    using single_allocate(2) dhcp_step.request dhcp_reachable.step by blast
  then have reach: "dhcp_reachable (single_stale, 160)" by (rule dhcp_reachable.step [OF _ dhcp_step.clock]) simp
  obtain s' evs where r: "reapExpiredLeases 160 single_stale = (s', evs)" by fastforce
  have "mon_inv demo_monitor" using monitor_New_inv [OF demo_monitor_new] by simp
  note hidden = stale_lease_hides_client [OF reach _ this, where x = "''aa''" and via = "''L''" and mac = "''bb''"
      and l = "\<lparr>lease_IP = [10, 0, 0, 50], lease_Expires = 100\<rparr>", OF _ _ _ _ r]
  have "srv_onLeaseExpired single_stale" "held single_stale 160 ''bb'' = Some [10, 0, 0, 50]"
    "(''aa'', \<lparr>lease_IP = [10, 0, 0, 50], lease_Expires = 100\<rparr>) \<in> set (srv_leases single_stale)"
    by (simp_all add: held_def single_defs)
  with hidden r show ?thesis by simp
qed

text \<open>The converse omission: a client that gets a new address leaves the old one behind as connected.\<close>

lemma moved_client_stays_online:
  assumes "srv_wf s" and "mon_inv m" and "allocate s now mac = Some (s', a, evs)" and "(mac, l) \<in> set (srv_leases s)"
    and "a \<noteq> []" and "lease_IP l \<noteq> a" and "\<forall>y \<in> set (srv_leases s). lease_IP (snd y) = lease_IP l \<longrightarrow> fst y = mac"
    and "connected m (lease_IP l)"
  shows "connected (fold (on_lease_event good_kernel now via) evs m) (lease_IP l) \<and> lease_IP l \<notin> leased s'"
proof
  have len: "length (lease_IP l) = 4" by (rule lease_lengths(1) [OF assms(1,4)])
  have gwf: "gwf (srv_leases s)" using assms(1) by (simp add: srv_wf_def)
  have uniq: "l' = l" if "(mac, l') \<in> set (srv_leases s)" for l'
    using eq_key_imp_eq_value [OF gwf that assms(4)] .
  have evs: "set evs \<subseteq> {LeaseCallback a mac} \<and> (evs \<noteq> [] \<longrightarrow> length a = 4) \<and> lease_IP l \<notin> leased s'"
    using assms(1,3)
  proof (cases rule: allocate_SomeE)
    case reserved
    have c: "gwf (srv_leases (clearLeasesForIP a s))" using gwf by (simp add: clearLeasesForIP_def gwf_filter)
    have "lease_IP l \<notin> leased s'"
      using assms(6,7) by (auto simp: leased_def reserved(3) set_put_lease [OF c] clear_leased [OF assms(1) reserved(2)])
    with reserved show ?thesis by (auto simp: lease_callback_def)
  next
    case existing
    then show ?thesis using assms(6) uniq by (auto simp: held_Some_iff [OF assms(1)])
  next
    case exhausted
    then show ?thesis using assms(5) by simp
  next
    case (fresh n)
    have "lease_IP l \<notin> leased s'"
      using assms(6,7) by (auto simp: leased_def fresh(6) set_put_lease [OF gwf])
    with fresh show ?thesis by (auto simp: lease_callback_def)
  qed
  then show "lease_IP l \<notin> leased s'" by simp
  have "\<forall>ev \<in> set evs. length (event_ip ev) = 4" using evs by auto
  then have "online_clients (fold (on_lease_event good_kernel now via) evs m) = fold observe evs (online_clients m)"
    using status_observer.notify_all [OF assms(2)] by blast
  moreover have grow: "A \<subseteq> fold observe es A" if "set es \<subseteq> {LeaseCallback a mac}" for es A
    using that by (induction es arbitrary: A) force+
  have "online_clients m \<subseteq> fold observe evs (online_clients m)" by (rule grow) (simp add: evs)
  moreover have "lease_IP l \<in> online_clients m" using assms(8) len by (simp add: online_clients_def)
  ultimately have "lease_IP l \<in> online_clients (fold (on_lease_event good_kernel now via) evs m)" by auto
  then show "connected (fold (on_lease_event good_kernel now via) evs m) (lease_IP l)"
    by (simp add: online_clients_def)
qed

subsection \<open>What is served after the start\<close>

text \<open>The interface, the letter in the status and the scope of router.json of each DHCP server.\<close>

definition vlan_scopes :: "vlan_config list \<Rightarrow> vlan_config list \<Rightarrow> (string \<times> string \<times> dhcp_config) list" where
  "vlan_scopes vcs bases =
     map (\<lambda>(v, b). (BridgeName (VLAN_ID v), ''V'' @ Itoa (VLAN_ID v), VLAN_DHCP b))
       (filter (\<lambda>(v, b). DHCP_Enabled (VLAN_DHCP v)) (zip vcs bases))"

definition wired_scopes :: "config \<Rightarrow> config \<Rightarrow> (string \<times> string \<times> dhcp_config) list" where
  "wired_scopes c base =
     (if Config_VLANs c \<noteq> [] then vlan_scopes (Config_VLANs c) (Config_VLANs base)
      else if DHCP_Enabled (LAN_DHCP (Config_LAN c)) then [(LAN_Bridge (Config_LAN c), ''L'', LAN_DHCP (Config_LAN base))]
      else [])"

definition boot_scopes :: "config \<Rightarrow> config \<Rightarrow> ap option \<Rightarrow> (string \<times> string \<times> dhcp_config) list" where
  "boot_scopes c base wifiAP = wired_scopes c base @
     (if wifi_routed c wifiAP then [(wifi_iface c, ''W'', WiFi_DHCP (Config_WiFi base))] else [])"

definition entry_scope :: "dhcp_entry \<times> string \<Rightarrow> string \<times> string \<times> dhcp_config" where
  "entry_scope x = (srv_iface (entry_srv (fst x)), snd x, entry_baseScope (fst x))"

text \<open>A server that has just been started.\<close>

definition fresh_server :: "bool \<Rightarrow> server \<Rightarrow> bool" where
  "fresh_server monitored s \<longleftrightarrow> (\<forall>now. dhcp_reachable (s, now)) \<and> srv_leases s = [] \<and>
     srv_onLease s = monitored \<and> srv_onLeaseExpired s = monitored"

lemma applyDHCPOptions_keeps:
  "srv_iface (applyDHCPOptions d en tftp imgs pxe s) = srv_iface s"
  "srv_leases (applyDHCPOptions d en tftp imgs pxe s) = srv_leases s"
  "srv_onLease (applyDHCPOptions d en tftp imgs pxe s) = srv_onLease s"
  "srv_onLeaseExpired (applyDHCPOptions d en tftp imgs pxe s) = srv_onLeaseExpired s"
  by (simp_all add: applyDHCPOptions_def applyPXEBootOptions_def Let_def setting_defs SetReservations_def)

lemma dhcp_reachable_options:
  "dhcp_reachable (s, now) \<Longrightarrow> dhcp_reachable (applyDHCPOptions d en tftp imgs pxe s, now)"
  by (simp add: applyDHCPOptions_def Let_def dhcp_reachable_settings)

lemma start_scope_Inr:
  assumes "start_scope monitored pxe via ifc addr d bs = Inr x"
  shows "entry_scope x = (ifc, via, bs) \<and> fresh_server monitored (entry_srv (fst x))"
proof -
  obtain srv where n: "dhcp_New ifc addr (DHCP_RangeStart d) (DHCP_RangeEnd d) (DHCP_DNS d) (ParseLeaseDuration d) = Inr srv"
    and x: "x = (\<lparr>entry_srv = (if monitored then OnLeaseExpired (OnLease (applyDHCPOptions d (PXE_Enabled pxe)
        (ifaceIPFromCIDR addr) (PXE_MacImages pxe) pxe srv)) else applyDHCPOptions d (PXE_Enabled pxe)
        (ifaceIPFromCIDR addr) (PXE_MacImages pxe) pxe srv),
      entry_tftpAddr = ifaceIPFromCIDR addr, entry_baseScope = bs\<rparr>, via)"
    using assms by (auto simp: start_scope_def start_dhcp_def Let_def split: option.splits sum.splits)
  have srv: "srv_iface srv = ifc" "srv_leases srv = []" "\<not> srv_onLease srv" "\<not> srv_onLeaseExpired srv"
    using n by (auto simp: dhcp_New_def Let_def split: option.splits sum.splits if_splits)
  have r: "dhcp_reachable (applyDHCPOptions d (PXE_Enabled pxe) (ifaceIPFromCIDR addr) (PXE_MacImages pxe) pxe srv, now)" for now
    by (rule dhcp_reachable_options [OF dhcp_reachable.start [OF n]])
  have "dhcp_reachable (OnLeaseExpired (OnLease s), now)" if "dhcp_reachable (s, now)" for s now
    using that dhcp_step.on_lease dhcp_step.on_expired dhcp_reachable.step by blast
  with r srv show ?thesis
    by (auto simp: x entry_scope_def fresh_server_def applyDHCPOptions_keeps OnLease_def OnLeaseExpired_def)
qed

lemma start_scope_Inl: "start_scope monitored pxe via ifc addr d bs = Inl e \<Longrightarrow> e = FatalDHCP ifc"
  by (auto simp: start_scope_def split: option.splits)

text \<open>The outcome of a stage that starts servers.\<close>

definition serves :: "bool \<Rightarrow> (string \<times> string \<times> dhcp_config) list \<Rightarrow> fatal + (dhcp_entry \<times> string) list \<Rightarrow> bool" where
  "serves monitored scopes r = (case r of Inl e \<Rightarrow> e \<noteq> IndexPanic
     | Inr xs \<Rightarrow> map entry_scope xs = scopes \<and> (\<forall>x \<in> set xs. fresh_server monitored (entry_srv (fst x))))"

lemma serves_single:
  "serves monitored [(ifc, via, bs)] (case start_scope monitored pxe via ifc addr d bs of Inl e \<Rightarrow> Inl e | Inr x \<Rightarrow> Inr [x])"
  by (auto simp: serves_def dest: start_scope_Inr start_scope_Inl split: sum.split)

lemma start_vlans_serves:
  "length vcs \<le> length bases \<Longrightarrow> serves monitored (vlan_scopes vcs bases) (start_vlans monitored pxe vcs bases)"
proof (induction vcs arbitrary: bases)
  case (Cons vc vcs)
  then obtain b bs where bases: "bases = b # bs" by (cases bases) auto
  then have IH: "serves monitored (vlan_scopes vcs bs) (start_vlans monitored pxe vcs bs)" using Cons by simp
  let ?r = "start_scope monitored pxe (''V'' @ Itoa (VLAN_ID vc)) (BridgeName (VLAN_ID vc)) (VLAN_Address vc) (VLAN_DHCP vc) (VLAN_DHCP b)"
  show ?case
  proof (cases ?r)
    case (Inl e)
    then show ?thesis using IH start_scope_Inl [OF Inl] by (auto simp: bases serves_def vlan_scopes_def Let_def)
  next
    case (Inr x)
    then show ?thesis using IH start_scope_Inr [OF Inr]
      by (auto simp: bases serves_def vlan_scopes_def Let_def split: sum.splits)
  qed
qed (simp add: serves_def vlan_scopes_def)

lemma start_wired_serves:
  "length (Config_VLANs c) \<le> length (Config_VLANs base) \<Longrightarrow>
   serves monitored (wired_scopes c base) (start_wired monitored c base)"
  using start_vlans_serves [of "Config_VLANs c" "Config_VLANs base" monitored] serves_single
  by (auto simp: start_wired_def wired_scopes_def Let_def serves_def split del: sum.split)

lemma start_wifi_dhcp_serves:
  "serves monitored (if wifi_routed c wifiAP then [(wifi_iface c, ''W'', WiFi_DHCP (Config_WiFi base))] else [])
     (start_wifi_dhcp monitored c base wifiAP)"
  using serves_single by (auto simp: start_wifi_dhcp_def Let_def serves_def)

text \<open>A reload of the file the daemon was started with is accepted.\<close>

lemma check_vlan_address_set:
  "check_vlan_address i addr (set_vlan_address i addr vs) = None"
  "i \<noteq> j \<Longrightarrow> check_vlan_address i addr (set_vlan_address j b vs) = check_vlan_address i addr vs"
  by (induction vs) auto

lemma check_vlan_address_fold:
  "i \<notin> fst ` set xs \<Longrightarrow> check_vlan_address i addr (fold (\<lambda>(i, addr). set_vlan_address i addr) xs vs) = check_vlan_address i addr vs"
  by (induction xs arbitrary: vs) (auto simp: check_vlan_address_set)

lemma check_vlan_addresses_None:
  "check_vlan_addresses xs vs = None \<longleftrightarrow> (\<forall>(i, addr) \<in> set xs. check_vlan_address i addr vs = None)"
  by (induction xs) (auto split: option.splits)

lemma check_vlan_addresses_applied:
  "distinct (map fst xs) \<Longrightarrow> check_vlan_addresses xs (fold (\<lambda>(i, addr). set_vlan_address i addr) xs vs) = None"
proof (induction xs arbitrary: vs)
  case (Cons x xs)
  obtain i addr where x: "x = (i, addr)" by fastforce
  have "check_vlan_address i addr (fold (\<lambda>(i, addr). set_vlan_address i addr) xs (set_vlan_address i addr vs)) = None"
    using Cons.prems by (subst check_vlan_address_fold) (auto simp: x check_vlan_address_set)
  with Cons show ?case by (simp add: x)
qed simp

lemma check_vlan_address_scopes:
  "check_vlan_address i addr (map (\<lambda>v. v\<lparr>VLAN_DHCP := f v\<rparr>) vs) = check_vlan_address i addr vs"
  by (induction vs) auto

lemma check_applied_extras:
  assumes "gwf (entries (Extras_VLANAddresses e))"
  shows "check_vlan_addresses (entries (Extras_VLANAddresses e)) (Config_VLANs (ApplyExtras (Some e) c)) = None"
proof -
  have "check_vlan_addresses (entries (Extras_VLANAddresses e))
      (fold (\<lambda>(i, addr). set_vlan_address i addr) (entries (Extras_VLANAddresses e)) vs) = None" for vs
    using assms by (intro check_vlan_addresses_applied) simp
  then show ?thesis
    by (simp add: ApplyExtras_def Let_def map_scopes_def check_vlan_addresses_None check_vlan_address_scopes)
qed

text \<open>What a start gives: no panic, the scopes of the configuration, and a reloader that knows them.\<close>

definition booted :: "boot_state \<Rightarrow> fatal + daemon \<times> 's \<Rightarrow> bool" where
  "booted b r = (case r of Inl e \<Rightarrow> e \<noteq> IndexPanic | Inr (d, s) \<Rightarrow>
     map entry_scope (dm_entries d) = boot_scopes (boot_cfg b) (boot_base b) (dm_ap d) \<and>
     (\<forall>x \<in> set (dm_entries d). fresh_server (dm_mon d \<noteq> None) (entry_srv (fst x))) \<and>
     rel_dhcpEntries (dm_rel d) = map fst (dm_entries d) \<and> rel_cfg (dm_rel d) = boot_cfg b \<and>
     rel_appliedSMBUsers (dm_rel d) = extrasSMBUsers (boot_extras b))"

lemma start_wifi_no_panic: "start_wifi w available c mgr f s = Inl e \<Longrightarrow> e \<noteq> IndexPanic"
  by (auto simp: start_wifi_def route_wifi_def Let_def split: if_splits sum.splits option.splits prod.splits)

lemma zip_fst_snd_append: "zip (map fst xs @ map fst ys) (map snd xs @ map snd ys) = xs @ ys"
  by (simp add: zip_map_fst_snd)

lemma start_services_booted:
  assumes "length (Config_VLANs (boot_cfg b)) \<le> length (Config_VLANs (boot_base b))"
  shows "booted b (start_services w available b mgr f s)"
proof (cases "start_wifi w available (boot_cfg b) mgr f s")
  case (Inl e)
  then show ?thesis using start_wifi_no_panic [OF Inl] by (simp add: start_services_def Let_def booted_def)
next
  case (Inr x)
  obtain a mgr' f1 s1 where x: "x = (a, mgr', f1, s1)" by (metis prod_cases4)
  define mon where "mon = start_monitor w (boot_cfg b)"
  define m where "m \<longleftrightarrow> mon \<noteq> None"
  note wired = start_wired_serves [OF assms, of m]
    and wireless = start_wifi_dhcp_serves [of m "boot_cfg b" a "boot_base b"]
  show ?thesis
  proof (cases "start_wired m (boot_cfg b) (boot_base b)")
    case (Inl e)
    with wired Inr show ?thesis by (simp add: start_services_def Let_def booted_def x serves_def mon_def [symmetric] m_def [symmetric] del: not_None_eq)
  next
    case wi: (Inr xs)
    with wired wireless Inr show ?thesis
      by (cases "start_wifi_dhcp m (boot_cfg b) (boot_base b) a")
        (simp_all add: start_services_def Let_def booted_def x serves_def boot_scopes_def dm_entries_def zip_fst_snd_append ball_Un
          mon_def [symmetric] m_def [symmetric] del: not_None_eq)
  qed
qed

lemma boot_config_lengths:
  "length (Config_VLANs (boot_cfg (boot_config dj d e env p f))) = length (Config_VLANs (boot_base (boot_config dj d e env p f)))"
  by (auto simp: boot_config_def Let_def derive_service_paths_def cloneConfig_def map_scopes_def ApplyExtras_VLANs(1)
      ApplyExtras_def fold_set_vlan_address_nth fold_apply_reservation split: prod.splits option.splits)

lemma boot_config_reload:
  assumes "boot_extras (boot_config dj d e env p f) = Some x" and "gwf (entries (Extras_VLANAddresses x))"
  shows "check_vlan_addresses (entries (Extras_VLANAddresses x)) (Config_VLANs (boot_cfg (boot_config dj d e env p f))) = None"
proof -
  obtain c where "boot_cfg (boot_config dj d e env p f) = derive_service_paths (ApplyExtras (Some x) c)"
    using assms(1) by (auto simp: boot_config_def Let_def split: prod.splits)
  then show ?thesis using check_applied_extras [OF assms(2)] by (simp add: derive_service_paths_def Let_def)
qed

lemma mount_Mount_ends:
  assumes "\<And>i. env_now w i + d \<le> env_now w (Suc i)" and "0 < d"
  shows "\<exists>r. mount_Mount w cfg = Some r"
  using waitForDevice_iff [OF assms] by (auto simp: mount_Mount_def split: option.split bool.split)

lemma daemon_boot_booted:
  assumes "\<And>i. env_now (de_mount w) i + t \<le> env_now (de_mount w) (Suc i)" and "\<And>i. de_now w i + t \<le> de_now w (Suc i)"
    and "0 < t" and "length (Config_VLANs (boot_cfg b)) \<le> length (Config_VLANs (boot_base b))"
  shows "\<exists>r. daemon_boot w b s = Some r \<and> booted b r"
proof -
  obtain merr cmds where m: "mount_Mount (de_mount w) (Services_Mount (Config_Services (boot_cfg b))) = Some (merr, cmds)"
    using mount_Mount_ends [of "de_mount w", OF assms(1,3)] by fastforce
  have "\<exists>r. main_waitForInterface w name timeout = Some r" for name timeout
    unfolding main_waitForInterface_def poll_loop_ends [of "de_now w", OF assms(2,3)] by blast
  then obtain available where a: "\<And>name timeout. main_waitForInterface w name timeout = Some (available name timeout)"
    by metis
  have fail: "booted b (Inl e)" if "e \<noteq> IndexPanic" for e using that by (simp add: booted_def)
  show ?thesis
  proof (cases merr)
    case (Some e)
    then show ?thesis using fail [of "FatalMount e"] by (simp add: daemon_boot_def Let_def m)
  next
    case None
    obtain nerr s1 where n: "setup_network (de_netlink w) (boot_cfg b) s = (nerr, s1)" by fastforce
    obtain ferr f1 where f: "EnableForwarding (boot_fs b) = (ferr, f1)" by fastforce
    consider e where "daemon_boot w b s = Some (Inl e)" "e \<noteq> IndexPanic"
      | avail mgr where "daemon_boot w b s = Some (start_services w avail b mgr f1 s1)"
      by (cases nerr; cases ferr; cases "setup_firewall (de_lookup w) (de_flush w) (boot_cfg b)";
        cases "WiFi_Enabled (Config_WiFi (boot_cfg b))") (simp_all add: daemon_boot_def Let_def m None n f a)
    then show ?thesis
    proof cases
      case (1 e)
      then show ?thesis using fail [of e] by simp
    next
      case (2 avail mgr)
      then show ?thesis using start_services_booted [OF assms(4), of w avail mgr f1 s1] by simp
    qed
  qed
qed

text \<open>
  C8: The start of the daemon always comes to an end, and never in a panic. If it succeeds, exactly the
  scopes that are enabled in the effective configuration are served, in order, each on its own bridge
  or interface and tied to its scope in router.json; every server starts without a lease, in a state
  for which the safety of the lease table is proved, and reports to the monitor if there is one; and a
  reload of the extras file the daemon was started with is accepted.
\<close>

theorem boot_serves_configuration:
  assumes "\<forall>i. env_now (de_mount w) i + t \<le> env_now (de_mount w) (Suc i)" and "\<forall>i. de_now w i + t \<le> de_now w (Suc i)"
    and "0 < t" and "b = boot_config decodeJSON decode encode env path f"
  shows "\<exists>r. daemon_main w decodeJSON decode encode env path f s = Some r \<and> (case r of Inl e \<Rightarrow> e \<noteq> IndexPanic | Inr (d, s') \<Rightarrow>
    map entry_scope (dm_entries d) = boot_scopes (boot_cfg b) (boot_base b) (dm_ap d) \<and>
    (\<forall>x \<in> set (dm_entries d). fresh_server (dm_mon d \<noteq> None) (entry_srv (fst x))) \<and>
    (\<forall>e. boot_extras b = Some e \<longrightarrow> gwf (entries (Extras_VLANAddresses e)) \<longrightarrow>
      (\<exists>r'. reload_apply e (dm_rel d) = (None, r'))))"
proof -
  have "length (Config_VLANs (boot_cfg b)) \<le> length (Config_VLANs (boot_base b))"
    unfolding assms(4) boot_config_lengths by simp
  then have "\<exists>r. daemon_boot w b s = Some r \<and> booted b r"
    by (rule daemon_boot_booted [OF assms(1,2) [THEN spec] assms(3)])
  then obtain r where r: "daemon_boot w b s = Some r" "booted b r" by (elim exE conjE)
  have "\<exists>r'. reload_apply e (dm_rel d) = (None, r')"
    if "r = Inr (d, s')" "boot_extras b = Some e" "gwf (entries (Extras_VLANAddresses e))" for d s' e
  proof -
    have "rel_cfg (dm_rel d) = boot_cfg b" "rel_appliedSMBUsers (dm_rel d) = Extras_SMBUsers e"
      using r(2) that(1,2) by (simp_all add: booted_def extrasSMBUsers_def)
    then have "checkRestartRequired e (dm_rel d) = None"
      using boot_config_reload [of decodeJSON decode encode env path f e] that(2,3)
      by (simp add: checkRestartRequired_def equalSMBUsers_def assms(4))
    then show ?thesis by (simp add: reload_apply_def Let_def)
  qed
  moreover have "daemon_main w decodeJSON decode encode env path f s = Some r" using r(1) by (simp add: daemon_main_def assms(4))
  ultimately show ?thesis using r(2) by (auto simp: booted_def split: sum.splits)
qed

text \<open>Two VLANs, the second without DHCP, on a machine on which every call succeeds.\<close>

definition demo_boot_config :: config where
  "demo_boot_config = Default\<lparr>Config_VLANs := map (\<lambda>v. v\<lparr>VLAN_Isolated := (VLAN_ID v = 20), VLAN_DHCP := zero_dhcp\<lparr>DHCP_Enabled := (VLAN_ID v = 10),
       DHCP_RangeStart := ''10.0.0.100'', DHCP_RangeEnd := ''10.0.0.200'', DHCP_LeaseDuration := ''1h''\<rparr>\<rparr>) demo_vlans,
     Config_Services := zero_services\<lparr>Services_ExtrasFile := ''/x.toml''\<rparr>\<rparr>"

definition demo_boot_extras :: extras_config where
  "demo_boot_extras = zero_extras\<lparr>Extras_VLANAddresses := Some [(10, ''10.0.0.254/24'')]\<rparr>"

definition demo_boot :: boot_state where
  "demo_boot = boot_config (\<lambda>b. Inr demo_boot_config) (\<lambda>b. Inr demo_boot_extras) (\<lambda>e. Inr []) (\<lambda>x. []) ''/c.json''
     \<lparr>fs_open = (\<lambda>p. FileData []), fs_writable = (\<lambda>_. True)\<rparr>"

definition demo_daemon_env :: "((string \<Rightarrow> string link option), string) daemon_env" where
  "demo_daemon_env = \<lparr>de_netlink = link_table Some, de_lookup = (\<lambda>_. True), de_flush = (\<lambda>_. True), de_kernel = good_kernel,
     de_addrs = (\<lambda>_. None),
     de_mount = \<lparr>env_start = 0, env_now = int, env_stat = (\<lambda>_ _. True), env_mkdir = (\<lambda>_. True), env_mounts = Some [],
       env_run = (\<lambda>_. True)\<rparr>,
     de_smb = \<lparr>senv_int = 0, senv_mkdir = (\<lambda>_. True), senv_stat = (\<lambda>_. True), senv_write = (\<lambda>_ _. True),
       senv_run = (\<lambda>_ _. RunOk), senv_spawn = (\<lambda>_. True)\<rparr>,
     de_start = 0, de_now = int, de_link = (\<lambda>_ _. True), de_launch = \<lparr>le_mkdir = True, le_pipe = True, le_start = True\<rparr>, de_macmap = (\<lambda>_. Inl [])\<rparr>"

lemma demo_boot_ok: "\<not> isl (the (daemon_boot demo_daemon_env demo_boot demo_links))"
  by code_simp

lemma demo_booted: "\<exists>d s'. daemon_boot demo_daemon_env demo_boot demo_links = Some (Inr (d, s'))"
proof -
  have "daemon_boot demo_daemon_env demo_boot demo_links \<noteq> None" by code_simp
  then obtain r where r: "daemon_boot demo_daemon_env demo_boot demo_links = Some r" by fast
  with demo_boot_ok show ?thesis by (cases r) auto
qed

lemma demo_boot_scopes: "map fst (boot_scopes (boot_cfg demo_boot) (boot_base demo_boot) a) = [''br-vlan10'']"
proof -
  have "map fst (wired_scopes (boot_cfg demo_boot) (boot_base demo_boot)) = [''br-vlan10'']"
    "WiFi_Address (Config_WiFi (boot_cfg demo_boot)) = []"
    by code_simp+
  then show ?thesis by (simp add: boot_scopes_def wifi_routed_def split: option.split)
qed

theorem boot_serves_configuration_witness:
  "\<exists>d s' r'. daemon_boot demo_daemon_env demo_boot demo_links = Some (Inr (d, s')) \<and>
     map (fst \<circ> entry_scope) (dm_entries d) = [''br-vlan10''] \<and> reload_apply demo_boot_extras (dm_rel d) = (None, r')"
proof -
  have clocks: "\<forall>i. env_now (de_mount demo_daemon_env) i + 1 \<le> env_now (de_mount demo_daemon_env) (Suc i)"
    "\<forall>i. de_now demo_daemon_env i + 1 \<le> de_now demo_daemon_env (Suc i)"
    by (simp_all add: demo_daemon_env_def)
  obtain r where r: "daemon_boot demo_daemon_env demo_boot demo_links = Some r" "\<not> isl r"
    and out: "case r of Inl e \<Rightarrow> e \<noteq> IndexPanic | Inr (d, s') \<Rightarrow>
      map entry_scope (dm_entries d) = boot_scopes (boot_cfg demo_boot) (boot_base demo_boot) (dm_ap d) \<and>
      (\<forall>x \<in> set (dm_entries d). fresh_server (dm_mon d \<noteq> None) (entry_srv (fst x))) \<and>
      (\<forall>e. boot_extras demo_boot = Some e \<longrightarrow> gwf (entries (Extras_VLANAddresses e)) \<longrightarrow>
        (\<exists>r'. reload_apply e (dm_rel d) = (None, r')))"
    using boot_serves_configuration [OF clocks zero_less_one demo_boot_def, of demo_links] demo_boot_ok
    unfolding daemon_main_def demo_boot_def [symmetric] by auto
  obtain d s' where d: "r = Inr (d, s')" using r(2) by (cases r) auto
  have x: "boot_extras demo_boot = Some demo_boot_extras" "gwf (entries (Extras_VLANAddresses demo_boot_extras))"
    by code_simp+
  note demo_boot_scopes
  moreover obtain r' where "reload_apply demo_boot_extras (dm_rel d) = (None, r')" using out x by (auto simp: d)
  ultimately show ?thesis using r(1) out by (auto simp: d simp flip: map_map)
qed

subsection \<open>A client of the access point that comes back\<close>

text \<open>The one address at which a client is shown as connected.\<close>

definition shown_at :: "monitor \<Rightarrow> string \<Rightarrow> ip \<Rightarrow> bool" where
  "shown_at m mac a \<longleftrightarrow> length a = 4 \<and>
     (\<exists>e. glookup (mon_clients m) (IPv4_String a) = Some e \<and> ce_Connected e \<and> ce_MAC e = mac) \<and>
     (\<forall>(k, e) \<in> set (mon_clients m). ce_MAC e = mac \<and> ce_Connected e \<longrightarrow> ce_IP e = a)"

lemma RemoveClientByMAC_step:
  assumes "mon_inv m" and "shown_at m mac a"
  shows "snd (RemoveClientByMAC good_kernel now mac m) = mon_step (LeaseOver a now) m"
proof -
  obtain e where e: "glookup (mon_clients m) (IPv4_String a) = Some e" "ce_Connected e" "ce_MAC e = mac"
    using assms(2) by (auto simp: shown_at_def)
  let ?P = "\<lambda>(k, e). ce_MAC e = mac \<and> ce_Connected e"
  have "find ?P (mon_clients m) \<noteq> None"
    using e map_of_SomeD [OF e(1)] by (auto simp: find_None_iff)
  then obtain k x where f: "find ?P (mon_clients m) = Some (k, x)" by fastforce
  then have "(k, x) \<in> set (mon_clients m)" "ce_MAC x = mac \<and> ce_Connected x"
    by (auto simp: find_Some_iff dest: nth_mem)
  then have "ce_IP x = a" using assms(2) by (auto simp: shown_at_def)
  moreover have "a \<noteq> []" using assms(2) by (auto simp: shown_at_def)
  ultimately show ?thesis using f by (simp add: RemoveClientByMAC_def case_prod_unfold)
qed

text \<open>
  C38: When a client leaves the access point, the status shows it as disconnected. If it comes back while
  its lease lasts and has no reservation, no request of it makes the status show it again, although it
  holds and gets its address: an existing lease fires no callback, and an association only writes a
  log line. A client with a reservation is shown again after its next request.
\<close>

theorem reassociated_client_hidden:
  assumes "srv_onLease s" and "mon_inv m" and "shown_at m mac a"
    and "held s t mac = Some a"
    and "on_client good_kernel t \<lparr>ev_MAC = mac, ev_Associated = True\<rparr>
      (on_client good_kernel now \<lparr>ev_MAC = mac, ev_Associated = False\<rparr> (Some m)) = Some m'"
    and "allocate s t mac = Some (s', b, evs)"
  shows "connected m a \<and> \<not> connected m' a \<and>
    (glookup (srv_reservations s) (dhcp_normalizeMAC mac) = None \<longrightarrow>
      s' = s \<and> b = a \<and> \<not> connected (fold (on_lease_event good_kernel t via) evs m') a) \<and>
    (glookup (srv_reservations s) (dhcp_normalizeMAC mac) = Some a \<longrightarrow>
      b = a \<and> connected (fold (on_lease_event good_kernel t via) evs m') a)"
proof -
  have len: "length a = 4" and To4: "To4 a = a" using assms(3) by (auto simp: shown_at_def To4_def)
  have m': "m' = mon_step (LeaseOver a now) m"
    using assms(5) RemoveClientByMAC_step [OF assms(2,3)] by (simp add: on_client_def)
  have ok: "event_ok (LeaseOver a now)" using len by (auto simp: To4)
  have inv: "mon_inv m'" and off: "online_clients m' = online_clients m - {a}"
    using mon_step_refines [OF assms(2) ok] online_step [OF assms(2) ok] by (simp_all add: m' To4 del: mon_step.simps)
  have "connected m a" using assms(3) by (auto simp: shown_at_def connected_def)
  moreover have gone: "\<not> connected m' a" using off len by (auto simp: online_clients_def)
  moreover have "s' = s \<and> b = a \<and> evs = []" if "glookup (srv_reservations s) (dhcp_normalizeMAC mac) = None"
    using assms(4,6) that by (simp add: allocate_cases)
  moreover have "b = a \<and> connected (fold (on_lease_event good_kernel t via) evs m') a"
    if "glookup (srv_reservations s) (dhcp_normalizeMAC mac) = Some a"
  proof -
    have "b = a" "evs = [LeaseCallback a mac]"
      using assms(1,6) that by (auto simp: allocate_cases lease_callback_def)
    moreover have "online_clients (on_lease_event good_kernel t via (LeaseCallback a mac) m') = insert a (online_clients m')"
      using status_observer.notify [OF inv, of "LeaseCallback a mac" t via] len by simp
    ultimately show ?thesis by (auto simp: online_clients_def)
  qed
  ultimately show ?thesis by auto
qed

theorem reassociated_client_hidden_witness:
  "\<exists>m m' s'. on_client good_kernel 60 \<lparr>ev_MAC = ''aa'', ev_Associated = True\<rparr>
      (on_client good_kernel 50 \<lparr>ev_MAC = ''aa'', ev_Associated = False\<rparr> (Some m)) = Some m' \<and>
     allocate single_leased 60 ''aa'' = Some (s', [10, 0, 0, 50], []) \<and>
     connected m [10, 0, 0, 50] \<and> \<not> connected m' [10, 0, 0, 50]"
proof -
  define m where "m = mon_step (LeaseGiven [10, 0, 0, 50] ''aa'' ''W'' 0) demo_monitor"
  have To4: "To4 [10, 0, 0, 50] = [10, 0, 0, 50]" by code_simp
  have inv: "mon_inv m"
    using mon_step_refines [of demo_monitor "LeaseGiven [10, 0, 0, 50] ''aa'' ''W'' 0"] monitor_New_inv [OF demo_monitor_new] To4
    by (simp add: m_def del: mon_step.simps)
  have "mon_clients demo_monitor = []" "mon_gatewayIPs demo_monitor = []"
    by (simp_all add: demo_monitor_def monitor_New_def gateway_addrs_def)
  then have "mon_clients m = [(IPv4_String [10, 0, 0, 50], connect_entry [10, 0, 0, 50] ''aa'' ''W'' 0 None)]"
    by (simp add: m_def AddClient_def Let_def To4)
  then have shown: "shown_at m ''aa'' [10, 0, 0, 50]" by (simp add: shown_at_def connect_entry_def)
  obtain m' where m': "on_client good_kernel 60 \<lparr>ev_MAC = ''aa'', ev_Associated = True\<rparr>
      (on_client good_kernel 50 \<lparr>ev_MAC = ''aa'', ev_Associated = False\<rparr> (Some m)) = Some m'"
    by (simp add: on_client_def)
  have al: "allocate single_leased 60 ''aa'' = Some (single_leased, [10, 0, 0, 50], [])"
    "held single_leased 60 ''aa'' = Some [10, 0, 0, 50]" "srv_onLease single_leased"
    by (simp_all add: allocate_def held_def single_defs)
  from reassociated_client_hidden [OF al(3) inv shown al(2) m' al(1)] m' al(1) show ?thesis by blast
qed

end
