(* ===== verification/Daemon_Run.thy ===== *)
theory Daemon_Run
  imports Daemon_Props Firewall_Props
begin

section \<open>The running daemon\<close>

text \<open>
  The daemon from its start on: packets for any of its DHCP servers, rounds of their reapers, HTTP
  requests, output of hostapd and passing time, in any order. What holds of one server holds of
  every server of the daemon, whatever the other services do.
\<close>

inductive daemon_run ::
  "('s, 'a) daemon_env \<Rightarrow> (bytes \<Rightarrow> string + extras_config) \<Rightarrow> (extras_config \<Rightarrow> string + bytes) \<Rightarrow>
   (dhcp_request \<Rightarrow> modifier list \<Rightarrow> 'e + 'r) \<Rightarrow> ('r \<Rightarrow> bytes) \<Rightarrow> boot_state \<Rightarrow> daemon \<times> instant \<Rightarrow> bool"
  for w decode encode newReply toBytes b where
  booted: "daemon_boot w b s = Some (Inr (d, s')) \<Longrightarrow> daemon_run w decode encode newReply toBytes b (d, now)"
| clock: "daemon_run w decode encode newReply toBytes b (d, now) \<Longrightarrow> now \<le> now' \<Longrightarrow>
    daemon_run w decode encode newReply toBytes b (d, now')"
| packet: "daemon_run w decode encode newReply toBytes b (d, now) \<Longrightarrow> i < length (rel_dhcpEntries (dm_rel d)) \<Longrightarrow>
    handler newReply toBytes (entry_srv (rel_dhcpEntries (dm_rel d) ! i)) now peer req = Some (srv, out, evs) \<Longrightarrow>
    daemon_run w decode encode newReply toBytes b (served (de_kernel w) now i srv evs d, now)"
| reap: "daemon_run w decode encode newReply toBytes b (d, now) \<Longrightarrow> i < length (rel_dhcpEntries (dm_rel d)) \<Longrightarrow>
    reapExpiredLeases now (entry_srv (rel_dhcpEntries (dm_rel d) ! i)) = (srv, evs) \<Longrightarrow>
    daemon_run w decode encode newReply toBytes b (served (de_kernel w) now i srv evs d, now)"
| http: "daemon_run w decode encode newReply toBytes b (d, now) \<Longrightarrow> daemon_http decode encode path req d = (code, d') \<Longrightarrow>
    daemon_run w decode encode newReply toBytes b (d', now)"
| hostapd: "daemon_run w decode encode newReply toBytes b (d, now) \<Longrightarrow>
    daemon_run w decode encode newReply toBytes b (hostapd_output (de_kernel w) now ls d, now)"

subsection \<open>What every step keeps\<close>

text \<open>Two servers of the same scope: on the same interface, for the same scope of router.json.\<close>

definition same_scope :: "dhcp_entry \<Rightarrow> dhcp_entry \<Rightarrow> bool" where
  "same_scope e e' \<longleftrightarrow> srv_iface (entry_srv e') = srv_iface (entry_srv e) \<and> entry_baseScope e' = entry_baseScope e"

definition daemon_inv :: "boot_state \<Rightarrow> daemon \<Rightarrow> instant \<Rightarrow> bool" where
  "daemon_inv b d now \<longleftrightarrow> map entry_scope (dm_entries d) = boot_scopes (boot_cfg b) (boot_base b) (dm_ap d) \<and>
     length (rel_dhcpEntries (dm_rel d)) \<le> length (dm_vias d) \<and>
     (\<forall>e \<in> set (rel_dhcpEntries (dm_rel d)). dhcp_reachable (entry_srv e, now))"

lemma same_scopes:
  assumes "list_all2 same_scope es es'"
  shows "map entry_scope (zip es' vs) = map entry_scope (zip es vs)"
  using assms
proof (induction es es' arbitrary: vs rule: list_all2_induct)
  case (Cons e es e' es')
  then show ?case by (cases vs) (simp_all add: entry_scope_def same_scope_def)
qed simp

lemma daemon_inv_entries:
  assumes "daemon_inv b d now" and "list_all2 same_scope (rel_dhcpEntries (dm_rel d)) (rel_dhcpEntries (dm_rel d'))"
    and "dm_vias d' = dm_vias d" and "dm_ap d' = dm_ap d"
    and "\<forall>e \<in> set (rel_dhcpEntries (dm_rel d')). dhcp_reachable (entry_srv e, now)"
  shows "daemon_inv b d' now"
  using assms same_scopes [OF assms(2), of "dm_vias d"] list_all2_lengthD [OF assms(2)]
  by (simp add: daemon_inv_def dm_entries_def)

lemma served_inv:
  assumes "daemon_inv b d now" and "i < length (rel_dhcpEntries (dm_rel d))" and "dhcp_reachable (srv, now)"
    and "srv_iface srv = srv_iface (entry_srv (rel_dhcpEntries (dm_rel d) ! i))"
  shows "daemon_inv b (served k now i srv evs d) now"
proof (rule daemon_inv_entries [OF assms(1)])
  show "list_all2 same_scope (rel_dhcpEntries (dm_rel d)) (rel_dhcpEntries (dm_rel (served k now i srv evs d)))"
    using assms(2,4) by (auto simp: served_def Let_def list_all2_conv_all_nth same_scope_def nth_list_update)
  show "\<forall>e \<in> set (rel_dhcpEntries (dm_rel (served k now i srv evs d))). dhcp_reachable (entry_srv e, now)"
    using assms(1,3) by (auto simp: served_def Let_def daemon_inv_def dest!: set_update_subset_insert [THEN subsetD])
qed (simp_all add: served_def Let_def)

lemma allocate_iface: "allocate s now mac = Some (s', a, evs) \<Longrightarrow> srv_iface s' = srv_iface s"
  by (auto simp: allocate_def allocate_dynamic_def put_lease_def clearLeasesForIP_def split: option.splits if_splits bind_splits)

lemma handler_step:
  assumes "handler newReply toBytes s now peer req = Some (s', out, evs)" and "dhcp_reachable (s, now)"
  shows "dhcp_reachable (s', now) \<and> srv_iface s' = srv_iface s"
proof -
  have "s' = s \<or> (\<exists>mac a. allocate s now mac = Some (s', a, evs))"
    using assms(1) by (fastforce simp: handler_def Let_def split: if_splits message_type.splits sum.splits bind_splits)
  then show ?thesis
    using assms(2) allocate_iface dhcp_reachable.step [OF _ dhcp_step.request] by metis
qed

lemma reload_entry_scope: "same_scope e (reload_entry cfg extras e)"
  by (simp add: same_scope_def reload_entry_def Let_def applyPXEBootOptions_def setting_defs SetReservations_def)

lemma reload_apply_scopes:
  "list_all2 same_scope (rel_dhcpEntries r) (rel_dhcpEntries (snd (reload_apply extras r))) \<and>
   ((\<forall>e \<in> set (rel_dhcpEntries r). dhcp_reachable (entry_srv e, now)) \<longrightarrow>
    (\<forall>e \<in> set (rel_dhcpEntries (snd (reload_apply extras r))). dhcp_reachable (entry_srv e, now)))"
proof (cases "checkRestartRequired extras r")
  case None
  then have "rel_dhcpEntries (snd (reload_apply extras r)) =
      map (reload_entry (ApplyExtras (Some extras) (rel_cfg r)) extras) (rel_dhcpEntries r)"
    by (simp add: reload_apply_def Let_def)
  then show ?thesis using reload_entry_scope reload_entry_srv(3) by (auto simp: list_all2_conv_all_nth)
next
  case (Some e)
  then show ?thesis by (simp add: reload_apply_def list_all2_conv_all_nth same_scope_def)
qed

lemma reload_endpoint_result:
  assumes "reload_endpoint decode encode api req r f = (code, r', f')"
  shows "r' = r \<or> (\<exists>extras. r' = snd (reload_apply extras r))"
proof (cases "r' = r")
  case False
  then obtain err where "Reload decode encode r f = (err, r', f')"
    using assms by (auto simp: reload_endpoint_def split: if_splits prod.splits option.splits)
  then have "r' = r \<or> r' = snd (reload_apply (case fst (loadOrCreateExtras decode encode (rel_extrasPath r) (rel_cfg r) f) of
      Inl e \<Rightarrow> zero_extras | Inr e \<Rightarrow> e) r)"
    by (auto simp: Reload_def Let_def case_prod_beta split: if_splits)
  then show ?thesis by blast
qed simp

lemma reload_inv:
  assumes "daemon_inv b d now" and "daemon_http decode encode path req d = (code, d')"
  shows "daemon_inv b d' now"
proof (rule daemon_inv_entries [OF assms(1)])
  have r: "dm_rel d' = dm_rel d \<or> (\<exists>extras. dm_rel d' = snd (reload_apply extras (dm_rel d)))"
    "dm_vias d' = dm_vias d" "dm_ap d' = dm_ap d"
    using assms(2) by (auto simp: daemon_http_def dest!: reload_endpoint_result split: if_splits prod.splits)
  then show "dm_vias d' = dm_vias d" "dm_ap d' = dm_ap d" by simp_all
  show "list_all2 same_scope (rel_dhcpEntries (dm_rel d)) (rel_dhcpEntries (dm_rel d'))"
    using r(1)
  proof
    assume "dm_rel d' = dm_rel d"
    then show ?thesis by (simp add: list_all2_conv_all_nth same_scope_def)
  qed (use reload_apply_scopes in auto)
  show "\<forall>e \<in> set (rel_dhcpEntries (dm_rel d')). dhcp_reachable (entry_srv e, now)"
    using r(1)
  proof
    assume "dm_rel d' = dm_rel d"
    then show ?thesis using assms(1) by (simp add: daemon_inv_def)
  next
    assume "\<exists>extras. dm_rel d' = snd (reload_apply extras (dm_rel d))"
    then show ?thesis using reload_apply_scopes [of "dm_rel d"] assms(1) by (auto simp: daemon_inv_def)
  qed
qed

lemma hostapd_inv: "daemon_inv b d now \<Longrightarrow> daemon_inv b (hostapd_output k now ls d) now"
proof -
  assume inv: "daemon_inv b d now"
  have "ap_macMap (fold handleEvent evs a) = ap_macMap a" for evs a
    by (induction evs arbitrary: a) (simp_all add: handleEvent_def)
  then have "boot_scopes c base (dm_ap (hostapd_output k now ls d)) = boot_scopes c base (dm_ap d)" for c base
    by (auto simp: hostapd_output_def parseOutput_def Let_def boot_scopes_def wifi_routed_def split: option.split)
  with inv show ?thesis
    by (auto simp: daemon_inv_def dm_entries_def hostapd_output_def parseOutput_def Let_def split: option.splits)
qed

lemma booted_inv:
  assumes "booted b (Inr (d, s'))"
  shows "daemon_inv b d now"
proof -
  have d: "map entry_scope (dm_entries d) = boot_scopes (boot_cfg b) (boot_base b) (dm_ap d)"
    "\<forall>x \<in> set (dm_entries d). fresh_server (dm_mon d \<noteq> None) (entry_srv (fst x))"
    "rel_dhcpEntries (dm_rel d) = map fst (dm_entries d)"
    using assms by (simp_all add: booted_def)
  have "length (rel_dhcpEntries (dm_rel d)) \<le> length (dm_vias d)"
    using arg_cong [OF d(3), of length] by (simp add: dm_entries_def)
  with d show ?thesis by (auto simp: daemon_inv_def fresh_server_def)
qed

lemma daemon_run_inv:
  assumes "length (Config_VLANs (boot_cfg b)) \<le> length (Config_VLANs (boot_base b))"
    and "\<And>i. env_now (de_mount w) i + t \<le> env_now (de_mount w) (Suc i)" and "\<And>i. de_now w i + t \<le> de_now w (Suc i)" and "0 < t"
  shows "daemon_run w decode encode newReply toBytes b st \<Longrightarrow> case st of (d, now) \<Rightarrow> daemon_inv b d now"
proof (induction rule: daemon_run.induct)
  case (booted s d s' now)
  have "\<exists>r. daemon_boot w b s = Some r \<and> booted b r" by (rule daemon_boot_booted [OF assms(2-4,1)])
  then show ?case using booted booted_inv by auto
next
  case (clock d now now')
  then show ?case using dhcp_reachable.step [OF _ dhcp_step.clock] by (auto simp: daemon_inv_def)
next
  case (packet d now i peer req srv out evs)
  then have "dhcp_reachable (entry_srv (rel_dhcpEntries (dm_rel d) ! i), now)" by (simp add: daemon_inv_def)
  then show ?case using handler_step [OF packet.hyps(3)] served_inv [OF _ packet.hyps(2)] packet.IH by simp
next
  case (reap d now i srv evs)
  then have r: "dhcp_reachable (entry_srv (rel_dhcpEntries (dm_rel d) ! i), now)" by (simp add: daemon_inv_def)
  have "srv_iface srv = srv_iface (entry_srv (rel_dhcpEntries (dm_rel d) ! i))"
    using reap.hyps(3) by (auto simp: reapExpiredLeases_def Let_def)
  then show ?case
    using served_inv [OF _ reap.hyps(2) dhcp_reachable.step [OF r dhcp_step.reap [OF reap.hyps(3)]]] reap.IH by simp
next
  case (http d now path req code d')
  then show ?case using reload_inv by simp
next
  case (hostapd d now ls)
  then show ?case using hostapd_inv by simp
qed

text \<open>
  C1: At any time after a successful start, whatever packets, reloads and events have come in, the
  daemon serves exactly the scopes it was started with, each on its interface and tied to its scope of
  router.json, and no two clients of a scope hold the same address.
\<close>

theorem running_daemon_exclusive:
  assumes "\<forall>i. env_now (de_mount w) i + t \<le> env_now (de_mount w) (Suc i)" and "\<forall>i. de_now w i + t \<le> de_now w (Suc i)"
    and "0 < t" and "b = boot_config decodeJSON decode encode env path f"
    and "daemon_run w decode encode newReply toBytes b (d, now)"
  shows "map entry_scope (dm_entries d) = boot_scopes (boot_cfg b) (boot_base b) (dm_ap d) \<and>
    (\<forall>x \<in> set (dm_entries d). \<forall>m1 m2 a. held (entry_srv (fst x)) now m1 = Some a \<longrightarrow> m1 \<noteq> m2 \<longrightarrow>
      held (entry_srv (fst x)) now m2 \<noteq> Some a)"
proof -
  have "length (Config_VLANs (boot_cfg b)) \<le> length (Config_VLANs (boot_base b))"
    unfolding assms(4) boot_config_lengths by simp
  then have inv: "daemon_inv b d now"
    using daemon_run_inv [OF _ assms(1,2) [THEN spec] assms(3,5)] by simp
  have "held (entry_srv e) now m2 \<noteq> Some a"
    if "e \<in> set (rel_dhcpEntries (dm_rel d))" "held (entry_srv e) now m1 = Some a" "m1 \<noteq> m2" for e m1 m2 a
    using exclusive_held [of "entry_srv e" now m1 a m2] reachable_inv [of "(entry_srv e, now)"] inv that
    by (auto simp: daemon_inv_def)
  then show ?thesis
    using inv by (auto simp: daemon_inv_def dm_entries_def dest!: set_zip_leftD)
qed

theorem running_daemon_exclusive_witness:
  "\<exists>d. daemon_run demo_daemon_env (\<lambda>b. Inr demo_boot_extras) (\<lambda>e. Inr []) demo_newReply id demo_boot (d, 60) \<and>
     map (fst \<circ> entry_scope) (dm_entries d) = [''br-vlan10'']"
proof -
  obtain d s' where boot: "daemon_boot demo_daemon_env demo_boot demo_links = Some (Inr (d, s'))"
    using demo_booted by (elim exE)
  obtain code d' where h: "daemon_http (\<lambda>b. Inr demo_boot_extras) (\<lambda>e. Inr []) ''/api/reload'' demo_post d = (code, d')" by fastforce
  have run: "daemon_run demo_daemon_env (\<lambda>b. Inr demo_boot_extras) (\<lambda>e. Inr []) demo_newReply id demo_boot (d', 60)"
    by (rule daemon_run.clock [OF daemon_run.http [OF daemon_run.booted [OF boot, where now = 0] h]]) simp
  have clocks: "\<forall>i. env_now (de_mount demo_daemon_env) i + 1 \<le> env_now (de_mount demo_daemon_env) (Suc i)"
    "\<forall>i. de_now demo_daemon_env i + 1 \<le> de_now demo_daemon_env (Suc i)"
    by (simp_all add: demo_daemon_env_def)
  have "map fst (map entry_scope (dm_entries d')) = [''br-vlan10'']"
    using running_daemon_exclusive [OF clocks zero_less_one demo_boot_def run] by (simp add: demo_boot_scopes del: map_map)
  with run show ?thesis by (auto simp: comp_def)
qed

subsection \<open>The rules of the firewall\<close>

text \<open>The start of the access point leaves the rules alone, or adds the subnet of the routed WiFi.\<close>

definition wifi_nat :: "config \<Rightarrow> manager option \<Rightarrow> manager option \<Rightarrow> bool" where
  "wifi_nat c mgr mgr' \<longleftrightarrow> mgr' = mgr \<or>
     (\<exists>m a net. mgr = Some m \<and> ParseCIDR (WiFi_Address (Config_WiFi c)) = Some (a, net) \<and>
        mgr' = Some (m\<lparr>mgr_rules := mgr_rules m @ [masq_rule (mgr_outIface m) net]\<rparr>))"

lemma route_wifi_nat: "route_wifi w c mgr s = Inr (mgr', s') \<Longrightarrow> wifi_nat c mgr mgr'"
  by (auto simp: route_wifi_def wifi_nat_def AddSource_def Let_def split: prod.splits option.splits if_splits)

lemma start_wifi_nat: "start_wifi w available c mgr f s = Inr (a, mgr', f', s') \<Longrightarrow> wifi_nat c mgr mgr'"
  by (auto simp: start_wifi_def Let_def dest: route_wifi_nat split: if_splits sum.splits prod.splits option.splits)
    (simp_all add: wifi_nat_def)

lemma start_services_nat:
  "start_services w available b mgr f s = Inr (d, s') \<Longrightarrow> wifi_nat (boot_cfg b) mgr (dm_nat d)"
  by (auto simp: start_services_def Let_def dest!: start_wifi_nat split: sum.splits prod.splits)

lemma boot_nat:
  assumes "daemon_boot w b s = Some (Inr (d, s'))"
  shows "\<exists>mgr. setup_firewall (de_lookup w) (de_flush w) (boot_cfg b) = Inr mgr \<and> wifi_nat (boot_cfg b) mgr (dm_nat d)"
proof -
  from assms obtain mgr available f1 s1 where
    "setup_firewall (de_lookup w) (de_flush w) (boot_cfg b) = Inr mgr" and
    s: "start_services w available b mgr f1 s1 = Inr (d, s')"
    by (auto simp: daemon_boot_def Let_def bind_eq_Some_conv split: option.splits prod.splits sum.splits if_splits)
  with start_services_nat [OF s] show ?thesis by (intro exI conjI)
qed

lemma run_nat:
  "daemon_run w decode encode newReply toBytes b st \<Longrightarrow>
   \<exists>mgr. setup_firewall (de_lookup w) (de_flush w) (boot_cfg b) = Inr mgr \<and> wifi_nat (boot_cfg b) mgr (dm_nat (fst st))"
proof (induction rule: daemon_run.induct)
  case (booted s d s' now)
  then show ?case using boot_nat by simp
next
  case (http d now path req code d')
  then have "dm_nat d' = dm_nat d" by (auto simp: daemon_http_def split: if_splits prod.splits)
  with http show ?case by simp
next
  case (hostapd d now ls)
  have "dm_nat (hostapd_output (de_kernel w) now ls d) = dm_nat d" by (auto simp: hostapd_output_def split: option.split prod.split)
  with hostapd show ?case by simp
qed (simp_all add: served_def Let_def)

lemma wifi_nat_forward:
  assumes "wifi_nat c (Some m) (Some m')"
  shows "nft.chain_verdict Forward (mgr_rules m') p = nft.chain_verdict Forward (mgr_rules m) p"
  using assms masq_forward [of _ "[n]" p for n] by (auto simp: wifi_nat_def nft_append)

text \<open>
  C16: At any time after a successful start with NAT, also in the presence of a routed access point, a
  packet forwarded from the bridge of one VLAN to that of another is dropped exactly when one of the two
  VLANs is isolated, in both directions; a packet to or from an interface that is no VLAN bridge, such
  as the uplink, is never dropped.
\<close>

theorem running_daemon_isolates:
  assumes "daemon_run w decode encode newReply toBytes b (d, now)" and "dm_nat d = Some m"
    and "\<forall>v \<in> set (Config_VLANs (boot_cfg b)). vlan_id (VLAN_ID v)" and "distinct (map VLAN_ID (Config_VLANs (boot_cfg b)))"
    and "x \<in> set (Config_VLANs (boot_cfg b))" and "y \<in> set (Config_VLANs (boot_cfg b))" and "VLAN_ID x \<noteq> VLAN_ID y"
  shows "(pkt_iif p = BridgeName (VLAN_ID x) \<and> pkt_oif p = BridgeName (VLAN_ID y) \<longrightarrow>
      (nft.chain_verdict Forward (mgr_rules m) p = Drops \<longleftrightarrow> VLAN_Isolated x \<or> VLAN_Isolated y)) \<and>
    ((\<forall>u \<in> set (Config_VLANs (boot_cfg b)). ifname (pkt_oif p) \<noteq> ifname (BridgeName (VLAN_ID u))) \<or>
     (\<forall>u \<in> set (Config_VLANs (boot_cfg b)). ifname (pkt_iif p) \<noteq> ifname (BridgeName (VLAN_ID u))) \<longrightarrow>
      nft.chain_verdict Forward (mgr_rules m) p = NoMatch)"
proof -
  obtain mgr where s: "setup_firewall (de_lookup w) (de_flush w) (boot_cfg b) = Inr mgr" "wifi_nat (boot_cfg b) mgr (Some m)"
    using run_nat [OF assms(1)] assms(2) by auto
  then obtain m0 where m0: "mgr = Some m0" by (auto simp: wifi_nat_def)
  show ?thesis
    using isolation_enforced [OF s(1) [unfolded m0] assms(3,5,6,7,4), of p] wifi_nat_forward [OF s(2) [unfolded m0], of p]
    by simp
qed

lemma demo_nat: "case setup_firewall (de_lookup demo_daemon_env) (de_flush demo_daemon_env) (boot_cfg demo_boot) of
    Inr (Some m) \<Rightarrow> True | _ \<Rightarrow> False"
  by code_simp

lemma demo_boot_vlans:
  "map (\<lambda>v. (VLAN_ID v, VLAN_Isolated v)) (Config_VLANs (boot_cfg demo_boot)) = [(10, False), (20, True)]"
  by code_simp

theorem running_daemon_isolates_witness:
  "\<exists>d m. daemon_run demo_daemon_env (\<lambda>b. Inr demo_boot_extras) (\<lambda>e. Inr []) demo_newReply id demo_boot (d, 0) \<and>
     dm_nat d = Some m \<and>
     nft.chain_verdict Forward (mgr_rules m) \<lparr>pkt_header = [], pkt_iif = BridgeName 10, pkt_oif = BridgeName 20\<rparr> = Drops"
proof -
  obtain d s' where boot: "daemon_boot demo_daemon_env demo_boot demo_links = Some (Inr (d, s'))"
    using demo_booted by (elim exE)
  have run: "daemon_run demo_daemon_env (\<lambda>b. Inr demo_boot_extras) (\<lambda>e. Inr []) demo_newReply id demo_boot (d, 0)"
    by (rule daemon_run.booted [OF boot])
  obtain m where m: "dm_nat d = Some m"
    using run_nat [OF run] demo_nat by (auto simp: wifi_nat_def split: option.splits)
  let ?vs = "Config_VLANs (boot_cfg demo_boot)"
  have l: "length ?vs = 2" using arg_cong [OF demo_boot_vlans, of length] by simp
  have v: "VLAN_ID (?vs ! 0) = 10" "VLAN_ID (?vs ! 1) = 20" "VLAN_Isolated (?vs ! 1)"
    using arg_cong [OF demo_boot_vlans, of "\<lambda>l. l ! 0"] arg_cong [OF demo_boot_vlans, of "\<lambda>l. l ! 1"] l by simp_all
  have ids: "map VLAN_ID ?vs = [10, 20]" using arg_cong [OF demo_boot_vlans, of "map fst"] by (simp add: comp_def)
  have all: "\<forall>u \<in> set ?vs. vlan_id (VLAN_ID u)"
  proof
    fix u assume "u \<in> set ?vs"
    then have "VLAN_ID u \<in> set (map VLAN_ID ?vs)" by simp
    then show "vlan_id (VLAN_ID u)" unfolding ids by (auto simp: vlan_id_def)
  qed
  have d: "distinct (map VLAN_ID ?vs)" "?vs ! 0 \<in> set ?vs" "?vs ! 1 \<in> set ?vs" "VLAN_ID (?vs ! 0) \<noteq> VLAN_ID (?vs ! 1)"
    using l v unfolding ids by simp_all
  have "nft.chain_verdict Forward (mgr_rules m) \<lparr>pkt_header = [], pkt_iif = BridgeName 10, pkt_oif = BridgeName 20\<rparr> = Drops"
    using running_daemon_isolates [OF run m all d, of "\<lparr>pkt_header = [], pkt_iif = BridgeName 10, pkt_oif = BridgeName 20\<rparr>"] v by simp
  with run m show ?thesis by blast
qed

end
