(* ===== verification/Sockets.thy ===== *)
theory Sockets
  imports PXE DHCP
begin

section \<open>Sockets of the DHCP and TFTP servers\<close>

text \<open>
  How \<open>pkg/dhcp/dhcp.go\<close> and \<open>pkg/pxe/pxe.go\<close> open a UDP socket that is tied to one interface: the
  sequence of system calls, the first of which that fails ends it, and the deferred \<open>Close\<close>. \<open>ok\<close> answers
  whether a call succeeds.
\<close>

subsection \<open>Opening a socket\<close>

datatype sock_call =
    SysSocket | SetBroadcast | SetReuseAddr | BindToDevice string | SysBind ip nat | FilePacketConn
  | ListenUDP ip nat | CloseFile

text \<open>The calls that are made, and the one that fails.\<close>

fun attempt :: "(sock_call \<Rightarrow> bool) \<Rightarrow> sock_call list \<Rightarrow> sock_call option \<times> sock_call list" where
  "attempt ok [] = (None, [])"
| "attempt ok (c # cs) = (if ok c then (case attempt ok cs of (e, made) \<Rightarrow> (e, c # made)) else (Some c, [c]))"

definition with_socket :: "(sock_call \<Rightarrow> bool) \<Rightarrow> sock_call list \<Rightarrow> sock_call option \<times> sock_call list" where
  "with_socket ok cs =
     (if \<not> ok SysSocket then (Some SysSocket, [SysSocket])
      else (case attempt ok cs of (e, made) \<Rightarrow> (e, SysSocket # made @ [CloseFile])))"

definition newDHCPConn :: "(sock_call \<Rightarrow> bool) \<Rightarrow> string \<Rightarrow> sock_call option \<times> sock_call list" where
  "newDHCPConn ok iface =
     with_socket ok [SetBroadcast, SetReuseAddr, BindToDevice iface, SysBind [0, 0, 0, 0] 67, FilePacketConn]"

definition listenUDPOn :: "(sock_call \<Rightarrow> bool) \<Rightarrow> udp_addr \<Rightarrow> string \<Rightarrow> sock_call option \<times> sock_call list" where
  "listenUDPOn ok addr iface =
     (if iface = [] then attempt ok [ListenUDP (UDP_IP addr) (UDP_Port addr)]
      else
        (let ip4 = To4 (UDP_IP addr)
         in with_socket ok [SetReuseAddr, BindToDevice iface,
              SysBind (if ip4 \<noteq> [] then ip4 else [0, 0, 0, 0]) (UDP_Port addr), FilePacketConn]))"

text \<open>
  \<open>ifaceIPv4\<close>: the addresses of an interface are \<open>None\<close> if it or they cannot be read; an address that is
  not an \<open>IPNet\<close> is \<open>None\<close>.
\<close>

fun first_IPv4 :: "ip option list \<Rightarrow> ip option" where
  "first_IPv4 [] = None"
| "first_IPv4 (a # as) =
     (case a of None \<Rightarrow> first_IPv4 as | Some i \<Rightarrow> if To4 i \<noteq> [] then Some (To4 i) else first_IPv4 as)"

definition ifaceIPv4 :: "(string \<Rightarrow> ip option list option) \<Rightarrow> string \<Rightarrow> ip option" where
  "ifaceIPv4 addrs name = Option.bind (addrs name) first_IPv4"

definition listenTransfer ::
  "(sock_call \<Rightarrow> bool) \<Rightarrow> (string \<Rightarrow> ip option list option) \<Rightarrow> pxe_server \<Rightarrow> sock_call option \<times> sock_call list" where
  "listenTransfer ok addrs s = (case listenTransfer_addr (ifaceIPv4 addrs) s of (addr, ifc) \<Rightarrow> listenUDPOn ok addr ifc)"

text \<open>\<open>Start\<close> of the TFTP server on its socket; \<open>resolve\<close> is \<open>net.ResolveUDPAddr\<close>.\<close>

definition pxe_listen ::
  "(string \<Rightarrow> bool) \<Rightarrow> (string \<Rightarrow> udp_addr option) \<Rightarrow> (sock_call \<Rightarrow> bool) \<Rightarrow> pxe_server \<Rightarrow> pxe_error option \<times> pxe_server" where
  "pxe_listen mkdirAll resolve ok s =
     pxe_Start mkdirAll (\<lambda>l. resolve l \<noteq> None)
       (\<lambda>l ifc. case resolve l of None \<Rightarrow> False | Some addr \<Rightarrow> fst (listenUDPOn ok addr ifc) = None) s"

text \<open>
  \<open>Run\<close> of the DHCP server: the error it ends with, and whether the reaper was started. \<open>newServer\<close> and
  \<open>serve\<close> are the answers of the DHCP library.
\<close>

datatype run_error = RunConn sock_call | RunNewServer | RunServe

definition dhcp_Run :: "(sock_call \<Rightarrow> bool) \<Rightarrow> bool \<Rightarrow> bool \<Rightarrow> server \<Rightarrow> run_error option \<times> bool" where
  "dhcp_Run ok newServer serve s =
     (case fst (newDHCPConn ok (srv_iface s)) of
        Some c \<Rightarrow> (Some (RunConn c), False)
      | None \<Rightarrow>
        if \<not> newServer then (Some RunNewServer, False)
        else (if serve then None else Some RunServe, True))"

subsection \<open>The socket that results\<close>

text \<open>
  What the kernel makes of the calls: the open descriptors, the options, and whether the socket was
  ever bound to a port without being tied to an interface.
\<close>

record sock_state =
  sk_fds :: int
  sk_broadcast :: bool
  sk_device :: string
  sk_addr :: "(ip \<times> nat) option"
  sk_exposed :: bool

fun sock_step :: "sock_call \<Rightarrow> sock_state \<Rightarrow> sock_state" where
  "sock_step SysSocket k = k\<lparr>sk_fds := sk_fds k + 1\<rparr>"
| "sock_step SetBroadcast k = k\<lparr>sk_broadcast := True\<rparr>"
| "sock_step SetReuseAddr k = k"
| "sock_step (BindToDevice d) k = k\<lparr>sk_device := d\<rparr>"
| "sock_step (SysBind a p) k = k\<lparr>sk_addr := Some (a, p), sk_exposed := sk_exposed k \<or> sk_device k = []\<rparr>"
| "sock_step FilePacketConn k = k\<lparr>sk_fds := sk_fds k + 1\<rparr>"
| "sock_step (ListenUDP a p) k = k\<lparr>sk_fds := sk_fds k + 1, sk_addr := Some (a, p), sk_exposed := sk_exposed k \<or> sk_device k = []\<rparr>"
| "sock_step CloseFile k = k\<lparr>sk_fds := sk_fds k - 1\<rparr>"

text \<open>Only the calls that succeed have an effect; \<open>Close\<close> always closes.\<close>

definition sock_run :: "(sock_call \<Rightarrow> bool) \<Rightarrow> sock_call list \<Rightarrow> sock_state" where
  "sock_run ok made = fold sock_step (filter (\<lambda>c. ok c \<or> c = CloseFile) made)
     \<lparr>sk_fds = 0, sk_broadcast = False, sk_device = [], sk_addr = None, sk_exposed = False\<rparr>"

text \<open>
  C31: Opening the socket of a DHCP server, or a TFTP socket for an interface, leaves exactly one
  descriptor open if it succeeds and none if any call fails. The socket is tied to the interface before
  it is bound to its port, so that at no moment it can receive a packet of another interface; the DHCP
  socket is bound to port 67 and allowed to broadcast.
\<close>

theorem device_sockets:
  assumes "iface \<noteq> []" and "newDHCPConn ok iface = (e, made)" and "listenUDPOn ok addr iface = (e', made')"
  shows "sk_fds (sock_run ok made) = (if e = None then 1 else 0) \<and> \<not> sk_exposed (sock_run ok made) \<and>
    (e = None \<longrightarrow> sk_device (sock_run ok made) = iface \<and> sk_addr (sock_run ok made) = Some ([0, 0, 0, 0], 67) \<and>
      sk_broadcast (sock_run ok made)) \<and>
    sk_fds (sock_run ok made') = (if e' = None then 1 else 0) \<and> \<not> sk_exposed (sock_run ok made') \<and>
    (e' = None \<longrightarrow> sk_device (sock_run ok made') = iface \<and>
      sk_addr (sock_run ok made') = Some (if To4 (UDP_IP addr) = [] then [0, 0, 0, 0] else To4 (UDP_IP addr), UDP_Port addr))"
  using assms
  by (auto simp: newDHCPConn_def listenUDPOn_def with_socket_def Let_def sock_run_def split: if_splits)

theorem device_sockets_witness:
  "fst (newDHCPConn (\<lambda>_. True) ''br-lan'') = None \<and>
   sk_device (sock_run (\<lambda>_. True) (snd (newDHCPConn (\<lambda>_. True) ''br-lan''))) = ''br-lan'' \<and>
   fst (newDHCPConn (\<lambda>c. c \<noteq> SysBind [0, 0, 0, 0] 67) ''br-lan'') = Some (SysBind [0, 0, 0, 0] 67) \<and>
   sk_fds (sock_run (\<lambda>c. c \<noteq> SysBind [0, 0, 0, 0] 67) (snd (newDHCPConn (\<lambda>c. c \<noteq> SysBind [0, 0, 0, 0] 67) ''br-lan''))) = 0"
proof -
  have opened: "fst (newDHCPConn (\<lambda>_. True) ''br-lan'') = None"
    "fst (newDHCPConn (\<lambda>c. c \<noteq> SysBind [0, 0, 0, 0] 67) ''br-lan'') = Some (SysBind [0, 0, 0, 0] 67)"
    by (simp_all add: newDHCPConn_def with_socket_def)
  note d = device_sockets [where iface = "''br-lan''" and addr = "\<lparr>UDP_IP = [], UDP_Port = 69, UDP_Zone = []\<rparr>",
      OF _ prod.collapse [symmetric] prod.collapse [symmetric]]
  show ?thesis
    using opened d [where ok = "\<lambda>_. True"] d [where ok = "\<lambda>c. c \<noteq> SysBind [0, 0, 0, 0] 67"] by simp
qed

end
