(* ===== verification/Spec2Isabelle.thy ===== *)
theory Spec2Isabelle
  imports DHCP_Props Config_Props PXE_Props Firewall_Props Router_Props Macmap_Props Network_Props Mount_Props
    SMB_Props WiFi_Props Status_Props Router_CLI_Props Milkv_Props Daemon_Run Sockets
begin

text \<open>
  A verification development for gokrazy-router, a home router appliance written in Go: a DHCP
  server, NAT with isolated VLANs, a TFTP server for network boot, an SMB share, a WiFi access
  point, traffic accounting, and a command line tool.

  \<^bold>\<open>The program and its parts.\<close> The daemon \<open>cmd/gokrazy-router/main.go\<close> reads router.json, merges the
  extras file from the mounted volume, sets up bridges and firewall rules, and starts the services;
  an HTTP endpoint reloads the extras file. The services live in \<open>pkg/\<close>: \<open>config\<close>, \<open>dhcp\<close>, \<open>pxe\<close>, \<open>nat\<close>,
  \<open>netsetup\<close>, \<open>vlan\<close>, \<open>macmap\<close>, \<open>mount\<close>, \<open>smb\<close>, \<open>wifi\<close>, \<open>status\<close>. \<open>cmd/router-cli\<close> edits the extras file
  and exports the known clients; \<open>cmd/milkv-usbnet\<close> is a separate small daemon that offers a DHCP server
  over USB.

  \<^bold>\<open>Theories.\<close> A theory with definitions has the name of its component; the theory of the same name
  with \<open>_Props\<close> holds its invariants, lemmas and properties.

  \<^item> \<open>Go_Prelude\<close>, \<open>Go_Net\<close>, \<open>Go_Path\<close>, \<open>Go_Float\<close>: what the sources use of Go and its standard library, that is
    byte slices, maps (association lists with distinct keys whose order is the iteration order; the locale
    \<open>go_map\<close> states their laws, \<open>key_normalizer\<close> those of a map filled under normalised keys),
    \<open>strings\<close>, \<open>strconv\<close>, files, \<open>net.IP\<close>, CIDR parsing, \<open>path/filepath\<close>, rounding to \<open>float64\<close>. Machine integers are words
    (\<open>32 word\<close> registers, \<open>64 word\<close> counters, \<open>16 word\<close> block numbers) or integers with the bounds of
    \<open>int\<close> written out.
  \<^item> \<open>DHCP\<close> (\<open>pkg/dhcp/dhcp.go\<close>), \<open>DHCP_Safety\<close>, \<open>DHCP_Props\<close>: the server state as a record, \<open>New\<close>,
    \<open>allocate\<close> with its search loop (which may not end in the model and is proved to end), the
    reaper, the handler. \<open>dhcp_reachable\<close> are the states after any sequence of requests, reaps,
    reservation changes and passing time; the locale \<open>lease_service\<close> is the contract of a lease
    table. Shown: no two clients hold an address, allocation is total and complete, reservations
    are honoured, bursts of requests refine a table of bindings, the reaper is exact.
  \<^item> \<open>Config\<close> (\<open>pkg/config/config.go\<close>): the configuration structs, \<open>Load\<close>, \<open>ExpandEnv\<close>, the extras file and
    its merge \<open>ApplyExtras\<close>; the locale \<open>extras_table\<close> is the contract of an editable table.
  \<^item> \<open>PXE\<close> (\<open>pkg/pxe/pxe.go\<close>), \<open>PXE_Transfer\<close>, \<open>PXE_Props\<close>: requests, path resolution, opening below the
    root directory while the file system changes, the transfer with retransmissions against a receiver
    written from RFC 1350, and the reader loop as a step relation.
  \<^item> \<open>Firewall\<close> (\<open>pkg/nat/nat.go\<close> and its use in main): the rules as data; the kernel that evaluates
    them is the locale \<open>nft_kernel\<close>, interpreted on an evaluator of these rules.
  \<^item> \<open>Network\<close> (\<open>pkg/netsetup\<close>, \<open>pkg/vlan\<close>): bridges and ports over a netlink library that is a record
    of operations; its laws are the locale \<open>netlink_laws\<close>.
  \<^item> \<open>Macmap\<close> (\<open>pkg/macmap\<close>), \<open>Mount\<close> (\<open>pkg/mount\<close>), \<open>SMB\<close> (\<open>pkg/smb\<close>), \<open>WiFi\<close> (\<open>pkg/wifi\<close>), \<open>Status\<close>
    (\<open>pkg/status\<close>): parsing and validation, generated files and commands, supervision, and the
    accounting of traffic, each with its own header.
  \<^item> \<open>Router\<close> (\<open>cmd/gokrazy-router/main.go\<close>): boot configuration, DHCP options, and the reloader.
  \<^item> \<open>Daemon\<close> (the rest of \<open>cmd/gokrazy-router/main.go\<close>), \<open>Daemon_Props\<close>, \<open>Daemon_Run\<close>: the start of all
    services in order with every way in which it ends, the callbacks between them, the HTTP handlers, the
    shutdown. The locale \<open>lease_observer\<close> is the contract of a listener of lease events, interpreted on the
    status monitor. Shown: the start ends and serves the enabled scopes; in every state that the running
    daemon can reach (\<open>daemon_run\<close>) it serves these scopes, no two clients of a scope share an address, and isolated VLANs
    stay isolated;
    the status follows the lease table while requests are prompt, and how it misses a client otherwise.
  \<^item> \<open>Sockets\<close> (\<open>newDHCPConn\<close> and \<open>Run\<close> of \<open>pkg/dhcp\<close>, \<open>listenUDPOn\<close> of \<open>pkg/pxe\<close>): the system calls that open a
    socket for one interface, their order, and the descriptors left open.
  \<^item> \<open>Router_CLI\<close> (\<open>cmd/router-cli/main.go\<close>) and \<open>Milkv\<close> (\<open>cmd/milkv-usbnet/main.go\<close>).

  \<^bold>\<open>Effects.\<close> State is passed explicitly. Errors are values of a sum or option type; a panic or a loop
  that does not end is \<open>None\<close>. System calls and other programs are parameters: functions in a record
  that answer whether a call succeeds and what it returns. Codecs (JSON, TOML) are parameters, with the
  hypothesis, where it is needed, that decoding undoes encoding. Where a Go map is iterated, the
  theorems hold for every order of the association list, or the step relation has a rule that
  permutes it.

  \<^bold>\<open>Bounds and fuel.\<close> No definition takes fuel. Loops of unknown length (the search for a free
  address, the station listing, polling, sending a file) are \<open>partial_function (option)\<close>, and the
  theorems state when they return. Numbers of retries, block sizes and time-outs are the constants of
  the code.

  \<^bold>\<open>Not modelled.\<close> Logging; goroutine scheduling beyond the interleaving of whole operations that the step
  relations allow (the mutexes make the operations atomic); sockets, processes and files below the level
  of single calls; \<open>strconv.ParseFloat\<close> of numbers that are not plain decimals; the usage texts of the
  command line tool; the boot log of \<open>milkv-usbnet\<close> and functions that nothing calls (\<open>gpioCleanup\<close>,
  \<open>enableProxyARP\<close>, \<open>Addr\<close>); the DHCP packet library, whose reply constructor is a parameter of the handler.
\<close>

end
